theory Spec2Isabelle
  imports Main "HOL-Library.Char_ord" "HOL-Library.List_Lexorder" "HOL-Library.Sublist"
begin

section \<open>The PDF tool service (services/pdf-tool-go)\<close>

text \<open>
  The development embeds the Go PDF service (\<^verbatim>\<open>internal/service\<close>), its HTTP handlers
  (\<^verbatim>\<open>internal/handlers\<close>) and the part of the configuration they read. A byte slice is a
  \<^typ>\<open>string\<close> (a list of 8-bit characters), so the signature \<^verbatim>\<open>%PDF\<close> is a literal.
\<close>

subsection \<open>Errors and decimal formatting\<close>

text \<open>
  A Go \<^verbatim>\<open>error\<close> built by \<^verbatim>\<open>fmt.Errorf\<close> is its message, possibly wrapping a cause
  (\<^verbatim>\<open>%w\<close>). \<open>Err\<close> is a plain message, \<open>Wrap\<close> a message followed by the cause.
\<close>

datatype error = Err string | Wrap string error

function nat_dec :: "nat \<Rightarrow> string" where
  "nat_dec n = (if n < 10 then [''0123456789'' ! n]
                else nat_dec (n div 10) @ [''0123456789'' ! (n mod 10)])"
  by pat_completeness auto
termination
  by (relation "measure id") auto

declare nat_dec.simps [simp del]

text \<open>\<^verbatim>\<open>strconv.Itoa\<close> and the verb \<^verbatim>\<open>%d\<close>: decimal digits, a minus sign when negative.\<close>

definition Itoa :: "int \<Rightarrow> string" where
  "Itoa i = (if i < 0 then CHR ''-'' # nat_dec (nat (- i)) else nat_dec (nat i))"

subsection \<open>Configuration (internal/config)\<close>

record PDFConfig =
  MaxFileSize :: int
  AllowedFormats :: "string list"
  TempDir :: string
  MaxPages :: int
  OCREnabled :: bool
  OCRLanguages :: "string list"
  CompressionLevel :: int

subsection \<open>ValidateRequest\<close>

definition ValidateRequest :: "PDFConfig \<Rightarrow> string \<Rightarrow> error option" where
  "ValidateRequest cfg pdfData =
     (if length pdfData = 0 then Some (Err ''PDF data is empty'')
      else if int (length pdfData) > MaxFileSize cfg then
        Some (Err (''PDF file too large: '' @ Itoa (int (length pdfData)) @ '' bytes (max ''
                   @ Itoa (MaxFileSize cfg) @ '')''))
      else if length pdfData < 4 \<or> take 4 pdfData \<noteq> ''%PDF'' then
        Some (Err ''invalid PDF format'')
      else None)"

subsection \<open>The environment: file system, random names, injected failures, telemetry\<close>

text \<open>
  The service works on named files under the configured temp directory. A \<open>world\<close> holds
  the files (path and content, in creation order), the directories, and what the code
  cannot control: \<open>fault\<close> says which of the numbered fallible calls fails (\<open>clock\<close> counts
  them) and \<open>rm_fault\<close> does the same for the removals, \<open>rand\<close> is the source of the random
  part of \<^verbatim>\<open>os.CreateTemp\<close> names and \<open>uuid\<close> that of \<^verbatim>\<open>uuid.New()\<close>, and \<open>glob_meta\<close> is what
  \<^verbatim>\<open>filepath.Glob\<close> answers for a directory whose path is a pattern itself. \<open>created\<close> is the
  history of every path that was newly created, and \<open>logs\<close> what was handed to the logger
  and to the tracing span.
\<close>

datatype logval = LStr string | LInt int | LBool bool | LErr error

datatype telemetry =
    LogInfo string "(string \<times> logval) list"
  | LogError string "(string \<times> logval) list"
  | SpanAttrs string "(string \<times> logval) list"

record world =
  files :: "(string \<times> string) list"
  dirs :: "string list"
  fault :: "nat \<Rightarrow> bool"
  rm_fault :: "nat \<Rightarrow> bool"
  clock :: nat
  rand :: "nat \<Rightarrow> string"
  seed :: nat
  uuid :: "nat \<Rightarrow> string"
  useed :: nat
  glob_meta :: "string \<Rightarrow> error + string list"
  created :: "string list"
  logs :: "telemetry list"

definition log_Info :: "string \<Rightarrow> (string \<times> logval) list \<Rightarrow> world \<Rightarrow> world" where
  "log_Info msg kvs w = w\<lparr>logs := logs w @ [LogInfo msg kvs]\<rparr>"

definition log_Error :: "string \<Rightarrow> (string \<times> logval) list \<Rightarrow> world \<Rightarrow> world" where
  "log_Error msg kvs w = w\<lparr>logs := logs w @ [LogError msg kvs]\<rparr>"

definition span_SetAttributes :: "string \<Rightarrow> (string \<times> logval) list \<Rightarrow> world \<Rightarrow> world" where
  "span_SetAttributes span kvs w = w\<lparr>logs := logs w @ [SpanAttrs span kvs]\<rparr>"

text \<open>
  \<^verbatim>\<open>filepath.Join\<close> of a directory and a name without separators of its own, for a
  directory path that \<^verbatim>\<open>filepath.Clean\<close> leaves as it is (not empty, no trailing separator, no
  empty, \<^verbatim>\<open>.\<close> or \<^verbatim>\<open>..\<close> component), as the default \<^verbatim>\<open>/tmp/pdf-tool\<close> is.
\<close>

definition Join :: "string \<Rightarrow> string \<Rightarrow> string" where
  "Join d n = d @ ''/'' @ n"

definition paths :: "world \<Rightarrow> string set" where
  "paths w = fst ` set (files w) \<union> set (dirs w)"

text \<open>\<open>under d p\<close>: the path \<open>p\<close> is \<open>d\<close> itself or lies below the directory \<open>d\<close>.\<close>

definition under :: "string \<Rightarrow> string \<Rightarrow> bool" where
  "under d p \<longleftrightarrow> p = d \<or> prefix (d @ ''/'') p"

text \<open>
  Every fallible call takes the next answer of \<open>fault\<close>, and every removal the next answer
  of \<open>rm_fault\<close>.
\<close>

definition tick :: "world \<Rightarrow> bool \<times> world" where
  "tick w = (fault w (clock w), w\<lparr>clock := Suc (clock w)\<rparr>)"

definition rm_tick :: "world \<Rightarrow> bool \<times> world" where
  "rm_tick w = (rm_fault w (clock w), w\<lparr>clock := Suc (clock w)\<rparr>)"

definition fs_write :: "string \<Rightarrow> string \<Rightarrow> world \<Rightarrow> world" where
  "fs_write p d w =
     (if p \<in> fst ` set (files w)
      then w\<lparr>files := map (\<lambda>e. if fst e = p then (p, d) else e) (files w)\<rparr>
      else w\<lparr>files := files w @ [(p, d)], created := created w @ [p]\<rparr>)"

text \<open>
  \<^verbatim>\<open>os.MkdirAll\<close> creates the named directory and every parent that is missing, and
  succeeds when the directory is there already. \<open>dir_chain d\<close> lists the parents of \<open>d\<close>
  (its prefixes that end before a separator, the root apart) from the outermost
  inwards, and \<open>d\<close> last. \<open>mkdir_chain\<close> is the recursion of \<^verbatim>\<open>os.MkdirAll\<close> on a path and its
  parents, innermost first: a directory that exists is left alone, a regular file in its
  place is an error, and otherwise the parent is made first and then the directory by
  \<^verbatim>\<open>os.Mkdir\<close>, which can fail; what was made before a failure stays.
\<close>

fun slash_prefixes :: "string \<Rightarrow> string \<Rightarrow> string list" where
  "slash_prefixes acc [] = []"
| "slash_prefixes acc (c # cs) =
     (if c = CHR ''/'' \<and> acc \<noteq> [] then [rev acc] else []) @ slash_prefixes (c # acc) cs"

definition dir_chain :: "string \<Rightarrow> string list" where
  "dir_chain d = slash_prefixes [] d @ [d]"

fun mkdir_chain :: "string list \<Rightarrow> world \<Rightarrow> error option \<times> world" where
  "mkdir_chain [] w = (None, w)"
| "mkdir_chain (q # up) w =
     (if q \<in> set (dirs w) then (None, w)
      else if q \<in> fst ` set (files w) then (Some (Err ''not a directory''), w)
      else (case mkdir_chain up w of
              (Some e, w1) \<Rightarrow> (Some e, w1)
            | (None, w1) \<Rightarrow>
                (case tick w1 of (f, w2) \<Rightarrow>
                   if f then (Some (Err ''mkdir''), w2)
                   else (None, w2\<lparr>dirs := dirs w2 @ [q], created := created w2 @ [q]\<rparr>))))"

definition os_MkdirAll :: "string \<Rightarrow> world \<Rightarrow> error option \<times> world" where
  "os_MkdirAll d w =
     (case tick w of (f, w1) \<Rightarrow>
        if f \<or> d = [] then (Some (Err ''mkdir''), w1) else mkdir_chain (rev (dir_chain d)) w1)"

text \<open>
  \<^verbatim>\<open>os.CreateTemp(dir, pattern)\<close>: the last \<^verbatim>\<open>*\<close> of the pattern is replaced by a random
  string, and the file is opened with \<^verbatim>\<open>O_EXCL\<close>, so an existing path is never reused. The
  retries of the Go library on a name that exists are further draws of \<open>rand\<close>; the model
  draws once and reports the failure.
\<close>

definition prefixAndSuffix :: "string \<Rightarrow> string \<times> string" where
  "prefixAndSuffix pattern =
     (if CHR ''*'' \<in> set pattern
      then (rev (tl (dropWhile (\<lambda>c. c \<noteq> CHR ''*'') (rev pattern))),
            rev (takeWhile (\<lambda>c. c \<noteq> CHR ''*'') (rev pattern)))
      else (pattern, []))"

definition os_CreateTemp :: "string \<Rightarrow> string \<Rightarrow> world \<Rightarrow> (error + string) \<times> world" where
  "os_CreateTemp dir pattern w =
     (if CHR ''/'' \<in> set pattern then (Inl (Err ''pattern contains path separator''), w)
      else case prefixAndSuffix pattern of (pre, suf) \<Rightarrow>
        (case tick w of (f, w1) \<Rightarrow>
           let name = Join dir (pre @ rand w1 (seed w1) @ suf);
               w2 = w1\<lparr>seed := Suc (seed w1)\<rparr>
           in if f then (Inl (Err ''open''), w2)
              else if name \<in> paths w2 then (Inl (Err ''file exists''), w2)
              else (Inr name, w2\<lparr>files := files w2 @ [(name, [])],
                                 created := created w2 @ [name]\<rparr>)))"

text \<open>\<^verbatim>\<open>io.Copy\<close> into the open temp file: the whole content, or a failure that leaves the file.\<close>

definition io_Copy :: "string \<Rightarrow> string \<Rightarrow> world \<Rightarrow> error option \<times> world" where
  "io_Copy name data w =
     (case tick w of (f, w1) \<Rightarrow>
        if f then (Some (Err ''write''), w1) else (None, fs_write name data w1))"

definition os_ReadFile :: "string \<Rightarrow> world \<Rightarrow> (error + string) \<times> world" where
  "os_ReadFile p w =
     (case tick w of (f, w1) \<Rightarrow>
        if f then (Inl (Err ''read''), w1)
        else (case map_of (files w1) p of
                None \<Rightarrow> (Inl (Err ''no such file or directory''), w1)
              | Some d \<Rightarrow> (Inr d, w1)))"

text \<open>
  \<^verbatim>\<open>os.Remove\<close> removes the named file, or the named directory when nothing lies below
  it; \<^verbatim>\<open>os.RemoveAll\<close> removes the path and everything below it. Both can fail, and a
  removal that fails leaves everything in place. The source discards their results at
  every call, so the model returns the world only.
\<close>

definition os_Remove :: "string \<Rightarrow> world \<Rightarrow> world" where
  "os_Remove p w =
     (case rm_tick w of (f, w1) \<Rightarrow>
        if f then w1
        else w1\<lparr>files := filter (\<lambda>e. fst e \<noteq> p) (files w1),
                dirs := (if \<exists>q \<in> paths w1. q \<noteq> p \<and> under p q then dirs w1
                         else filter (\<lambda>d. d \<noteq> p) (dirs w1))\<rparr>)"

definition os_RemoveAll :: "string \<Rightarrow> world \<Rightarrow> world" where
  "os_RemoveAll p w =
     (case rm_tick w of (f, w1) \<Rightarrow>
        if f then w1
        else w1\<lparr>files := filter (\<lambda>e. \<not> under p (fst e)) (files w1),
                dirs := filter (\<lambda>d. \<not> under p d) (dirs w1)\<rparr>)"

definition HasSuffix :: "string \<Rightarrow> string \<Rightarrow> bool" where
  "HasSuffix s suf \<longleftrightarrow> length suf \<le> length s \<and> drop (length s - length suf) s = suf"

text \<open>
  \<^verbatim>\<open>filepath.Glob(filepath.Join(dir, "*.pdf"))\<close>. For a directory path without pattern
  characters (\<^verbatim>\<open>hasMeta\<close>: one of \<^verbatim>\<open>*\<close>, \<^verbatim>\<open>?\<close>, \<^verbatim>\<open>[\<close> and the backslash) these are the entries
  directly in \<open>dir\<close> whose name ends in \<^verbatim>\<open>.pdf\<close>, in the order of \<^verbatim>\<open>sort.Strings\<close> (bytewise
  lexicographic). A directory path with pattern characters is matched as a pattern
  itself, and a malformed one is the pattern error of \<^verbatim>\<open>filepath.Glob\<close>; the model does not
  compute this case and takes the answer, an error or a list of paths, from \<open>glob_meta\<close>.
  \<^verbatim>\<open>filepath.Glob\<close> ignores the errors of reading a directory, and the model has none.
\<close>

definition hasMeta :: "string \<Rightarrow> bool" where
  "hasMeta p \<longleftrightarrow> CHR ''*'' \<in> set p \<or> CHR ''?'' \<in> set p \<or> CHR ''['' \<in> set p \<or> CHR 0x5C \<in> set p"

definition Glob_pdf :: "string \<Rightarrow> world \<Rightarrow> error + string list" where
  "Glob_pdf dir w =
     (if hasMeta dir then glob_meta w dir
      else (let names = map (drop (length dir + 1))
                          (filter (\<lambda>p. prefix (dir @ ''/'') p) (map fst (files w) @ dirs w));
                matches = filter (\<lambda>n. CHR ''/'' \<notin> set n \<and> HasSuffix n ''.pdf'') names
            in Inr (map (Join dir) (sort (remdups matches)))))"

subsection \<open>The PDF library (pdfcpu), a parameter of the service\<close>

text \<open>
  pdfcpu is a dependency, not part of the repository. The service is modelled over any
  library: \<open>lib_ReadContext\<close> is the structural parse (page count, information dictionary,
  encryption dictionary), \<open>lib_Merge\<close>, \<open>lib_Split\<close> (one document per page, in page
  order), \<open>lib_Optimize\<close> and \<open>lib_AddWatermarks\<close> are the transformations on contents,
  and \<open>lib_spanFileName\<close> is the name \<^verbatim>\<open>api.SplitFile\<close> gives the file of page \<open>n\<close>.
\<close>

record pdf_context =
  ctx_PageCount :: int
  ctx_Info :: "(string \<times> string) list option"
  ctx_Encrypt :: "(string \<times> string) list option"

datatype watermark = Watermark (wm_text: string) (wm_desc: string) (wm_onTop: bool)

record pdfcpu =
  lib_ReadContext :: "string \<Rightarrow> error + pdf_context"
  lib_Merge :: "string list \<Rightarrow> error + string"
  lib_Split :: "string \<Rightarrow> error + string list"
  lib_spanFileName :: "string \<Rightarrow> nat \<Rightarrow> string"
  lib_Optimize :: "string \<Rightarrow> error + string"
  lib_ParseTextWatermarkDetails :: "string \<Rightarrow> string \<Rightarrow> bool \<Rightarrow> error + watermark"
  lib_AddWatermarks :: "string \<Rightarrow> watermark \<Rightarrow> error + string"

text \<open>
  The file-oriented entry points read the named input files, call the transformation and
  write the named output only. A call can also fail for a reason of the environment, and
  a call that fails may leave a partial output file behind (\<open>leftover\<close>, decided by the
  next answer of \<open>fault\<close>).
\<close>

definition leftover :: "string \<Rightarrow> world \<Rightarrow> world" where
  "leftover outFile w = (case tick w of (g, w1) \<Rightarrow> if g then fs_write outFile [] w1 else w1)"

fun read_inputs :: "string list \<Rightarrow> world \<Rightarrow> string list option" where
  "read_inputs [] w = Some []"
| "read_inputs (f # fs) w =
     (case map_of (files w) f of
        None \<Rightarrow> None
      | Some d \<Rightarrow> (case read_inputs fs w of None \<Rightarrow> None | Some ds \<Rightarrow> Some (d # ds)))"

definition api_MergeCreateFile :: "pdfcpu \<Rightarrow> string list \<Rightarrow> string \<Rightarrow> world \<Rightarrow> error option \<times> world" where
  "api_MergeCreateFile lib inFiles outFile w =
     (case tick w of (f, w1) \<Rightarrow>
        if f then (Some (Err ''pdfcpu: i/o error''), leftover outFile w1)
        else (case read_inputs inFiles w1 of
                None \<Rightarrow> (Some (Err ''pdfcpu: no such file''), leftover outFile w1)
              | Some ds \<Rightarrow>
                  (case lib_Merge lib ds of
                     Inl e \<Rightarrow> (Some e, leftover outFile w1)
                   | Inr out \<Rightarrow> (None, fs_write outFile out w1))))"

fun write_pages :: "pdfcpu \<Rightarrow> string \<Rightarrow> string \<Rightarrow> nat \<Rightarrow> string list \<Rightarrow> world \<Rightarrow> world" where
  "write_pages lib inFile outDir n [] w = w"
| "write_pages lib inFile outDir n (pg # pgs) w =
     write_pages lib inFile outDir (Suc n) pgs
       (fs_write (Join outDir (lib_spanFileName lib inFile n)) pg w)"

text \<open>
  \<^verbatim>\<open>api.SplitFile(inFile, outDir, 1, nil)\<close>: span 1, a file per page, numbered from 1. What
  a failing call may leave behind is the file of the first page.
\<close>

definition api_SplitFile :: "pdfcpu \<Rightarrow> string \<Rightarrow> string \<Rightarrow> world \<Rightarrow> error option \<times> world" where
  "api_SplitFile lib inFile outDir w =
     (case tick w of (f, w1) \<Rightarrow>
        if f then (Some (Err ''pdfcpu: i/o error''), leftover (Join outDir (lib_spanFileName lib inFile 1)) w1)
        else (case map_of (files w1) inFile of
                None \<Rightarrow> (Some (Err ''pdfcpu: no such file''), leftover (Join outDir (lib_spanFileName lib inFile 1)) w1)
              | Some d \<Rightarrow>
                  (case lib_Split lib d of
                     Inl e \<Rightarrow> (Some e, leftover (Join outDir (lib_spanFileName lib inFile 1)) w1)
                   | Inr pgs \<Rightarrow> (None, write_pages lib inFile outDir 1 pgs w1))))"

definition api_OptimizeFile :: "pdfcpu \<Rightarrow> string \<Rightarrow> string \<Rightarrow> world \<Rightarrow> error option \<times> world" where
  "api_OptimizeFile lib inFile outFile w =
     (case tick w of (f, w1) \<Rightarrow>
        if f then (Some (Err ''pdfcpu: i/o error''), leftover outFile w1)
        else (case map_of (files w1) inFile of
                None \<Rightarrow> (Some (Err ''pdfcpu: no such file''), leftover outFile w1)
              | Some d \<Rightarrow>
                  (case lib_Optimize lib d of
                     Inl e \<Rightarrow> (Some e, leftover outFile w1)
                   | Inr out \<Rightarrow> (None, fs_write outFile out w1))))"

definition api_AddWatermarksFile ::
  "pdfcpu \<Rightarrow> string \<Rightarrow> string \<Rightarrow> watermark \<Rightarrow> world \<Rightarrow> error option \<times> world" where
  "api_AddWatermarksFile lib inFile outFile wm w =
     (case tick w of (f, w1) \<Rightarrow>
        if f then (Some (Err ''pdfcpu: i/o error''), leftover outFile w1)
        else (case map_of (files w1) inFile of
                None \<Rightarrow> (Some (Err ''pdfcpu: no such file''), leftover outFile w1)
              | Some d \<Rightarrow>
                  (case lib_AddWatermarks lib d wm of
                     Inl e \<Rightarrow> (Some e, leftover outFile w1)
                   | Inr out \<Rightarrow> (None, fs_write outFile out w1))))"

text \<open>
  The names pdfcpu itself gives the page files (\<^verbatim>\<open>spanFileName\<close> in its split code): the
  base name of the input without \<^verbatim>\<open>.pdf\<close>, an underscore, the page number in decimal
  without padding, and \<^verbatim>\<open>.pdf\<close>.
\<close>

definition Base :: "string \<Rightarrow> string" where
  "Base p = rev (takeWhile (\<lambda>c. c \<noteq> CHR ''/'') (rev p))"

definition TrimSuffix :: "string \<Rightarrow> string \<Rightarrow> string" where
  "TrimSuffix s suf = (if HasSuffix s suf then take (length s - length suf) s else s)"

definition pdfcpu_spanFileName :: "string \<Rightarrow> nat \<Rightarrow> string" where
  "pdfcpu_spanFileName fileName n =
     TrimSuffix (Base fileName) ''.pdf'' @ ''_'' @ Itoa (int n) @ ''.pdf''"

definition uuid_New :: "world \<Rightarrow> string \<times> world" where
  "uuid_New w = (uuid w (useed w), w\<lparr>useed := Suc (useed w)\<rparr>)"

subsection \<open>The service (internal/service)\<close>

record ConvertToImageRequest =
  PDFData :: string
  Format :: string
  DPI :: int
  PageRange :: string
  Quality :: int

record ConvertToImageResponse =
  Images :: "string list"
  PageCount :: int
  Format :: string

record MergeRequest =
  PDFs :: "string list"
  OutputName :: string

record SplitRequest =
  PDFData :: string
  PageRange :: string

record ExtractTextRequest =
  PDFData :: string
  UseOCR :: bool

record PageText =
  PageNumber :: int
  Text :: string

record ExtractTextResponse =
  Text :: string
  PageCount :: int
  Pages :: "PageText list"

record MetadataResponse =
  Title :: string
  Author :: string
  Subject :: string
  Creator :: string
  Producer :: string
  CreationDate :: string
  ModDate :: string
  PageCount :: int
  FileSize :: int
  Encrypted :: bool

record CompressRequest =
  PDFData :: string
  CompressionLevel :: int

text \<open>The request's \<^verbatim>\<open>Opacity\<close>, a float the service never reads, is left out.\<close>

record WatermarkRequest =
  PDFData :: string
  WatermarkText :: string
  Rotation :: int
  FontSize :: int

text \<open>
  \<^verbatim>\<open>defer f\<close> followed by the rest of the function body: the rest runs, then \<open>f\<close>, whatever
  the rest returns.
\<close>

definition deferred :: "(world \<Rightarrow> world) \<Rightarrow> 'a \<times> world \<Rightarrow> 'a \<times> world" where
  "deferred cleanup rw = (fst rw, cleanup (snd rw))"

definition createTempFile :: "PDFConfig \<Rightarrow> string \<Rightarrow> string \<Rightarrow> world \<Rightarrow> (error + string) \<times> world" where
  "createTempFile cfg data pattern w =
     (case os_MkdirAll (TempDir cfg) w of
        (Some e, w1) \<Rightarrow> (Inl (Wrap ''failed to create temp directory'' e), w1)
      | (None, w1) \<Rightarrow>
          (case os_CreateTemp (TempDir cfg) pattern w1 of
             (Inl e, w2) \<Rightarrow> (Inl (Wrap ''failed to create temp file'' e), w2)
           | (Inr name, w2) \<Rightarrow>
               (case io_Copy name data w2 of
                  (Some e, w3) \<Rightarrow> (Inl (Wrap ''failed to write temp file'' e), os_Remove name w3)
                | (None, w3) \<Rightarrow> (Inr name, w3))))"

definition ConvertToImage ::
  "PDFConfig \<Rightarrow> ConvertToImageRequest \<Rightarrow> world \<Rightarrow> (error + ConvertToImageResponse) \<times> world" where
  "ConvertToImage cfg req w =
     (let w0 = span_SetAttributes ''PDFService.ConvertToImage''
                 [(''format'', LStr (ConvertToImageRequest.Format req)), (''dpi'', LInt (DPI req))] w;
          w1 = log_Info ''Converting PDF to images''
                 [(''format'', LStr (ConvertToImageRequest.Format req)), (''dpi'', LInt (DPI req))] w0
      in case createTempFile cfg (ConvertToImageRequest.PDFData req) ''input-*.pdf'' w1 of
           (Inl e, w2) \<Rightarrow> (Inl (Wrap ''failed to create temp file'' e), w2)
         | (Inr tempFile, w2) \<Rightarrow>
             deferred (os_Remove tempFile)
               (let response = \<lparr>Images = [], ConvertToImageResponse.PageCount = 0,
                                Format = ConvertToImageRequest.Format req\<rparr>
                in (Inr response,
                    log_Info ''PDF to image conversion completed''
                      [(''pages'', LInt (ConvertToImageResponse.PageCount response))] w2)))"

text \<open>
  The loop of \<^verbatim>\<open>MergePDFs\<close> over the inputs: a temp file and a deferred removal for each.
  It returns the files created so far, in input order, also when it stops at an error.
\<close>

fun merge_inputs :: "PDFConfig \<Rightarrow> nat \<Rightarrow> string list \<Rightarrow> world \<Rightarrow> error option \<times> string list \<times> world" where
  "merge_inputs cfg i [] w = (None, [], w)"
| "merge_inputs cfg i (pdfData # rest) w =
     (case createTempFile cfg pdfData (''merge-input-'' @ Itoa (int i) @ ''-*.pdf'') w of
        (Inl e, w1) \<Rightarrow> (Some (Wrap (''failed to create temp file '' @ Itoa (int i)) e), [], w1)
      | (Inr tempFile, w1) \<Rightarrow>
          (case merge_inputs cfg (Suc i) rest w1 of
             (r, tempFiles, w2) \<Rightarrow> (r, tempFile # tempFiles, w2)))"

definition MergePDFs :: "pdfcpu \<Rightarrow> PDFConfig \<Rightarrow> MergeRequest \<Rightarrow> world \<Rightarrow> (error + string) \<times> world" where
  "MergePDFs lib cfg req w =
     (let w0 = span_SetAttributes ''PDFService.MergePDFs''
                 [(''pdf_count'', LInt (int (length (PDFs req))))] w;
          w1 = log_Info ''Merging PDFs'' [(''count'', LInt (int (length (PDFs req))))] w0
      in if length (PDFs req) < 2 then (Inl (Err ''at least 2 PDFs required for merging''), w1)
         else (case merge_inputs cfg 0 (PDFs req) w1 of
                 (Some e, tempFiles, w2) \<Rightarrow> (Inl e, fold os_Remove (rev tempFiles) w2)
               | (None, tempFiles, w2) \<Rightarrow>
                   deferred (fold os_Remove (rev tempFiles))
                     (case uuid_New w2 of (u, w3) \<Rightarrow>
                        let outputFile = Join (TempDir cfg) (''merge-output-'' @ u @ ''.pdf'')
                        in deferred (os_Remove outputFile)
                             (case api_MergeCreateFile lib tempFiles outputFile w3 of
                                (Some e, w4) \<Rightarrow> (Inl (Wrap ''failed to merge PDFs'' e), w4)
                              | (None, w4) \<Rightarrow>
                                  (case os_ReadFile outputFile w4 of
                                     (Inl e, w5) \<Rightarrow> (Inl (Wrap ''failed to read merged PDF'' e), w5)
                                   | (Inr mergedData, w5) \<Rightarrow>
                                       (Inr mergedData,
                                        log_Info ''PDFs merged successfully''
                                          [(''output_size'', LInt (int (length mergedData)))] w5))))))"

fun read_split_files :: "string list \<Rightarrow> world \<Rightarrow> (error + string list) \<times> world" where
  "read_split_files [] w = (Inr [], w)"
| "read_split_files (file # rest) w =
     (case os_ReadFile file w of
        (Inl e, w1) \<Rightarrow> (Inl (Wrap (''failed to read split file '' @ file) e), w1)
      | (Inr data, w1) \<Rightarrow>
          (case read_split_files rest w1 of
             (Inl e, w2) \<Rightarrow> (Inl e, w2)
           | (Inr splitPDFs, w2) \<Rightarrow> (Inr (data # splitPDFs), w2)))"

definition SplitPDF :: "pdfcpu \<Rightarrow> PDFConfig \<Rightarrow> SplitRequest \<Rightarrow> world \<Rightarrow> (error + string list) \<times> world" where
  "SplitPDF lib cfg req w =
     (let w1 = log_Info ''Splitting PDF'' [(''page_range'', LStr (SplitRequest.PageRange req))] w
      in case createTempFile cfg (SplitRequest.PDFData req) ''split-input-*.pdf'' w1 of
           (Inl e, w2) \<Rightarrow> (Inl (Wrap ''failed to create temp file'' e), w2)
         | (Inr tempFile, w2) \<Rightarrow>
             deferred (os_Remove tempFile)
               (case uuid_New w2 of (u, w3) \<Rightarrow>
                  let outputDir = Join (TempDir cfg) (''split-output-'' @ u)
                  in (case os_MkdirAll outputDir w3 of
                        (Some e, w4) \<Rightarrow> (Inl (Wrap ''failed to create output directory'' e), w4)
                      | (None, w4) \<Rightarrow>
                          deferred (os_RemoveAll outputDir)
                            (case api_SplitFile lib tempFile outputDir w4 of
                               (Some e, w5) \<Rightarrow> (Inl (Wrap ''failed to split PDF'' e), w5)
                             | (None, w5) \<Rightarrow>
                                 (case Glob_pdf outputDir w5 of
                                    Inl e \<Rightarrow> (Inl (Wrap ''failed to read split files'' e), w5)
                                  | Inr matches \<Rightarrow>
                                      (case read_split_files matches w5 of
                                         (Inl e, w6) \<Rightarrow> (Inl e, w6)
                                       | (Inr splitPDFs, w6) \<Rightarrow>
                                           (Inr splitPDFs,
                                            log_Info ''PDF split successfully''
                                              [(''output_count'', LInt (int (length splitPDFs)))] w6)))))))"

definition ExtractText ::
  "pdfcpu \<Rightarrow> PDFConfig \<Rightarrow> ExtractTextRequest \<Rightarrow> world \<Rightarrow> (error + ExtractTextResponse) \<times> world" where
  "ExtractText lib cfg req w =
     (let w0 = span_SetAttributes ''PDFService.ExtractText'' [(''use_ocr'', LBool (UseOCR req))] w;
          w1 = log_Info ''Extracting text from PDF'' [(''use_ocr'', LBool (UseOCR req))] w0
      in case createTempFile cfg (ExtractTextRequest.PDFData req) ''extract-text-*.pdf'' w1 of
           (Inl e, w2) \<Rightarrow> (Inl (Wrap ''failed to create temp file'' e), w2)
         | (Inr tempFile, w2) \<Rightarrow>
             deferred (os_Remove tempFile)
               (case lib_ReadContext lib (ExtractTextRequest.PDFData req) of
                  Inl e \<Rightarrow> (Inl (Wrap ''failed to read PDF context'' e), w2)
                | Inr ctx2 \<Rightarrow>
                    (let pageCount = ctx_PageCount ctx2;
                         response = \<lparr>ExtractTextResponse.Text = [],
                                      ExtractTextResponse.PageCount = pageCount, Pages = []\<rparr>
                     in (Inr response,
                         log_Info ''Text extraction completed'' [(''page_count'', LInt pageCount)] w2))))"

definition ExtractMetadata :: "pdfcpu \<Rightarrow> string \<Rightarrow> world \<Rightarrow> (error + MetadataResponse) \<times> world" where
  "ExtractMetadata lib pdfData w =
     (let w1 = log_Info ''Extracting PDF metadata'' [] w
      in case lib_ReadContext lib pdfData of
           Inl e \<Rightarrow> (Inl (Wrap ''failed to read PDF'' e), w1)
         | Inr ctx2 \<Rightarrow>
             (let info = ctx_Info ctx2;
                  response = \<lparr>Title = [], Author = [], Subject = [], Creator = [], Producer = [],
                               CreationDate = [], ModDate = [],
                               PageCount = ctx_PageCount ctx2,
                               FileSize = int (length pdfData),
                               Encrypted = (ctx_Encrypt ctx2 \<noteq> None)\<rparr>;
                  response = (if info \<noteq> None
                              then response\<lparr>Title := ''Document Title'', Author := ''Document Author''\<rparr>
                              else response)
              in (Inr response,
                  log_Info ''Metadata extraction completed''
                    [(''page_count'', LInt (MetadataResponse.PageCount response))] w1)))"

text \<open>
  \<^verbatim>\<open>CompressPDF\<close> also logs a compression ratio, a floating-point number computed from the
  two sizes; the log entry of the model carries the sizes.
\<close>

definition CompressPDF :: "pdfcpu \<Rightarrow> PDFConfig \<Rightarrow> CompressRequest \<Rightarrow> world \<Rightarrow> (error + string) \<times> world" where
  "CompressPDF lib cfg req w =
     (let w0 = span_SetAttributes ''PDFService.CompressPDF''
                 [(''compression_level'', LInt (CompressRequest.CompressionLevel req))] w;
          w1 = log_Info ''Compressing PDF'' [(''level'', LInt (CompressRequest.CompressionLevel req))] w0
      in case createTempFile cfg (CompressRequest.PDFData req) ''compress-input-*.pdf'' w1 of
           (Inl e, w2) \<Rightarrow> (Inl (Wrap ''failed to create temp file'' e), w2)
         | (Inr tempFile, w2) \<Rightarrow>
             deferred (os_Remove tempFile)
               (case uuid_New w2 of (u, w3) \<Rightarrow>
                  let outputFile = Join (TempDir cfg) (''compress-output-'' @ u @ ''.pdf'')
                  in deferred (os_Remove outputFile)
                       (case api_OptimizeFile lib tempFile outputFile w3 of
                          (Some e, w4) \<Rightarrow> (Inl (Wrap ''failed to compress PDF'' e), w4)
                        | (None, w4) \<Rightarrow>
                            (case os_ReadFile outputFile w4 of
                               (Inl e, w5) \<Rightarrow> (Inl (Wrap ''failed to read compressed PDF'' e), w5)
                             | (Inr compressedData, w5) \<Rightarrow>
                                 (Inr compressedData,
                                  log_Info ''PDF compression completed''
                                    [(''original_size'', LInt (int (length (CompressRequest.PDFData req)))),
                                     (''compressed_size'', LInt (int (length compressedData)))] w5)))))"

definition AddWatermark :: "pdfcpu \<Rightarrow> PDFConfig \<Rightarrow> WatermarkRequest \<Rightarrow> world \<Rightarrow> (error + string) \<times> world" where
  "AddWatermark lib cfg req w =
     (let w1 = log_Info ''Adding watermark to PDF'' [(''text'', LStr (WatermarkText req))] w
      in case createTempFile cfg (WatermarkRequest.PDFData req) ''watermark-input-*.pdf'' w1 of
           (Inl e, w2) \<Rightarrow> (Inl (Wrap ''failed to create temp file'' e), w2)
         | (Inr tempFile, w2) \<Rightarrow>
             deferred (os_Remove tempFile)
               (case uuid_New w2 of (u, w3) \<Rightarrow>
                  let outputFile = Join (TempDir cfg) (''watermark-output-'' @ u @ ''.pdf'')
                  in deferred (os_Remove outputFile)
                       (case lib_ParseTextWatermarkDetails lib (WatermarkText req) [] False of
                          Inl e \<Rightarrow> (Inl (Wrap ''failed to parse watermark'' e), w3)
                        | Inr wm \<Rightarrow>
                            (case api_AddWatermarksFile lib tempFile outputFile wm w3 of
                               (Some e, w4) \<Rightarrow> (Inl (Wrap ''failed to add watermark'' e), w4)
                             | (None, w4) \<Rightarrow>
                                 (case os_ReadFile outputFile w4 of
                                    (Inl e, w5) \<Rightarrow> (Inl (Wrap ''failed to read watermarked PDF'' e), w5)
                                  | (Inr watermarkedData, w5) \<Rightarrow>
                                      (Inr watermarkedData,
                                       log_Info ''Watermark added successfully'' [] w5))))))"

subsection \<open>The handlers (internal/handlers)\<close>

text \<open>
  A request carries its multipart form (\<open>None\<close> when the body is not one) and its query
  parameters. An uploaded file is its content, or the error of opening and reading it.
\<close>

type_synonym upload = "error + string"

record request =
  form :: "(string \<times> upload list) list option"
  query :: "(string \<times> string) list"

datatype body =
    ErrorBody string
  | MessageBody string
  | ConvertBody "string list" int string
  | SplitBody "string list" int
  | TextBody ExtractTextResponse
  | MetadataBody MetadataResponse
  | PDFBody string

datatype response = Response (status: nat) (content: body)

definition FormFile :: "request \<Rightarrow> string \<Rightarrow> error + upload" where
  "FormFile c name =
     (case form c of
        None \<Rightarrow> Inl (Err ''request Content-Type isn't multipart/form-data'')
      | Some f \<Rightarrow>
          (case map_of f name of
             None \<Rightarrow> Inl (Err ''http: no such file'')
           | Some [] \<Rightarrow> Inl (Err ''http: no such file'')
           | Some (file # _) \<Rightarrow> Inr file))"

definition DefaultQuery :: "request \<Rightarrow> string \<Rightarrow> string \<Rightarrow> string" where
  "DefaultQuery c key defaultValue =
     (case map_of (query c) key of None \<Rightarrow> defaultValue | Some v \<Rightarrow> v)"

definition readUploadedFile :: "upload \<Rightarrow> error + string" where
  "readUploadedFile file = file"

text \<open>
  \<^verbatim>\<open>strconv.Atoi\<close>: an optional sign and decimal digits, within the range of a 64-bit
  \<^verbatim>\<open>int\<close>.
\<close>

definition is_digit :: "char \<Rightarrow> bool" where
  "is_digit c \<longleftrightarrow> CHR ''0'' \<le> c \<and> c \<le> CHR ''9''"

definition digits_val :: "string \<Rightarrow> int" where
  "digits_val ds = foldl (\<lambda>a c. 10 * a + (int (of_char c) - 48)) 0 ds"

definition Atoi :: "string \<Rightarrow> int option" where
  "Atoi s =
     (let neg = (s \<noteq> [] \<and> hd s = CHR ''-'');
          ds = (if s \<noteq> [] \<and> (hd s = CHR ''-'' \<or> hd s = CHR ''+'') then tl s else s)
      in if ds = [] \<or> \<not> list_all is_digit ds then None
         else let v = (if neg then - digits_val ds else digits_val ds)
              in if v < - (2 ^ 63) \<or> v > 2 ^ 63 - 1 then None else Some v)"

definition parseIntParam :: "request \<Rightarrow> string \<Rightarrow> int \<Rightarrow> int" where
  "parseIntParam c key defaultValue =
     (case Atoi (DefaultQuery c key (Itoa defaultValue)) of
        None \<Rightarrow> defaultValue
      | Some v \<Rightarrow> v)"

text \<open>\<^verbatim>\<open>err.Error()\<close>: the message, followed by that of the wrapped cause.\<close>

fun Error_text :: "error \<Rightarrow> string" where
  "Error_text (Err msg) = msg"
| "Error_text (Wrap msg e) = msg @ '': '' @ Error_text e"

definition ConvertToImage_handler :: "PDFConfig \<Rightarrow> request \<Rightarrow> world \<Rightarrow> response \<times> world" where
  "ConvertToImage_handler cfg c w =
     (case FormFile c ''pdf'' of
        Inl e \<Rightarrow> (Response 400 (ErrorBody ''PDF file required''), w)
      | Inr file \<Rightarrow>
          (case readUploadedFile file of
             Inl e \<Rightarrow> (Response 500 (ErrorBody ''Failed to read file''), w)
           | Inr pdfData \<Rightarrow>
               (case ValidateRequest cfg pdfData of
                  Some err \<Rightarrow> (Response 400 (ErrorBody (Error_text err)), w)
                | None \<Rightarrow>
                    (let req = \<lparr>ConvertToImageRequest.PDFData = pdfData,
                                 ConvertToImageRequest.Format = DefaultQuery c ''format'' ''png'',
                                 DPI = parseIntParam c ''dpi'' 150,
                                 ConvertToImageRequest.PageRange = [], Quality = 0\<rparr>
                     in case ConvertToImage cfg req w of
                          (Inl e, w1) \<Rightarrow>
                            (Response 500 (ErrorBody ''Conversion failed''),
                             log_Error ''Failed to convert PDF to images'' [(''error'', LErr e)] w1)
                        | (Inr result, w1) \<Rightarrow>
                            (Response 200
                               (ConvertBody (Images result)
                                  (ConvertToImageResponse.PageCount result)
                                  (ConvertToImageResponse.Format result)), w1)))))"

fun read_uploads :: "upload list \<Rightarrow> error + string list" where
  "read_uploads [] = Inr []"
| "read_uploads (file # rest) =
     (case readUploadedFile file of
        Inl e \<Rightarrow> Inl e
      | Inr data \<Rightarrow> (case read_uploads rest of Inl e \<Rightarrow> Inl e | Inr pdfs \<Rightarrow> Inr (data # pdfs)))"

definition MergePDFs_handler :: "pdfcpu \<Rightarrow> PDFConfig \<Rightarrow> request \<Rightarrow> world \<Rightarrow> response \<times> world" where
  "MergePDFs_handler lib cfg c w =
     (case form c of
        None \<Rightarrow> (Response 400 (ErrorBody ''Invalid multipart form''), w)
      | Some f \<Rightarrow>
          (let uploads = (case map_of f ''pdfs'' of None \<Rightarrow> [] | Some fs \<Rightarrow> fs)
           in if length uploads < 2 then (Response 400 (ErrorBody ''At least 2 PDFs required''), w)
              else (case read_uploads uploads of
                      Inl e \<Rightarrow> (Response 500 (ErrorBody ''Failed to read file''), w)
                    | Inr pdfs \<Rightarrow>
                        (let req = \<lparr>PDFs = pdfs, OutputName = []\<rparr>
                         in case MergePDFs lib cfg req w of
                              (Inl e, w1) \<Rightarrow>
                                (Response 500 (ErrorBody ''Merge failed''),
                                 log_Error ''Failed to merge PDFs'' [(''error'', LErr e)] w1)
                            | (Inr result, w1) \<Rightarrow> (Response 200 (PDFBody result), w1)))))"

definition SplitPDF_handler :: "pdfcpu \<Rightarrow> PDFConfig \<Rightarrow> request \<Rightarrow> world \<Rightarrow> response \<times> world" where
  "SplitPDF_handler lib cfg c w =
     (case FormFile c ''pdf'' of
        Inl e \<Rightarrow> (Response 400 (ErrorBody ''PDF file required''), w)
      | Inr file \<Rightarrow>
          (case readUploadedFile file of
             Inl e \<Rightarrow> (Response 500 (ErrorBody ''Failed to read file''), w)
           | Inr pdfData \<Rightarrow>
               (let req = \<lparr>SplitRequest.PDFData = pdfData,
                            SplitRequest.PageRange = DefaultQuery c ''pages'' ''all''\<rparr>
                in case SplitPDF lib cfg req w of
                     (Inl e, w1) \<Rightarrow>
                       (Response 500 (ErrorBody ''Split failed''),
                        log_Error ''Failed to split PDF'' [(''error'', LErr e)] w1)
                   | (Inr result, w1) \<Rightarrow>
                       (Response 200 (SplitBody result (int (length result))), w1))))"

definition ExtractText_handler :: "pdfcpu \<Rightarrow> PDFConfig \<Rightarrow> request \<Rightarrow> world \<Rightarrow> response \<times> world" where
  "ExtractText_handler lib cfg c w =
     (case FormFile c ''pdf'' of
        Inl e \<Rightarrow> (Response 400 (ErrorBody ''PDF file required''), w)
      | Inr file \<Rightarrow>
          (case readUploadedFile file of
             Inl e \<Rightarrow> (Response 500 (ErrorBody ''Failed to read file''), w)
           | Inr pdfData \<Rightarrow>
               (let req = \<lparr>ExtractTextRequest.PDFData = pdfData,
                            UseOCR = (DefaultQuery c ''ocr'' ''false'' = ''true'')\<rparr>
                in case ExtractText lib cfg req w of
                     (Inl e, w1) \<Rightarrow>
                       (Response 500 (ErrorBody ''Extraction failed''),
                        log_Error ''Failed to extract text'' [(''error'', LErr e)] w1)
                   | (Inr result, w1) \<Rightarrow> (Response 200 (TextBody result), w1))))"

definition ExtractMetadata_handler :: "pdfcpu \<Rightarrow> request \<Rightarrow> world \<Rightarrow> response \<times> world" where
  "ExtractMetadata_handler lib c w =
     (case FormFile c ''pdf'' of
        Inl e \<Rightarrow> (Response 400 (ErrorBody ''PDF file required''), w)
      | Inr file \<Rightarrow>
          (case readUploadedFile file of
             Inl e \<Rightarrow> (Response 500 (ErrorBody ''Failed to read file''), w)
           | Inr pdfData \<Rightarrow>
               (case ExtractMetadata lib pdfData w of
                  (Inl e, w1) \<Rightarrow>
                    (Response 500 (ErrorBody ''Extraction failed''),
                     log_Error ''Failed to extract metadata'' [(''error'', LErr e)] w1)
                | (Inr result, w1) \<Rightarrow> (Response 200 (MetadataBody result), w1))))"

definition CompressPDF_handler :: "pdfcpu \<Rightarrow> PDFConfig \<Rightarrow> request \<Rightarrow> world \<Rightarrow> response \<times> world" where
  "CompressPDF_handler lib cfg c w =
     (case FormFile c ''pdf'' of
        Inl e \<Rightarrow> (Response 400 (ErrorBody ''PDF file required''), w)
      | Inr file \<Rightarrow>
          (case readUploadedFile file of
             Inl e \<Rightarrow> (Response 500 (ErrorBody ''Failed to read file''), w)
           | Inr pdfData \<Rightarrow>
               (let req = \<lparr>CompressRequest.PDFData = pdfData,
                            CompressRequest.CompressionLevel = parseIntParam c ''level'' 1\<rparr>
                in case CompressPDF lib cfg req w of
                     (Inl e, w1) \<Rightarrow>
                       (Response 500 (ErrorBody ''Compression failed''),
                        log_Error ''Failed to compress PDF'' [(''error'', LErr e)] w1)
                   | (Inr result, w1) \<Rightarrow> (Response 200 (PDFBody result), w1))))"

definition AddWatermark_handler :: "pdfcpu \<Rightarrow> PDFConfig \<Rightarrow> request \<Rightarrow> world \<Rightarrow> response \<times> world" where
  "AddWatermark_handler lib cfg c w =
     (case FormFile c ''pdf'' of
        Inl e \<Rightarrow> (Response 400 (ErrorBody ''PDF file required''), w)
      | Inr file \<Rightarrow>
          (case readUploadedFile file of
             Inl e \<Rightarrow> (Response 500 (ErrorBody ''Failed to read file''), w)
           | Inr pdfData \<Rightarrow>
               (let req = \<lparr>WatermarkRequest.PDFData = pdfData,
                            WatermarkText = DefaultQuery c ''text'' ''CONFIDENTIAL'',
                            Rotation = 45, FontSize = 48\<rparr>
                in case AddWatermark lib cfg req w of
                     (Inl e, w1) \<Rightarrow>
                       (Response 500 (ErrorBody ''Watermark failed''),
                        log_Error ''Failed to add watermark'' [(''error'', LErr e)] w1)
                   | (Inr result, w1) \<Rightarrow> (Response 200 (PDFBody result), w1))))"

subsection \<open>A miniature library, to run the service\<close>

text \<open>
  To evaluate the service a library is needed. In the miniature one a document is the
  signature \<^verbatim>\<open>%PDF\<close> followed by one byte per page: merging concatenates the pages, splitting
  gives a one-page document per page, optimising and watermarking keep the document, and
  the page files are named as pdfcpu names them.
\<close>

definition mini_pages :: "string \<Rightarrow> string option" where
  "mini_pages b = (if take 4 b = ''%PDF'' then Some (drop 4 b) else None)"

definition mini_doc :: "string \<Rightarrow> string" where
  "mini_doc pgs = ''%PDF'' @ pgs"

fun mini_all_pages :: "string list \<Rightarrow> string option" where
  "mini_all_pages [] = Some []"
| "mini_all_pages (b # bs) =
     (case mini_pages b of
        None \<Rightarrow> None
      | Some p \<Rightarrow> (case mini_all_pages bs of None \<Rightarrow> None | Some ps \<Rightarrow> Some (p @ ps)))"

definition mini :: pdfcpu where
  "mini =
     \<lparr>lib_ReadContext = (\<lambda>b. case mini_pages b of
                                None \<Rightarrow> Inl (Err ''not a PDF'')
                              | Some pgs \<Rightarrow> Inr \<lparr>ctx_PageCount = int (length pgs),
                                                ctx_Info = None, ctx_Encrypt = None\<rparr>),
      lib_Merge = (\<lambda>bs. case mini_all_pages bs of
                           None \<Rightarrow> Inl (Err ''not a PDF'')
                         | Some pgs \<Rightarrow> Inr (mini_doc pgs)),
      lib_Split = (\<lambda>b. case mini_pages b of
                          None \<Rightarrow> Inl (Err ''not a PDF'')
                        | Some pgs \<Rightarrow> Inr (map (\<lambda>pg. mini_doc [pg]) pgs)),
      lib_spanFileName = pdfcpu_spanFileName,
      lib_Optimize = (\<lambda>b. case mini_pages b of
                             None \<Rightarrow> Inl (Err ''not a PDF'')
                           | Some pgs \<Rightarrow> Inr b),
      lib_ParseTextWatermarkDetails = (\<lambda>text desc onTop. Inr (Watermark text desc onTop)),
      lib_AddWatermarks = (\<lambda>b wm. case mini_pages b of
                                    None \<Rightarrow> Inl (Err ''not a PDF'')
                                  | Some pgs \<Rightarrow> Inr b)\<rparr>"

text \<open>A world with an empty file system in which no call fails.\<close>

definition quiet :: world where
  "quiet = \<lparr>files = [], dirs = [], fault = (\<lambda>n. False), rm_fault = (\<lambda>n. False), clock = 0,
            rand = (\<lambda>n. nat_dec (4170 + n)), seed = 0,
            uuid = (\<lambda>n. ''u'' @ nat_dec n), useed = 0,
            glob_meta = (\<lambda>d. Inl (Err ''syntax error in pattern'')),
            created = [], logs = []\<rparr>"

definition config0 :: PDFConfig where
  "config0 = \<lparr>MaxFileSize = 52428800, AllowedFormats = [''pdf''], TempDir = ''/tmp/pdf-tool'',
              MaxPages = 1000, OCREnabled = True, OCRLanguages = [''eng''],
              PDFConfig.CompressionLevel = 1\<rparr>"

subsection \<open>Notions used to state the properties\<close>

text \<open>
  \<open>calm\<close>: no call other than a removal fails for a reason of the environment.
  \<open>removals_succeed\<close>: no removal fails.
\<close>

definition calm :: "world \<Rightarrow> bool" where
  "calm w \<longleftrightarrow> (\<forall>n. \<not> fault w n)"

definition removals_succeed :: "world \<Rightarrow> bool" where
  "removals_succeed w \<longleftrightarrow> (\<forall>n. \<not> rm_fault w n)"

text \<open>
  \<open>tmp_chain\<close>: the temp directory and its parents. \<open>tempdir_usable\<close>: the temp directory
  has a name, and neither it nor one of its parents is a regular file, so that it exists
  or can be created. \<open>scratch_free\<close>: moreover nothing exists below it.
\<close>

definition tmp_chain :: "PDFConfig \<Rightarrow> string set" where
  "tmp_chain cfg = set (dir_chain (TempDir cfg))"

definition tempdir_usable :: "PDFConfig \<Rightarrow> world \<Rightarrow> bool" where
  "tempdir_usable cfg w \<longleftrightarrow>
     TempDir cfg \<noteq> [] \<and> (\<forall>q \<in> tmp_chain cfg. q \<notin> fst ` set (files w))"

definition scratch_free :: "PDFConfig \<Rightarrow> world \<Rightarrow> bool" where
  "scratch_free cfg w \<longleftrightarrow>
     tempdir_usable cfg w \<and> (\<forall>p \<in> paths w. \<not> prefix (TempDir cfg @ ''/'') p)"

text \<open>
  \<open>grows F D w w'\<close>: the files of \<open>w'\<close> are those of \<open>w\<close> followed by files named in \<open>F\<close>,
  its directories those of \<open>w\<close> and possibly some of \<open>D\<close>, and the removals that will fail
  are the same.
\<close>

definition grows :: "string set \<Rightarrow> string set \<Rightarrow> world \<Rightarrow> world \<Rightarrow> bool" where
  "grows F D w w' \<longleftrightarrow>
     (\<exists>extra. files w' = files w @ extra \<and> fst ` set extra \<subseteq> F) \<and>
     set (dirs w) \<subseteq> set (dirs w') \<and> set (dirs w') \<subseteq> set (dirs w) \<union> D \<and>
     rm_fault w' = rm_fault w"

text \<open>The six operations that use scratch files, and the world each leaves.\<close>

datatype operation =
    OpMerge MergeRequest
  | OpSplit SplitRequest
  | OpExtractText ExtractTextRequest
  | OpCompress CompressRequest
  | OpWatermark WatermarkRequest
  | OpConvert ConvertToImageRequest

fun run :: "pdfcpu \<Rightarrow> PDFConfig \<Rightarrow> operation \<Rightarrow> world \<Rightarrow> world" where
  "run lib cfg (OpMerge req) w = snd (MergePDFs lib cfg req w)"
| "run lib cfg (OpSplit req) w = snd (SplitPDF lib cfg req w)"
| "run lib cfg (OpExtractText req) w = snd (ExtractText lib cfg req w)"
| "run lib cfg (OpCompress req) w = snd (CompressPDF lib cfg req w)"
| "run lib cfg (OpWatermark req) w = snd (AddWatermark lib cfg req w)"
| "run lib cfg (OpConvert req) w = snd (ConvertToImage cfg req w)"

text \<open>
  The output names are built from a UUID and written without \<^verbatim>\<open>O_EXCL\<close>. \<open>uuid_unused\<close>
  says that the UUID the next operation draws holds no path separator and names nothing
  that exists: no path is, or lies below, an output path made from it.
\<close>

definition next_outputs :: "PDFConfig \<Rightarrow> world \<Rightarrow> string list" where
  "next_outputs cfg w =
     map (Join (TempDir cfg))
       [''merge-output-'' @ uuid w (useed w) @ ''.pdf'',
        ''split-output-'' @ uuid w (useed w),
        ''compress-output-'' @ uuid w (useed w) @ ''.pdf'',
        ''watermark-output-'' @ uuid w (useed w) @ ''.pdf'']"

definition uuid_unused :: "PDFConfig \<Rightarrow> world \<Rightarrow> bool" where
  "uuid_unused cfg w \<longleftrightarrow>
     CHR ''/'' \<notin> set (uuid w (useed w)) \<and>
     (\<forall>out \<in> set (next_outputs cfg w). \<forall>p \<in> paths w. \<not> under out p)"

text \<open>\<open>erase\<close> forgets what was logged, to compare two runs up to their telemetry.\<close>

definition erase :: "world \<Rightarrow> world" where
  "erase w = w\<lparr>logs := []\<rparr>"

text \<open>
  What the merge claim asks of the library at the documents \<open>bs\<close>, for a notion \<open>pages\<close> of
  the pages of a valid document: the library merges them, and the result has their
  pages, concatenated in the order of \<open>bs\<close>.
\<close>

definition merge_concatenates :: "(string \<Rightarrow> 'p list option) \<Rightarrow> pdfcpu \<Rightarrow> string list \<Rightarrow> bool" where
  "merge_concatenates pages lib bs \<longleftrightarrow>
     (\<exists>out. lib_Merge lib bs = Inr out \<and>
            pages out = Some (concat (map (\<lambda>b. the (pages b)) bs)))"

text \<open>
  The three scratch names a merge of two documents will use: the temp files of the two
  inputs, from the next two draws of \<open>rand\<close>, and the output, from the next UUID.
  \<open>merge_names_fresh\<close>: none of the three exists.
\<close>

definition merge_scratch_names :: "PDFConfig \<Rightarrow> world \<Rightarrow> string list" where
  "merge_scratch_names cfg w =
     map (Join (TempDir cfg))
       [''merge-input-0-'' @ rand w (seed w) @ ''.pdf'',
        ''merge-input-1-'' @ rand w (Suc (seed w)) @ ''.pdf'',
        ''merge-output-'' @ uuid w (useed w) @ ''.pdf'']"

definition merge_names_fresh :: "PDFConfig \<Rightarrow> world \<Rightarrow> bool" where
  "merge_names_fresh cfg w \<longleftrightarrow> (\<forall>p \<in> set (merge_scratch_names cfg w). p \<notin> paths w)"

text \<open>A world in which the temp directory exists and holds a file of somebody else.\<close>

definition lived_in :: world where
  "lived_in = quiet\<lparr>files := [(''/tmp/pdf-tool/keep.pdf'', ''%PDFz'')],
                      dirs := [''/tmp'', ''/tmp/pdf-tool'']\<rparr>"

text \<open>
  \<open>agree\<close>: two runs return the same result and leave worlds that differ at most in
  what was logged.
\<close>

definition agree :: "'a \<times> world \<Rightarrow> 'a \<times> world \<Rightarrow> bool" where
  "agree p q \<longleftrightarrow> fst p = fst q \<and> erase (snd p) = erase (snd q)"

text \<open>The names \<^verbatim>\<open>api.SplitFile\<close> gives the files of the pages \<open>pgs\<close>, numbered from \<open>n\<close>.\<close>

fun page_files :: "pdfcpu \<Rightarrow> string \<Rightarrow> nat \<Rightarrow> string list \<Rightarrow> string list" where
  "page_files lib inFile n [] = []"
| "page_files lib inFile n (pg # pgs) = lib_spanFileName lib inFile n # page_files lib inFile (Suc n) pgs"

section \<open>Basic facts\<close>

subsection \<open>Paths and files\<close>

lemma Join_neq_dir [simp]: "Join d n \<noteq> d"
  by (simp add: Join_def)

lemma Join_inject [simp]: "Join d n = Join d m \<longleftrightarrow> n = m"
  by (simp add: Join_def)

lemma under_Join [simp]: "under d (Join d n)"
  by (simp add: under_def Join_def)

lemma slash_prefixes_none: "CHR ''/'' \<notin> set n \<Longrightarrow> slash_prefixes acc n = []"
  by (induction n arbitrary: acc) auto

lemma slash_prefixes_append:
  "slash_prefixes acc (xs @ ys) = slash_prefixes acc xs @ slash_prefixes (rev xs @ acc) ys"
  by (induction xs arbitrary: acc) auto

lemma slash_prefixes_shorter:
  "q \<in> set (slash_prefixes acc xs) \<Longrightarrow> length q < length acc + length xs"
  by (induction xs arbitrary: acc) (fastforce split: if_splits)+

lemma dir_chain_length: "q \<in> set (dir_chain d) \<Longrightarrow> length q \<le> length d"
  using slash_prefixes_shorter[of q "[]" d] by (auto simp: dir_chain_def)

lemma dir_chain_Join:
  "CHR ''/'' \<notin> set n \<Longrightarrow> set (dir_chain (Join d n)) \<subseteq> insert (Join d n) (set (dir_chain d))"
  by (auto simp: dir_chain_def Join_def slash_prefixes_append slash_prefixes_none split: if_splits)

lemma slash_prefixes_Join:
  "CHR ''/'' \<notin> set n \<Longrightarrow> set (slash_prefixes [] (Join d n)) \<subseteq> set (dir_chain d)"
  by (auto simp: dir_chain_def Join_def slash_prefixes_append slash_prefixes_none split: if_splits)

lemma dir_chain_self: "d \<in> set (dir_chain d)"
  by (simp add: dir_chain_def)

lemma Join_notin_dir_chain: "Join d n \<notin> set (dir_chain d)"
  using dir_chain_length[of "Join d n" d] by (auto simp: Join_def)

lemma overwrite_absent:
  "p \<notin> fst ` set fs \<Longrightarrow> map (\<lambda>e. if fst e = p then (p, d) else e) fs = fs"
  by (induction fs) auto

lemma overwrite_keys:
  "fst ` set (map (\<lambda>e. if fst e = p then (p, d) else e) fs) = fst ` set fs"
  by (induction fs) auto

lemma grows_refl: "grows {} {} w w"
  by (simp add: grows_def)

lemma grows_mono:
  assumes "grows F D w w'" "F \<subseteq> F'" "D \<subseteq> D'"
  shows "grows F' D' w w'"
proof -
  obtain e where e: "files w' = files w @ e" "fst ` set e \<subseteq> F"
    using assms(1) unfolding grows_def by blast
  have "fst ` set e \<subseteq> F'"
    using e(2) assms(2) by (rule subset_trans)
  with e(1) have "\<exists>extra. files w' = files w @ extra \<and> fst ` set extra \<subseteq> F'"
    by blast
  moreover have "set (dirs w) \<subseteq> set (dirs w')"
    using assms(1) by (simp add: grows_def)
  moreover have "set (dirs w') \<subseteq> set (dirs w) \<union> D"
    using assms(1) by (simp add: grows_def)
  then have "set (dirs w') \<subseteq> set (dirs w) \<union> D'"
    using assms(3) by blast
  moreover have "rm_fault w' = rm_fault w"
    using assms(1) by (simp add: grows_def)
  ultimately show ?thesis
    by (simp add: grows_def)
qed

lemma grows_same:
  "grows F D w w' \<Longrightarrow> files w'' = files w' \<Longrightarrow> dirs w'' = dirs w' \<Longrightarrow>
     rm_fault w'' = rm_fault w' \<Longrightarrow> grows F D w w''"
  by (simp add: grows_def)

lemma grows_start:
  "grows F D w1 w' \<Longrightarrow> files w1 = files w \<Longrightarrow> dirs w1 = dirs w \<Longrightarrow>
     rm_fault w1 = rm_fault w \<Longrightarrow> grows F D w w'"
  by (simp add: grows_def)

lemma grows_rm_fault: "grows F D w w' \<Longrightarrow> rm_fault w' = rm_fault w"
  by (simp add: grows_def)

lemma grows_paths:
  assumes "grows F D w w'"
  shows "paths w \<subseteq> paths w'"
proof -
  obtain e where e: "files w' = files w @ e"
    using assms unfolding grows_def by blast
  have "set (dirs w) \<subseteq> set (dirs w')"
    using assms by (simp add: grows_def)
  then show ?thesis
    using e by (auto simp: paths_def)
qed

lemma grows_trans:
  assumes "grows F D w w1" "grows F' D' w1 w2"
  shows "grows (F \<union> F') (D \<union> D') w w2"
proof -
  obtain e1 where e1: "files w1 = files w @ e1" "fst ` set e1 \<subseteq> F"
    using assms(1) unfolding grows_def by blast
  obtain e2 where e2: "files w2 = files w1 @ e2" "fst ` set e2 \<subseteq> F'"
    using assms(2) unfolding grows_def by blast
  have "files w2 = files w @ (e1 @ e2)" "fst ` set (e1 @ e2) \<subseteq> F \<union> F'"
    using e1 e2 by auto
  then have "\<exists>extra. files w2 = files w @ extra \<and> fst ` set extra \<subseteq> F \<union> F'"
    by blast
  moreover have "set (dirs w) \<subseteq> set (dirs w2)" "set (dirs w2) \<subseteq> set (dirs w) \<union> (D \<union> D')"
    using assms unfolding grows_def by blast+
  moreover have "rm_fault w2 = rm_fault w"
    using assms by (simp add: grows_def)
  ultimately show ?thesis
    unfolding grows_def by blast
qed

lemma grows_fs_write:
  assumes "grows F D w w'" "p \<notin> fst ` set (files w)"
  shows "grows (insert p F) D w (fs_write p d w')"
proof -
  obtain e where e: "files w' = files w @ e" "fst ` set e \<subseteq> F"
    using assms(1) unfolding grows_def by blast
  have d: "dirs (fs_write p d w') = dirs w'" "rm_fault (fs_write p d w') = rm_fault w'"
    by (simp_all add: fs_write_def)
  have "\<exists>extra. files (fs_write p d w') = files w @ extra \<and> fst ` set extra \<subseteq> insert p F"
  proof (cases "p \<in> fst ` set (files w')")
    case True
    then have "files (fs_write p d w') = files w @ map (\<lambda>e. if fst e = p then (p, d) else e) e"
      using e assms(2) by (simp add: fs_write_def overwrite_absent)
    moreover have "fst ` set (map (\<lambda>e. if fst e = p then (p, d) else e) e) \<subseteq> insert p F"
      using e(2) by (simp only: overwrite_keys) blast
    ultimately show ?thesis by blast
  next
    case False
    then have "files (fs_write p d w') = files w @ (e @ [(p, d)])"
      using e by (simp add: fs_write_def)
    moreover have "fst ` set (e @ [(p, d)]) \<subseteq> insert p F"
      using e(2) by auto
    ultimately show ?thesis by blast
  qed
  then show ?thesis
    using assms(1) d unfolding grows_def by simp
qed

lemma Remove_effect:
  assumes "\<not> rm_fault w (clock w)"
  shows "files (os_Remove p w) = filter (\<lambda>e. fst e \<noteq> p) (files w)"
    and "dirs (os_Remove p w) = (if \<exists>q \<in> paths w. q \<noteq> p \<and> under p q then dirs w
                                else filter (\<lambda>d. d \<noteq> p) (dirs w))"
    and "rm_fault (os_Remove p w) = rm_fault w"
  using assms by (auto simp: os_Remove_def rm_tick_def paths_def)

lemma RemoveAll_effect:
  assumes "\<not> rm_fault w (clock w)"
  shows "files (os_RemoveAll p w) = filter (\<lambda>e. \<not> under p (fst e)) (files w)"
    and "dirs (os_RemoveAll p w) = filter (\<lambda>d. \<not> under p d) (dirs w)"
    and "rm_fault (os_RemoveAll p w) = rm_fault w"
  using assms by (simp_all add: os_RemoveAll_def rm_tick_def)

lemma grows_Remove:
  assumes "grows F D w w'" "p \<notin> paths w" "removals_succeed w"
  shows "grows (F - {p}) D w (os_Remove p w')"
proof -
  obtain e where e: "files w' = files w @ e" "fst ` set e \<subseteq> F"
    using assms(1) unfolding grows_def by blast
  have "rm_fault w' = rm_fault w"
    using assms(1) by (rule grows_rm_fault)
  then have ok: "\<not> rm_fault w' (clock w')"
    using assms(3) by (simp add: removals_succeed_def)
  note eff = Remove_effect[OF ok, of p]
  have "filter (\<lambda>e. fst e \<noteq> p) (files w) = files w"
    using assms(2) by (auto simp: paths_def filter_id_conv)
  then have "files (os_Remove p w') = files w @ filter (\<lambda>e. fst e \<noteq> p) e"
    using e by (simp add: eff(1))
  moreover have "fst ` set (filter (\<lambda>e. fst e \<noteq> p) e) \<subseteq> F - {p}"
    using e(2) by auto
  ultimately have f: "\<exists>extra. files (os_Remove p w') = files w @ extra \<and> fst ` set extra \<subseteq> F - {p}"
    by blast
  have "p \<notin> set (dirs w)"
    using assms(2) by (simp add: paths_def)
  then have "set (dirs w) \<subseteq> set (dirs (os_Remove p w'))" "set (dirs (os_Remove p w')) \<subseteq> set (dirs w) \<union> D"
    using assms(1) unfolding grows_def eff(2) by auto
  moreover have "rm_fault (os_Remove p w') = rm_fault w"
    using eff(3) \<open>rm_fault w' = rm_fault w\<close> by simp
  ultimately show ?thesis
    using f unfolding grows_def by blast
qed

lemma grows_RemoveAll:
  assumes "grows F D w w'" "\<forall>p \<in> paths w. \<not> under d p" "removals_succeed w"
  shows "grows {p \<in> F. \<not> under d p} {p \<in> D. \<not> under d p} w (os_RemoveAll d w')"
proof -
  obtain e where e: "files w' = files w @ e" "fst ` set e \<subseteq> F"
    using assms(1) unfolding grows_def by blast
  have "rm_fault w' = rm_fault w"
    using assms(1) by (rule grows_rm_fault)
  then have ok: "\<not> rm_fault w' (clock w')"
    using assms(3) by (simp add: removals_succeed_def)
  note eff = RemoveAll_effect[OF ok, of d]
  have "filter (\<lambda>e. \<not> under d (fst e)) (files w) = files w"
    using assms(2) by (auto simp: paths_def filter_id_conv)
  then have "files (os_RemoveAll d w') = files w @ filter (\<lambda>e. \<not> under d (fst e)) e"
    using e by (simp add: eff(1))
  moreover have "fst ` set (filter (\<lambda>e. \<not> under d (fst e)) e) \<subseteq> {p \<in> F. \<not> under d p}"
    using e(2) by auto
  ultimately have f: "\<exists>extra. files (os_RemoveAll d w') = files w @ extra
      \<and> fst ` set extra \<subseteq> {p \<in> F. \<not> under d p}"
    by blast
  have "\<forall>p \<in> set (dirs w). \<not> under d p"
    using assms(2) by (simp add: paths_def)
  then have "set (dirs w) \<subseteq> set (dirs (os_RemoveAll d w'))"
    "set (dirs (os_RemoveAll d w')) \<subseteq> set (dirs w) \<union> {p \<in> D. \<not> under d p}"
    using assms(1) unfolding grows_def eff(2) by auto
  moreover have "rm_fault (os_RemoveAll d w') = rm_fault w"
    using eff(3) \<open>rm_fault w' = rm_fault w\<close> by simp
  ultimately show ?thesis
    using f unfolding grows_def by blast
qed

lemma grows_restored:
  assumes "grows {} D w w'"
  shows "files w' = files w"
  using assms unfolding grows_def by auto

subsection \<open>What each call may add to the file system\<close>

lemma grows_step:
  "files w' = files w \<Longrightarrow> dirs w' = dirs w \<Longrightarrow> rm_fault w' = rm_fault w \<Longrightarrow> grows {} {} w w'"
  by (simp add: grows_def)

lemma tick_grows: "tick w = (f, w') \<Longrightarrow> grows {} {} w w'"
  by (auto simp: tick_def intro: grows_step)

lemma mkdir_chain_cases:
  assumes "mkdir_chain (q # up) w = (r, w')"
  obtains (present) "q \<in> set (dirs w)" "r = None" "w' = w"
    | (isfile) "q \<notin> set (dirs w)" "q \<in> fst ` set (files w)" "r = Some (Err ''not a directory'')" "w' = w"
    | (parent) e where "q \<notin> set (dirs w)" "mkdir_chain up w = (Some e, w')" "r = Some e"
    | (failed) w1 where "q \<notin> set (dirs w)" "mkdir_chain up w = (None, w1)" "fault w1 (clock w1)"
        "r = Some (Err ''mkdir'')" "w' = w1\<lparr>clock := Suc (clock w1)\<rparr>"
    | (made) w1 where "q \<notin> set (dirs w)" "q \<notin> fst ` set (files w)" "mkdir_chain up w = (None, w1)"
        "\<not> fault w1 (clock w1)" "r = None"
        "w' = w1\<lparr>clock := Suc (clock w1), dirs := dirs w1 @ [q], created := created w1 @ [q]\<rparr>"
proof -
  obtain r1 w1 where u: "mkdir_chain up w = (r1, w1)"
    by (cases "mkdir_chain up w")
  show ?thesis
  proof (cases "q \<in> set (dirs w)")
    case True
    moreover have "r = None" "w' = w"
      using assms True by simp_all
    ultimately show ?thesis
      by (rule present)
  next
    case nd: False
    show ?thesis
    proof (cases "q \<in> fst ` set (files w)")
      case True
      moreover have "r = Some (Err ''not a directory'')" "w' = w"
        using assms nd True by simp_all
      ultimately show ?thesis
        using nd by (intro isfile)
    next
      case nf: False
      show ?thesis
      proof (cases r1)
        case (Some e)
        have "mkdir_chain up w = (Some e, w')" "r = Some e"
          using assms nd nf u Some by simp_all
        with nd show ?thesis
          by (rule parent)
      next
        case None
        show ?thesis
        proof (cases "fault w1 (clock w1)")
          case True
          have "r = Some (Err ''mkdir'')" "w' = w1\<lparr>clock := Suc (clock w1)\<rparr>"
            using assms nd nf u None True by (simp_all add: tick_def)
          with nd u[unfolded None] True show ?thesis
            by (rule failed)
        next
          case False
          have "r = None"
            "w' = w1\<lparr>clock := Suc (clock w1), dirs := dirs w1 @ [q], created := created w1 @ [q]\<rparr>"
            using assms nd nf u None False by (simp_all add: tick_def)
          with nd nf u[unfolded None] False show ?thesis
            by (rule made)
        qed
      qed
    qed
  qed
qed

lemma mkdir_chain_grows:
  "mkdir_chain qs w = (r, w') \<Longrightarrow> grows {} (set qs) w w'"
proof (induction qs arbitrary: r w')
  case Nil
  then show ?case
    by (simp add: grows_def)
next
  case (Cons q up)
  from Cons.prems show ?case
  proof (cases rule: mkdir_chain_cases)
    case present
    then show ?thesis
      by (auto simp: grows_def)
  next
    case isfile
    then show ?thesis
      by (auto simp: grows_def)
  next
    case (parent e)
    from Cons.IH[OF parent(2)] show ?thesis
      by (rule grows_mono) auto
  next
    case (failed w1)
    have "grows {} (set up) w w'"
      using Cons.IH[OF failed(2)] by (rule grows_same) (simp_all add: failed(5))
    then show ?thesis
      by (rule grows_mono) auto
  next
    case (made w1)
    have "grows {} {q} w1 w'"
      by (auto simp: grows_def made(6))
    with Cons.IH[OF made(3)] have "grows ({} \<union> {}) (set up \<union> {q}) w w'"
      by (rule grows_trans)
    then show ?thesis
      by (rule grows_mono) auto
  qed
qed

lemma mkdir_chain_failed:
  assumes "mkdir_chain (q # up) w = (Some e, w')"
  shows "grows {} (set up) w w'"
  using assms
proof (cases rule: mkdir_chain_cases)
  case present
  then show ?thesis
    by simp
next
  case isfile
  then show ?thesis
    by (auto simp: grows_def)
next
  case (parent e')
  then show ?thesis
    by (simp add: mkdir_chain_grows)
next
  case (failed w1)
  show ?thesis
    using mkdir_chain_grows[OF failed(2)] by (rule grows_same) (simp_all add: failed(5))
next
  case (made w1)
  then show ?thesis
    by simp
qed

lemma mkdir_chain_frame:
  "mkdir_chain qs w = (r, w') \<Longrightarrow>
     files w' = files w \<and> fault w' = fault w \<and> rm_fault w' = rm_fault w \<and> rand w' = rand w
     \<and> seed w' = seed w \<and> uuid w' = uuid w \<and> useed w' = useed w \<and> glob_meta w' = glob_meta w
     \<and> logs w' = logs w \<and> set (created w) \<subseteq> set (created w')"
proof (induction qs arbitrary: r w')
  case Nil
  then show ?case
    by simp
next
  case (Cons q up)
  from Cons.prems show ?case
  proof (cases rule: mkdir_chain_cases)
    case present
    then show ?thesis
      by simp
  next
    case isfile
    then show ?thesis
      by simp
  next
    case (parent e)
    then show ?thesis
      by (intro Cons.IH)
  next
    case (failed w1)
    from Cons.IH[OF failed(2)] show ?thesis
      by (simp add: failed(5))
  next
    case (made w1)
    from Cons.IH[OF made(3)] show ?thesis
      by (auto simp: made(6))
  qed
qed

lemma MkdirAll_frame:
  assumes "os_MkdirAll d w = (r, w')"
  shows "files w' = files w \<and> fault w' = fault w \<and> rm_fault w' = rm_fault w \<and> rand w' = rand w
     \<and> seed w' = seed w \<and> uuid w' = uuid w \<and> useed w' = useed w \<and> glob_meta w' = glob_meta w
     \<and> logs w' = logs w \<and> set (created w) \<subseteq> set (created w')"
proof (cases "fault w (clock w) \<or> d = []")
  case True
  then have "w' = w\<lparr>clock := Suc (clock w)\<rparr>"
    using assms by (auto simp: os_MkdirAll_def tick_def)
  then show ?thesis
    by simp
next
  case False
  then have "mkdir_chain (rev (dir_chain d)) (w\<lparr>clock := Suc (clock w)\<rparr>) = (r, w')"
    using assms by (simp add: os_MkdirAll_def tick_def)
  from mkdir_chain_frame[OF this] show ?thesis
    by simp
qed

lemma MkdirAll_grows:
  assumes "os_MkdirAll d w = (r, w')"
  shows "grows {} (set (dir_chain d)) w w'"
proof (cases "fault w (clock w) \<or> d = []")
  case True
  then have "w' = w\<lparr>clock := Suc (clock w)\<rparr>"
    using assms by (auto simp: os_MkdirAll_def tick_def)
  then have "grows {} {} w w'"
    by (simp add: grows_def)
  then show ?thesis
    by (rule grows_mono) auto
next
  case False
  then have "mkdir_chain (rev (dir_chain d)) (w\<lparr>clock := Suc (clock w)\<rparr>) = (r, w')"
    using assms by (simp add: os_MkdirAll_def tick_def)
  then have "grows {} (set (rev (dir_chain d))) (w\<lparr>clock := Suc (clock w)\<rparr>) w'"
    by (rule mkdir_chain_grows)
  then have "grows {} (set (rev (dir_chain d))) w w'"
    by (rule grows_start) simp_all
  then show ?thesis
    by simp
qed

lemma MkdirAll_failed:
  assumes "os_MkdirAll d w = (Some e, w')"
  shows "grows {} (set (slash_prefixes [] d)) w w'"
proof (cases "fault w (clock w) \<or> d = []")
  case True
  then have "w' = w\<lparr>clock := Suc (clock w)\<rparr>"
    using assms by (auto simp: os_MkdirAll_def tick_def)
  then have "grows {} {} w w'"
    by (simp add: grows_def)
  then show ?thesis
    by (rule grows_mono) auto
next
  case False
  then have "mkdir_chain (d # rev (slash_prefixes [] d)) (w\<lparr>clock := Suc (clock w)\<rparr>) = (Some e, w')"
    using assms by (simp add: os_MkdirAll_def tick_def dir_chain_def)
  then have "grows {} (set (rev (slash_prefixes [] d))) (w\<lparr>clock := Suc (clock w)\<rparr>) w'"
    by (rule mkdir_chain_failed)
  then have "grows {} (set (rev (slash_prefixes [] d))) w w'"
    by (rule grows_start) simp_all
  then show ?thesis
    by simp
qed

lemma CreateTemp_grows:
  assumes "os_CreateTemp dir pat w = (r, w')"
  shows "case r of Inl e \<Rightarrow> grows {} {} w w' | Inr t \<Rightarrow> t \<notin> paths w \<and> grows {t} {} w w'"
proof (cases r)
  case (Inl e)
  then have "files w' = files w" "dirs w' = dirs w" "rm_fault w' = rm_fault w"
    using assms by (auto simp: os_CreateTemp_def tick_def Let_def split: if_splits prod.splits)
  then show ?thesis
    using Inl by (simp add: grows_step)
next
  case (Inr t)
  then have "t \<notin> paths w" "files w' = files w @ [(t, [])]" "dirs w' = dirs w" "rm_fault w' = rm_fault w"
    using assms by (auto simp: os_CreateTemp_def tick_def Let_def paths_def split: if_splits prod.splits)
  then show ?thesis
    using Inr by (simp add: grows_def)
qed

lemma Copy_grows:
  assumes "io_Copy name data w' = (r, w'')" "grows F D w w'" "name \<notin> fst ` set (files w)"
  shows "grows (insert name F) D w w''"
proof (cases r)
  case None
  then have "w'' = fs_write name data (w'\<lparr>clock := Suc (clock w')\<rparr>)"
    using assms(1) by (auto simp: io_Copy_def tick_def split: if_splits)
  moreover have "grows F D w (w'\<lparr>clock := Suc (clock w')\<rparr>)"
    using assms(2) by (rule grows_same) simp_all
  ultimately show ?thesis
    using assms(3) by (simp add: grows_fs_write)
next
  case (Some e)
  then have "files w'' = files w'" "dirs w'' = dirs w'" "rm_fault w'' = rm_fault w'"
    using assms(1) by (auto simp: io_Copy_def tick_def split: if_splits)
  with assms(2) have "grows F D w w''"
    by (rule grows_same)
  then show ?thesis
    by (rule grows_mono) auto
qed

lemma ReadFile_same:
  "os_ReadFile p w = (r, w') \<Longrightarrow> files w' = files w \<and> dirs w' = dirs w \<and> rm_fault w' = rm_fault w"
  by (auto simp: os_ReadFile_def tick_def split: if_splits option.splits)

lemma createTempFile_grows:
  assumes "createTempFile cfg data pat w = (r, w')" and rs: "removals_succeed w"
  shows "case r of Inl e \<Rightarrow> grows {} (tmp_chain cfg) w w'
         | Inr t \<Rightarrow> t \<notin> paths w \<and> grows {t} (tmp_chain cfg) w w'"
proof -
  obtain r1 w1 where m: "os_MkdirAll (TempDir cfg) w = (r1, w1)"
    by (cases "os_MkdirAll (TempDir cfg) w")
  have g1: "grows {} (tmp_chain cfg) w w1"
    unfolding tmp_chain_def using m by (rule MkdirAll_grows)
  show ?thesis
  proof (cases r1)
    case (Some e)
    then show ?thesis
      using assms(1) m g1 by (auto simp: createTempFile_def)
  next
    case None
    obtain r2 w2 where c: "os_CreateTemp (TempDir cfg) pat w1 = (r2, w2)"
      by (cases "os_CreateTemp (TempDir cfg) pat w1")
    show ?thesis
    proof (cases r2)
      case (Inl e)
      then have "grows {} {} w1 w2"
        using CreateTemp_grows[OF c] by simp
      with g1 have "grows ({} \<union> {}) ((tmp_chain cfg) \<union> {}) w w2"
        by (rule grows_trans)
      then show ?thesis
        using assms(1) m c None Inl by (auto simp: createTempFile_def)
    next
      case (Inr t)
      then have t: "t \<notin> paths w1" "grows {t} {} w1 w2"
        using CreateTemp_grows[OF c] by simp_all
      have tw: "t \<notin> paths w"
        using t(1) grows_paths[OF g1] by blast
      have g2: "grows {t} (tmp_chain cfg) w w2"
        using grows_trans[OF g1 t(2)] by simp
      obtain r3 w3 where i: "io_Copy t data w2 = (r3, w3)"
        by (cases "io_Copy t data w2")
      have g3: "grows {t} (tmp_chain cfg) w w3"
        using Copy_grows[OF i g2] tw by (simp add: paths_def)
      show ?thesis
      proof (cases r3)
        case None3: None
        then show ?thesis
          using assms(1) m c i None Inr tw g3 by (auto simp: createTempFile_def)
      next
        case (Some e)
        have "grows ({t} - {t}) (tmp_chain cfg) w (os_Remove t w3)"
          using g3 tw rs by (rule grows_Remove)
        then show ?thesis
          using assms(1) m c i None Inr Some by (auto simp: createTempFile_def)
      qed
    qed
  qed
qed

lemma createTempFile_uuid:
  assumes "createTempFile cfg data pat w = (r, w')"
  shows "uuid w' = uuid w \<and> useed w' = useed w"
proof -
  obtain r1 w1 where m: "os_MkdirAll (TempDir cfg) w = (r1, w1)"
    by (cases "os_MkdirAll (TempDir cfg) w")
  have "uuid w1 = uuid w" "useed w1 = useed w"
    using MkdirAll_frame[OF m] by simp_all
  then show ?thesis
    using assms m
    by (auto simp: createTempFile_def os_CreateTemp_def io_Copy_def tick_def
          fs_write_def os_Remove_def rm_tick_def Let_def
          split: if_splits prod.splits option.splits sum.splits)
qed

lemma leftover_grows:
  assumes "grows F D w w'" "out \<notin> fst ` set (files w)"
  shows "grows (insert out F) D w (leftover out w')"
proof -
  define w1 where "w1 = w'\<lparr>clock := Suc (clock w')\<rparr>"
  have g1: "grows F D w w1"
    using assms(1) by (rule grows_same) (simp_all add: w1_def)
  then have "grows (insert out F) D w w1"
    by (rule grows_mono) auto
  moreover have "grows (insert out F) D w (fs_write out [] w1)"
    using g1 assms(2) by (rule grows_fs_write)
  ultimately show ?thesis
    by (simp add: leftover_def tick_def w1_def)
qed

lemma api_OptimizeFile_grows:
  assumes "api_OptimizeFile lib i out w' = (r, w'')" "grows F D w w'" "out \<notin> fst ` set (files w)"
  shows "grows (insert out F) D w w''"
proof -
  define w1 where "w1 = w'\<lparr>clock := Suc (clock w')\<rparr>"
  have g1: "grows F D w w1"
    using assms(2) by (rule grows_same) (simp_all add: w1_def)
  have "w'' = leftover out w1 \<or> (\<exists>d. w'' = fs_write out d w1)"
    using assms(1) unfolding w1_def
    by (auto simp: api_OptimizeFile_def tick_def split: if_splits option.splits sum.splits)
  then show ?thesis
    using leftover_grows[OF g1 assms(3)] grows_fs_write[OF g1 assms(3)] by auto
qed

lemma read_back_grows:
  assumes "grows F D w w4"
  shows "grows F D w (snd (case os_ReadFile p w4 of
                             (Inl e, w5) \<Rightarrow> (Inl (f e), w5)
                           | (Inr d, w5) \<Rightarrow> (Inr d, log_Info m (k d) w5)))"
proof -
  obtain r5 w5 where r: "os_ReadFile p w4 = (r5, w5)"
    by (cases "os_ReadFile p w4")
  have "grows F D w w5"
    using assms ReadFile_same[OF r] by (auto intro: grows_same)
  then have "grows F D w (log_Info m kv w5)" for kv
    by (rule grows_same) (simp_all add: log_Info_def)
  then show ?thesis
    using r \<open>grows F D w w5\<close> by (cases r5) simp_all
qed

lemma CompressPDF_grows:
  assumes rs: "removals_succeed w" and "\<forall>p \<in> paths w. \<not> under (Join (TempDir cfg) (''compress-output-'' @ uuid w (useed w) @ ''.pdf'')) p"
  shows "grows {} (tmp_chain cfg) w (snd (CompressPDF lib cfg req w))"
proof -
  define w1 where "w1 = log_Info ''Compressing PDF'' [(''level'', LInt (CompressRequest.CompressionLevel req))]
     (span_SetAttributes ''PDFService.CompressPDF''
        [(''compression_level'', LInt (CompressRequest.CompressionLevel req))] w)"
  define out where "out = Join (TempDir cfg) (''compress-output-'' @ uuid w (useed w) @ ''.pdf'')"
  have w1: "files w1 = files w" "dirs w1 = dirs w" "uuid w1 = uuid w" "useed w1 = useed w"
      "rm_fault w1 = rm_fault w"
    by (simp_all add: w1_def log_Info_def span_SetAttributes_def)
  have rs1: "removals_succeed w1"
    using rs w1 by (simp add: removals_succeed_def)
  have outw: "out \<notin> paths w"
    using assms(2) by (auto simp: out_def under_def)
  obtain r2 w2 where c: "createTempFile cfg (CompressRequest.PDFData req) ''compress-input-*.pdf'' w1 = (r2, w2)"
    by (cases "createTempFile cfg (CompressRequest.PDFData req) ''compress-input-*.pdf'' w1")
  show ?thesis
  proof (cases r2)
    case (Inl e)
    then have "grows {} (tmp_chain cfg) w1 w2"
      using createTempFile_grows[OF c rs1] by simp
    then have "grows {} (tmp_chain cfg) w w2"
      using w1 by (simp add: grows_start)
    then show ?thesis
      using c Inl by (simp add: CompressPDF_def w1_def)
  next
    case (Inr t)
    then have "t \<notin> paths w1" "grows {t} (tmp_chain cfg) w1 w2"
      using createTempFile_grows[OF c rs1] by simp_all
    then have t: "t \<notin> paths w" and g2: "grows {t} (tmp_chain cfg) w w2"
      using w1 by (simp_all add: grows_start paths_def)
    have u: "uuid w2 (useed w2) = uuid w (useed w)"
      using createTempFile_uuid[OF c] w1 by simp
    define w3 where "w3 = w2\<lparr>useed := Suc (useed w2)\<rparr>"
    have g3: "grows {t} (tmp_chain cfg) w w3"
      using g2 by (rule grows_same) (simp_all add: w3_def)
    obtain r4 w4 where a: "api_OptimizeFile lib t out w3 = (r4, w4)"
      by (cases "api_OptimizeFile lib t out w3")
    have g4: "grows {out, t} (tmp_chain cfg) w w4"
      using api_OptimizeFile_grows[OF a g3] outw by (simp add: paths_def)
    define body where "body = (case r4 of
          Some e \<Rightarrow> (Inl (Wrap ''failed to compress PDF'' e), w4)
        | None \<Rightarrow> (case os_ReadFile out w4 of
            (Inl e, w5) \<Rightarrow> (Inl (Wrap ''failed to read compressed PDF'' e), w5)
          | (Inr compressedData, w5) \<Rightarrow> (Inr compressedData,
               log_Info ''PDF compression completed''
                 [(''original_size'', LInt (int (length (CompressRequest.PDFData req)))),
                  (''compressed_size'', LInt (int (length compressedData)))] w5)))"
    have gb: "grows {out, t} (tmp_chain cfg) w (snd body)"
      unfolding body_def using g4 by (cases r4) (simp_all add: read_back_grows)
    have "grows ({out, t} - {out}) (tmp_chain cfg) w (os_Remove out (snd body))"
      using gb outw rs by (rule grows_Remove)
    then have "grows {t} (tmp_chain cfg) w (os_Remove out (snd body))"
      by (rule grows_mono) auto
    then have "grows ({t} - {t}) (tmp_chain cfg) w (os_Remove t (os_Remove out (snd body)))"
      using t rs by (rule grows_Remove)
    moreover have "snd (CompressPDF lib cfg req w) = os_Remove t (os_Remove out (snd body))"
      using c[unfolded w1_def] a[unfolded out_def w3_def] Inr u
      by (cases r4) (simp_all add: CompressPDF_def deferred_def uuid_New_def body_def out_def Let_def)
    ultimately show ?thesis
      by simp
  qed
qed

lemma api_AddWatermarksFile_grows:
  assumes "api_AddWatermarksFile lib i out wm w' = (r, w'')" "grows F D w w'" "out \<notin> fst ` set (files w)"
  shows "grows (insert out F) D w w''"
proof -
  define w1 where "w1 = w'\<lparr>clock := Suc (clock w')\<rparr>"
  have g1: "grows F D w w1"
    using assms(2) by (rule grows_same) (simp_all add: w1_def)
  have "w'' = leftover out w1 \<or> (\<exists>d. w'' = fs_write out d w1)"
    using assms(1) unfolding w1_def
    by (auto simp: api_AddWatermarksFile_def tick_def split: if_splits option.splits sum.splits)
  then show ?thesis
    using leftover_grows[OF g1 assms(3)] grows_fs_write[OF g1 assms(3)] by auto
qed

lemma api_MergeCreateFile_grows:
  assumes "api_MergeCreateFile lib ins out w' = (r, w'')" "grows F D w w'" "out \<notin> fst ` set (files w)"
  shows "grows (insert out F) D w w''"
proof -
  define w1 where "w1 = w'\<lparr>clock := Suc (clock w')\<rparr>"
  have g1: "grows F D w w1"
    using assms(2) by (rule grows_same) (simp_all add: w1_def)
  have "w'' = leftover out w1 \<or> (\<exists>d. w'' = fs_write out d w1)"
    using assms(1) unfolding w1_def
    by (auto simp: api_MergeCreateFile_def tick_def split: if_splits option.splits sum.splits)
  then show ?thesis
    using leftover_grows[OF g1 assms(3)] grows_fs_write[OF g1 assms(3)] by auto
qed

lemma write_pages_grows:
  assumes "\<forall>p \<in> fst ` set (files w). \<not> under d p"
  shows "grows F D w w' \<Longrightarrow> grows (F \<union> {p. under d p}) D w (write_pages lib i d n pgs w')"
proof (induction pgs arbitrary: n w' F)
  case Nil
  then show ?case
    by (auto intro: grows_mono)
next
  case (Cons pg pgs)
  have "Join d (lib_spanFileName lib i n) \<notin> fst ` set (files w)"
    using assms under_Join by blast
  with Cons.prems have "grows (insert (Join d (lib_spanFileName lib i n)) F) D w
      (fs_write (Join d (lib_spanFileName lib i n)) pg w')"
    by (rule grows_fs_write)
  then have "grows (insert (Join d (lib_spanFileName lib i n)) F \<union> {p. under d p}) D w
      (write_pages lib i d (Suc n) pgs (fs_write (Join d (lib_spanFileName lib i n)) pg w'))"
    by (rule Cons.IH)
  moreover have "insert (Join d (lib_spanFileName lib i n)) F \<union> {p. under d p} = F \<union> {p. under d p}"
    by auto
  ultimately show ?case
    by simp
qed

lemma api_SplitFile_grows:
  assumes "api_SplitFile lib i d w' = (r, w'')" "grows F D w w'"
    "\<forall>p \<in> fst ` set (files w). \<not> under d p"
  shows "grows (F \<union> {p. under d p}) D w w''"
proof -
  define w1 where "w1 = w'\<lparr>clock := Suc (clock w')\<rparr>"
  define first where "first = Join d (lib_spanFileName lib i 1)"
  have g1: "grows F D w w1"
    using assms(2) by (rule grows_same) (simp_all add: w1_def)
  have f: "first \<notin> fst ` set (files w)"
    using assms(3) under_Join unfolding first_def by blast
  have "grows (insert first F) D w (leftover first w1)"
    using g1 f by (rule leftover_grows)
  then have a: "grows (F \<union> {p. under d p}) D w (leftover first w1)"
    by (rule grows_mono) (auto simp: first_def)
  have b: "grows (F \<union> {p. under d p}) D w (write_pages lib i d 1 pgs w1)" for pgs
    using assms(3) g1 by (rule write_pages_grows)
  have "w'' = leftover first w1 \<or> (\<exists>pgs. w'' = write_pages lib i d 1 pgs w1)"
    using assms(1) unfolding w1_def first_def
    by (auto simp: api_SplitFile_def tick_def split: if_splits option.splits sum.splits)
  then show ?thesis
    using a b by auto
qed

lemma read_split_files_same:
  "read_split_files fs w = (r, w') \<Longrightarrow> files w' = files w \<and> dirs w' = dirs w \<and> rm_fault w' = rm_fault w"
proof (induction fs arbitrary: w r w')
  case Nil
  then show ?case by simp
next
  case (Cons f fs)
  obtain r1 w1 where r1: "os_ReadFile f w = (r1, w1)"
    by (cases "os_ReadFile f w")
  note s1 = ReadFile_same[OF r1]
  show ?case
  proof (cases r1)
    case (Inl e)
    then show ?thesis
      using Cons.prems r1 s1 by auto
  next
    case (Inr d)
    obtain r2 w2 where r2: "read_split_files fs w1 = (r2, w2)"
      by (cases "read_split_files fs w1")
    have "files w2 = files w1 \<and> dirs w2 = dirs w1 \<and> rm_fault w2 = rm_fault w1"
      using r2 by (rule Cons.IH)
    moreover have "w' = w2"
      using Cons.prems r1 r2 Inr by (cases r2) auto
    ultimately show ?thesis
      using s1 by simp
  qed
qed

lemma fold_Remove_grows:
  assumes "set ps \<inter> paths w = {}" and rs: "removals_succeed w"
  shows "grows F D w w' \<Longrightarrow> grows (F - set ps) D w (fold os_Remove ps w')"
  using assms
proof (induction ps arbitrary: F w')
  case Nil
  then show ?case by simp
next
  case (Cons p ps)
  have "p \<notin> paths w" "set ps \<inter> paths w = {}"
    using Cons.prems(2) by auto
  with Cons.prems(1) have "grows (F - {p}) D w (os_Remove p w')"
    using rs by (simp add: grows_Remove)
  then have "grows (F - {p} - set ps) D w (fold os_Remove ps (os_Remove p w'))"
    using \<open>set ps \<inter> paths w = {}\<close> rs by (rule Cons.IH)
  moreover have "F - {p} - set ps = F - set (p # ps)"
    by auto
  ultimately show ?case
    by simp
qed

lemma merge_inputs_grows:
  "merge_inputs cfg i pdfs w = (r, tfs, w') \<Longrightarrow> removals_succeed w \<Longrightarrow>
     set tfs \<inter> paths w = {} \<and> grows (set tfs) (tmp_chain cfg) w w'
     \<and> uuid w' = uuid w \<and> useed w' = useed w"
proof (induction pdfs arbitrary: i w r tfs w')
  case Nil
  then show ?case
    by (auto simp: grows_def)
next
  case (Cons pdfData rest)
  obtain r1 w1 where c: "createTempFile cfg pdfData (''merge-input-'' @ Itoa (int i) @ ''-*.pdf'') w = (r1, w1)"
    by (cases "createTempFile cfg pdfData (''merge-input-'' @ Itoa (int i) @ ''-*.pdf'') w")
  note g = createTempFile_grows[OF c Cons.prems(2)] and u = createTempFile_uuid[OF c]
  show ?case
  proof (cases r1)
    case (Inl e)
    then show ?thesis
      using Cons.prems(1) c g u by auto
  next
    case (Inr t)
    obtain r2 tfs2 w2 where m: "merge_inputs cfg (Suc i) rest w1 = (r2, tfs2, w2)"
      by (cases "merge_inputs cfg (Suc i) rest w1")
    have t: "t \<notin> paths w" and g1: "grows {t} (tmp_chain cfg) w w1"
      using g Inr by simp_all
    have "removals_succeed w1"
      using Cons.prems(2) grows_rm_fault[OF g1] by (simp add: removals_succeed_def)
    note ih = Cons.IH[OF m this]
    have eq: "tfs = t # tfs2" "w' = w2"
      using Cons.prems(1) c m Inr by auto
    have "paths w \<subseteq> paths w1"
      using g1 by (rule grows_paths)
    then have "set tfs \<inter> paths w = {}"
      using ih t eq by auto
    moreover have "grows ({t} \<union> set tfs2) ((tmp_chain cfg) \<union> (tmp_chain cfg)) w w2"
      using g1 ih by (blast intro: grows_trans)
    ultimately show ?thesis
      using eq ih u by simp
  qed
qed

subsection \<open>Every operation removes what it created\<close>

lemma AddWatermark_grows:
  assumes rs: "removals_succeed w" and "\<forall>p \<in> paths w. \<not> under (Join (TempDir cfg) (''watermark-output-'' @ uuid w (useed w) @ ''.pdf'')) p"
  shows "grows {} (tmp_chain cfg) w (snd (AddWatermark lib cfg req w))"
proof -
  define w1 where "w1 = log_Info ''Adding watermark to PDF'' [(''text'', LStr (WatermarkText req))] w"
  define out where "out = Join (TempDir cfg) (''watermark-output-'' @ uuid w (useed w) @ ''.pdf'')"
  have w1: "files w1 = files w" "dirs w1 = dirs w" "uuid w1 = uuid w" "useed w1 = useed w"
      "rm_fault w1 = rm_fault w"
    by (simp_all add: w1_def log_Info_def)
  have rs1: "removals_succeed w1"
    using rs w1 by (simp add: removals_succeed_def)
  have outw: "out \<notin> paths w"
    using assms(2) by (auto simp: out_def under_def)
  obtain r2 w2 where c: "createTempFile cfg (WatermarkRequest.PDFData req) ''watermark-input-*.pdf'' w1 = (r2, w2)"
    by (cases "createTempFile cfg (WatermarkRequest.PDFData req) ''watermark-input-*.pdf'' w1")
  show ?thesis
  proof (cases r2)
    case (Inl e)
    then have "grows {} (tmp_chain cfg) w1 w2"
      using createTempFile_grows[OF c rs1] by simp
    then have "grows {} (tmp_chain cfg) w w2"
      using w1 by (simp add: grows_start)
    then show ?thesis
      using c Inl by (simp add: AddWatermark_def w1_def)
  next
    case (Inr t)
    then have "t \<notin> paths w1" "grows {t} (tmp_chain cfg) w1 w2"
      using createTempFile_grows[OF c rs1] by simp_all
    then have t: "t \<notin> paths w" and g2: "grows {t} (tmp_chain cfg) w w2"
      using w1 by (simp_all add: grows_start paths_def)
    have u: "uuid w2 (useed w2) = uuid w (useed w)"
      using createTempFile_uuid[OF c] w1 by simp
    define w3 where "w3 = w2\<lparr>useed := Suc (useed w2)\<rparr>"
    have g3: "grows {t} (tmp_chain cfg) w w3"
      using g2 by (rule grows_same) (simp_all add: w3_def)
    define body where "body = (case lib_ParseTextWatermarkDetails lib (WatermarkText req) [] False of
          Inl e \<Rightarrow> (Inl (Wrap ''failed to parse watermark'' e), w3)
        | Inr wm \<Rightarrow>
            (case api_AddWatermarksFile lib t out wm w3 of
               (Some e, w4) \<Rightarrow> (Inl (Wrap ''failed to add watermark'' e), w4)
             | (None, w4) \<Rightarrow>
                 (case os_ReadFile out w4 of
                    (Inl e, w5) \<Rightarrow> (Inl (Wrap ''failed to read watermarked PDF'' e), w5)
                  | (Inr watermarkedData, w5) \<Rightarrow>
                      (Inr watermarkedData, log_Info ''Watermark added successfully'' [] w5))))"
    have gb: "grows {out, t} (tmp_chain cfg) w (snd body)"
    proof (cases "lib_ParseTextWatermarkDetails lib (WatermarkText req) [] False")
      case (Inl e)
      have "grows {out, t} (tmp_chain cfg) w w3"
        using g3 by (rule grows_mono) auto
      then show ?thesis
        using Inl by (simp add: body_def)
    next
      case (Inr wm)
      obtain r4 w4 where a: "api_AddWatermarksFile lib t out wm w3 = (r4, w4)"
        by (cases "api_AddWatermarksFile lib t out wm w3")
      have g4: "grows {out, t} (tmp_chain cfg) w w4"
        using api_AddWatermarksFile_grows[OF a g3] outw by (simp add: paths_def)
      show ?thesis
        using Inr a g4 by (cases r4) (simp_all add: body_def read_back_grows)
    qed
    have "grows ({out, t} - {out}) (tmp_chain cfg) w (os_Remove out (snd body))"
      using gb outw rs by (rule grows_Remove)
    then have "grows {t} (tmp_chain cfg) w (os_Remove out (snd body))"
      by (rule grows_mono) auto
    then have "grows ({t} - {t}) (tmp_chain cfg) w (os_Remove t (os_Remove out (snd body)))"
      using t rs by (rule grows_Remove)
    moreover have "snd (AddWatermark lib cfg req w) = os_Remove t (os_Remove out (snd body))"
      using c[unfolded w1_def] Inr u
      by (simp add: AddWatermark_def deferred_def uuid_New_def body_def out_def w3_def Let_def
            split: sum.splits prod.splits option.splits)
    ultimately show ?thesis
      by simp
  qed
qed

lemma ExtractText_grows:
  assumes rs: "removals_succeed w"
  shows "grows {} (tmp_chain cfg) w (snd (ExtractText lib cfg req w))"
proof -
  define w1 where "w1 = log_Info ''Extracting text from PDF'' [(''use_ocr'', LBool (UseOCR req))]
     (span_SetAttributes ''PDFService.ExtractText'' [(''use_ocr'', LBool (UseOCR req))] w)"
  have w1: "files w1 = files w" "dirs w1 = dirs w"
      "rm_fault w1 = rm_fault w"
    by (simp_all add: w1_def log_Info_def span_SetAttributes_def)
  have rs1: "removals_succeed w1"
    using rs w1 by (simp add: removals_succeed_def)
  obtain r2 w2 where c: "createTempFile cfg (ExtractTextRequest.PDFData req) ''extract-text-*.pdf'' w1 = (r2, w2)"
    by (cases "createTempFile cfg (ExtractTextRequest.PDFData req) ''extract-text-*.pdf'' w1")
  show ?thesis
  proof (cases r2)
    case (Inl e)
    then have "grows {} (tmp_chain cfg) w1 w2"
      using createTempFile_grows[OF c rs1] by simp
    then have "grows {} (tmp_chain cfg) w w2"
      using w1 by (simp add: grows_start)
    then show ?thesis
      using c Inl by (simp add: ExtractText_def w1_def)
  next
    case (Inr t)
    then have "t \<notin> paths w1" "grows {t} (tmp_chain cfg) w1 w2"
      using createTempFile_grows[OF c rs1] by simp_all
    then have t: "t \<notin> paths w" and g2: "grows {t} (tmp_chain cfg) w w2"
      using w1 by (simp_all add: grows_start paths_def)
    have g2': "grows {t} (tmp_chain cfg) w (log_Info m kv w2)" for m kv
      using g2 by (rule grows_same) (simp_all add: log_Info_def)
    have r: "grows ({t} - {t}) (tmp_chain cfg) w (os_Remove t w')" if "grows {t} (tmp_chain cfg) w w'" for w'
      using that t rs by (rule grows_Remove)
    show ?thesis
      using c[unfolded w1_def] Inr r[OF g2] r[OF g2']
      by (cases "lib_ReadContext lib (ExtractTextRequest.PDFData req)")
         (simp_all add: ExtractText_def deferred_def Let_def)
  qed
qed

lemma ConvertToImage_grows:
  assumes rs: "removals_succeed w"
  shows "grows {} (tmp_chain cfg) w (snd (ConvertToImage cfg req w))"
proof -
  define w1 where "w1 = log_Info ''Converting PDF to images''
                 [(''format'', LStr (ConvertToImageRequest.Format req)), (''dpi'', LInt (DPI req))]
     (span_SetAttributes ''PDFService.ConvertToImage''
                 [(''format'', LStr (ConvertToImageRequest.Format req)), (''dpi'', LInt (DPI req))] w)"
  have w1: "files w1 = files w" "dirs w1 = dirs w"
      "rm_fault w1 = rm_fault w"
    by (simp_all add: w1_def log_Info_def span_SetAttributes_def)
  have rs1: "removals_succeed w1"
    using rs w1 by (simp add: removals_succeed_def)
  obtain r2 w2 where c: "createTempFile cfg (ConvertToImageRequest.PDFData req) ''input-*.pdf'' w1 = (r2, w2)"
    by (cases "createTempFile cfg (ConvertToImageRequest.PDFData req) ''input-*.pdf'' w1")
  show ?thesis
  proof (cases r2)
    case (Inl e)
    then have "grows {} (tmp_chain cfg) w1 w2"
      using createTempFile_grows[OF c rs1] by simp
    then have "grows {} (tmp_chain cfg) w w2"
      using w1 by (simp add: grows_start)
    then show ?thesis
      using c Inl by (simp add: ConvertToImage_def w1_def)
  next
    case (Inr t)
    then have "t \<notin> paths w1" "grows {t} (tmp_chain cfg) w1 w2"
      using createTempFile_grows[OF c rs1] by simp_all
    then have t: "t \<notin> paths w" and g2: "grows {t} (tmp_chain cfg) w w2"
      using w1 by (simp_all add: grows_start paths_def)
    have g2': "grows {t} (tmp_chain cfg) w (log_Info m kv w2)" for m kv
      using g2 by (rule grows_same) (simp_all add: log_Info_def)
    have "grows ({t} - {t}) (tmp_chain cfg) w (os_Remove t (log_Info m kv w2))" for m kv
      using g2' t rs by (rule grows_Remove)
    then show ?thesis
      using c[unfolded w1_def] Inr
      by (simp add: ConvertToImage_def deferred_def Let_def)
  qed
qed

lemma MergePDFs_grows:
  assumes rs: "removals_succeed w" and "\<forall>p \<in> paths w. \<not> under (Join (TempDir cfg) (''merge-output-'' @ uuid w (useed w) @ ''.pdf'')) p"
  shows "grows {} (tmp_chain cfg) w (snd (MergePDFs lib cfg req w))"
proof -
  define w1 where "w1 = log_Info ''Merging PDFs'' [(''count'', LInt (int (length (PDFs req))))]
     (span_SetAttributes ''PDFService.MergePDFs'' [(''pdf_count'', LInt (int (length (PDFs req))))] w)"
  define out where "out = Join (TempDir cfg) (''merge-output-'' @ uuid w (useed w) @ ''.pdf'')"
  have w1: "files w1 = files w" "dirs w1 = dirs w" "uuid w1 = uuid w" "useed w1 = useed w"
      "rm_fault w1 = rm_fault w"
    by (simp_all add: w1_def log_Info_def span_SetAttributes_def)
  have rs1: "removals_succeed w1"
    using rs w1 by (simp add: removals_succeed_def)
  have outw: "out \<notin> paths w"
    using assms(2) by (auto simp: out_def under_def)
  show ?thesis
  proof (cases "length (PDFs req) < 2")
    case True
    have "grows {} (tmp_chain cfg) w w1"
      using w1 by (auto simp: grows_def)
    then show ?thesis
      using True by (simp add: MergePDFs_def w1_def Let_def)
  next
    case False
    obtain r2 tfs w2 where m: "merge_inputs cfg 0 (PDFs req) w1 = (r2, tfs, w2)"
      by (cases "merge_inputs cfg 0 (PDFs req) w1")
    note mg = merge_inputs_grows[OF m rs1]
    have fresh: "set (rev tfs) \<inter> paths w = {}"
      using mg w1 by (simp add: paths_def)
    have g2: "grows (set tfs) (tmp_chain cfg) w w2"
      using mg w1 by (blast intro: grows_start)
    have u: "uuid w2 (useed w2) = uuid w (useed w)"
      using mg w1 by simp
    show ?thesis
    proof (cases r2)
      case (Some e)
      have "grows (set tfs - set (rev tfs)) (tmp_chain cfg) w (fold os_Remove (rev tfs) w2)"
        using fresh rs g2 by (rule fold_Remove_grows)
      then show ?thesis
        using False m Some by (simp add: MergePDFs_def w1_def Let_def)
    next
      case None
      define w3 where "w3 = w2\<lparr>useed := Suc (useed w2)\<rparr>"
      have g3: "grows (set tfs) (tmp_chain cfg) w w3"
        using g2 by (rule grows_same) (simp_all add: w3_def)
      obtain r4 w4 where a: "api_MergeCreateFile lib tfs out w3 = (r4, w4)"
        by (cases "api_MergeCreateFile lib tfs out w3")
      have g4: "grows (insert out (set tfs)) (tmp_chain cfg) w w4"
        using api_MergeCreateFile_grows[OF a g3] outw by (simp add: paths_def)
      define body where "body = (case r4 of
            Some e \<Rightarrow> (Inl (Wrap ''failed to merge PDFs'' e), w4)
          | None \<Rightarrow> (case os_ReadFile out w4 of
              (Inl e, w5) \<Rightarrow> (Inl (Wrap ''failed to read merged PDF'' e), w5)
            | (Inr mergedData, w5) \<Rightarrow> (Inr mergedData,
                 log_Info ''PDFs merged successfully''
                   [(''output_size'', LInt (int (length mergedData)))] w5)))"
      have gb: "grows (insert out (set tfs)) (tmp_chain cfg) w (snd body)"
        unfolding body_def using g4 by (cases r4) (simp_all add: read_back_grows)
      have "grows (insert out (set tfs) - {out}) (tmp_chain cfg) w (os_Remove out (snd body))"
        using gb outw rs by (rule grows_Remove)
      then have "grows (set tfs) (tmp_chain cfg) w (os_Remove out (snd body))"
        by (rule grows_mono) auto
      with fresh rs
      have "grows (set tfs - set (rev tfs)) (tmp_chain cfg) w
              (fold os_Remove (rev tfs) (os_Remove out (snd body)))"
        by (rule fold_Remove_grows)
      moreover have "snd (MergePDFs lib cfg req w) = fold os_Remove (rev tfs) (os_Remove out (snd body))"
        using False m[unfolded w1_def] None a[unfolded out_def w3_def] u
        by (cases r4)
           (simp_all add: MergePDFs_def deferred_def uuid_New_def body_def out_def Let_def)
      ultimately show ?thesis
        by simp
    qed
  qed
qed

lemma SplitPDF_grows:
  assumes rs: "removals_succeed w" and sl: "CHR ''/'' \<notin> set (uuid w (useed w))" and "\<forall>p \<in> paths w. \<not> under (Join (TempDir cfg) (''split-output-'' @ uuid w (useed w))) p"
  shows "grows {} (tmp_chain cfg) w (snd (SplitPDF lib cfg req w))"
proof -
  define w1 where "w1 = log_Info ''Splitting PDF'' [(''page_range'', LStr (SplitRequest.PageRange req))] w"
  define out where "out = Join (TempDir cfg) (''split-output-'' @ uuid w (useed w))"
  have w1: "files w1 = files w" "dirs w1 = dirs w" "uuid w1 = uuid w" "useed w1 = useed w"
      "rm_fault w1 = rm_fault w"
    by (simp_all add: w1_def log_Info_def)
  have rs1: "removals_succeed w1"
    using rs w1 by (simp add: removals_succeed_def)
  have outw: "\<forall>p \<in> paths w. \<not> under out p"
    using assms(3) by (simp add: out_def)
  obtain r2 w2 where c: "createTempFile cfg (SplitRequest.PDFData req) ''split-input-*.pdf'' w1 = (r2, w2)"
    by (cases "createTempFile cfg (SplitRequest.PDFData req) ''split-input-*.pdf'' w1")
  show ?thesis
  proof (cases r2)
    case (Inl e)
    then have "grows {} (tmp_chain cfg) w1 w2"
      using createTempFile_grows[OF c rs1] by simp
    then have "grows {} (tmp_chain cfg) w w2"
      using w1 by (simp add: grows_start)
    then show ?thesis
      using c Inl by (simp add: SplitPDF_def w1_def)
  next
    case (Inr t)
    then have "t \<notin> paths w1" "grows {t} (tmp_chain cfg) w1 w2"
      using createTempFile_grows[OF c rs1] by simp_all
    then have t: "t \<notin> paths w" and g2: "grows {t} (tmp_chain cfg) w w2"
      using w1 by (simp_all add: grows_start paths_def)
    have u: "uuid w2 (useed w2) = uuid w (useed w)"
      using createTempFile_uuid[OF c] w1 by simp
    define w3 where "w3 = w2\<lparr>useed := Suc (useed w2)\<rparr>"
    have g3: "grows {t} (tmp_chain cfg) w w3"
      using g2 by (rule grows_same) (simp_all add: w3_def)
    obtain r4 w4 where m: "os_MkdirAll out w3 = (r4, w4)"
      by (cases "os_MkdirAll out w3")
    show ?thesis
    proof (cases r4)
      case (Some e)
      have "grows {} (set (slash_prefixes [] out)) w3 w4"
        using m[unfolded Some] by (rule MkdirAll_failed)
      with g3 have "grows ({t} \<union> {}) (tmp_chain cfg \<union> set (slash_prefixes [] out)) w w4"
        by (rule grows_trans)
      moreover have "{t} \<union> {} \<subseteq> {t}"
        by simp
      moreover have "tmp_chain cfg \<union> set (slash_prefixes [] out) \<subseteq> tmp_chain cfg"
      proof -
        have "CHR ''/'' \<notin> set (''split-output-'' @ uuid w (useed w))"
          using sl by simp
        from slash_prefixes_Join[OF this] show ?thesis
          unfolding out_def tmp_chain_def by blast
      qed
      ultimately have "grows {t} (tmp_chain cfg) w w4"
        by (rule grows_mono)
      then have "grows ({t} - {t}) (tmp_chain cfg) w (os_Remove t w4)"
        using t rs by (rule grows_Remove)
      moreover have "snd (SplitPDF lib cfg req w) = os_Remove t w4"
        using c[unfolded w1_def] Inr u m[unfolded out_def w3_def] Some
        by (simp add: SplitPDF_def deferred_def uuid_New_def Let_def)
      ultimately show ?thesis
        by simp
    next
      case None
      have "grows ({t} \<union> {}) ((tmp_chain cfg) \<union> set (dir_chain out)) w w4"
        using g3 MkdirAll_grows[OF m] by (rule grows_trans)
      moreover have "{t} \<union> {} \<subseteq> {t}"
        by simp
      moreover have "tmp_chain cfg \<union> set (dir_chain out) \<subseteq> insert out (tmp_chain cfg)"
      proof -
        have "CHR ''/'' \<notin> set (''split-output-'' @ uuid w (useed w))"
          using sl by simp
        from dir_chain_Join[OF this] show ?thesis
          unfolding out_def tmp_chain_def by blast
      qed
      ultimately have g4: "grows {t} (insert out (tmp_chain cfg)) w w4"
        by (rule grows_mono)
      obtain r5 w5 where a: "api_SplitFile lib t out w4 = (r5, w5)"
        by (cases "api_SplitFile lib t out w4")
      have g5: "grows ({t} \<union> {p. under out p}) (insert out (tmp_chain cfg)) w w5"
        using api_SplitFile_grows[OF a g4] outw by (simp add: paths_def)
      define body where "body = (case r5 of
            Some e \<Rightarrow> (Inl (Wrap ''failed to split PDF'' e), w5)
          | None \<Rightarrow> (case Glob_pdf out w5 of
              Inl e \<Rightarrow> (Inl (Wrap ''failed to read split files'' e), w5)
            | Inr matches \<Rightarrow> (case read_split_files matches w5 of
                (Inl e, w6) \<Rightarrow> (Inl e, w6)
              | (Inr splitPDFs, w6) \<Rightarrow> (Inr splitPDFs,
                   log_Info ''PDF split successfully''
                     [(''output_count'', LInt (int (length splitPDFs)))] w6))))"
      have gb: "grows ({t} \<union> {p. under out p}) (insert out (tmp_chain cfg)) w (snd body)"
      proof (cases r5)
        case (Some e)
        then show ?thesis
          using g5 by (simp add: body_def)
      next
        case None5: None
        show ?thesis
        proof (cases "Glob_pdf out w5")
          case (Inl e)
          then show ?thesis
            using None5 g5 by (simp add: body_def)
        next
          case (Inr matches)
          obtain r6 w6 where r: "read_split_files matches w5 = (r6, w6)"
            by (cases "read_split_files matches w5")
          have g6: "grows ({t} \<union> {p. under out p}) (insert out (tmp_chain cfg)) w w6"
            using g5 read_split_files_same[OF r] by (auto intro: grows_same)
          then have "grows ({t} \<union> {p. under out p}) (insert out (tmp_chain cfg)) w (log_Info mm kv w6)"
            for mm kv
            by (rule grows_same) (simp_all add: log_Info_def)
          then show ?thesis
            using None5 Inr r g6 by (cases r6) (simp_all add: body_def)
        qed
      qed
      have "grows {p \<in> {t} \<union> {p. under out p}. \<not> under out p} {p \<in> (insert out (tmp_chain cfg)). \<not> under out p}
              w (os_RemoveAll out (snd body))"
        using gb outw rs by (rule grows_RemoveAll)
      then have "grows {t} (tmp_chain cfg) w (os_RemoveAll out (snd body))"
        by (rule grows_mono) (auto simp: under_def)
      then have "grows ({t} - {t}) (tmp_chain cfg) w (os_Remove t (os_RemoveAll out (snd body)))"
        using t rs by (rule grows_Remove)
      moreover have "snd (SplitPDF lib cfg req w) = os_Remove t (os_RemoveAll out (snd body))"
        using c[unfolded w1_def] Inr u m[unfolded out_def w3_def] None a[unfolded out_def]
        by (cases r5)
           (simp_all add: SplitPDF_def deferred_def uuid_New_def body_def out_def Let_def)
      ultimately show ?thesis
        by simp
    qed
  qed
qed

subsection \<open>Runs in which nothing fails\<close>

lemma dir_neq_Join [simp]: "d \<noteq> Join d n"
  by (simp add: Join_def)

lemma prefixAndSuffix_star:
  assumes "CHR ''*'' \<notin> set suf"
  shows "prefixAndSuffix (pre @ CHR ''*'' # suf) = (pre, suf)"
proof -
  have all: "\<forall>c \<in> set (rev suf). c \<noteq> CHR ''*''"
    using assms by auto
  have d: "dropWhile (\<lambda>c. c \<noteq> CHR ''*'') (rev suf @ CHR ''*'' # rev pre) = CHR ''*'' # rev pre"
    using all by (subst dropWhile_append2) auto
  have t: "takeWhile (\<lambda>c. c \<noteq> CHR ''*'') (rev suf @ CHR ''*'' # rev pre) = rev suf"
    using all by (subst takeWhile_append2) auto
  show ?thesis
    by (simp add: prefixAndSuffix_def d t)
qed

lemma scratch_free_Join: "scratch_free cfg w \<Longrightarrow> Join (TempDir cfg) n \<notin> paths w"
  by (auto simp: scratch_free_def Join_def)

lemma Join_notin_tmp_chain [simp]: "Join (TempDir cfg) n \<notin> tmp_chain cfg"
  by (simp add: tmp_chain_def Join_notin_dir_chain)

lemma mkdir_chain_calm:
  assumes "calm w" "\<forall>q \<in> set qs. q \<notin> fst ` set (files w)"
  shows "\<exists>w'. mkdir_chain qs w = (None, w') \<and> set (dirs w) \<subseteq> set (dirs w')
           \<and> set (dirs w') \<subseteq> set (dirs w) \<union> set qs \<and> (qs \<noteq> [] \<longrightarrow> hd qs \<in> set (dirs w')) \<and> calm w'"
  using assms
proof (induction qs)
  case Nil
  then show ?case
    by simp
next
  case (Cons q up)
  show ?case
  proof (cases "q \<in> set (dirs w)")
    case True
    then show ?thesis
      using Cons.prems(1) by auto
  next
    case False
    obtain w1 where w1: "mkdir_chain up w = (None, w1)" "set (dirs w) \<subseteq> set (dirs w1)"
      "set (dirs w1) \<subseteq> set (dirs w) \<union> set up" "calm w1"
      using Cons.IH Cons.prems by auto
    define w' where "w' = w1\<lparr>clock := Suc (clock w1), dirs := dirs w1 @ [q], created := created w1 @ [q]\<rparr>"
    have "mkdir_chain (q # up) w = (None, w')"
      using False Cons.prems(2) w1(1,4) by (simp add: tick_def calm_def w'_def)
    moreover have "set (dirs w) \<subseteq> set (dirs w')" "set (dirs w') \<subseteq> set (dirs w) \<union> set (q # up)"
      "hd (q # up) \<in> set (dirs w')" "calm w'"
      using w1(2,3,4) by (auto simp: w'_def calm_def)
    ultimately show ?thesis
      by blast
  qed
qed

lemma MkdirAll_calm:
  assumes "calm w" "d \<noteq> []" "\<forall>q \<in> set (dir_chain d). q \<notin> fst ` set (files w)"
  shows "os_MkdirAll d w = (None, snd (os_MkdirAll d w))"
    and "files (snd (os_MkdirAll d w)) = files w"
    and "set (dirs w) \<subseteq> set (dirs (snd (os_MkdirAll d w)))
         \<and> set (dirs (snd (os_MkdirAll d w))) \<subseteq> set (dirs w) \<union> set (dir_chain d)
         \<and> d \<in> set (dirs (snd (os_MkdirAll d w)))"
    and "calm (snd (os_MkdirAll d w))"
    and "set (created w) \<subseteq> set (created (snd (os_MkdirAll d w)))"
    and "glob_meta (snd (os_MkdirAll d w)) = glob_meta w"
proof -
  define w1 where "w1 = w\<lparr>clock := Suc (clock w)\<rparr>"
  have "calm w1" "\<forall>q \<in> set (rev (dir_chain d)). q \<notin> fst ` set (files w1)"
    using assms(1,3) by (simp_all add: w1_def calm_def)
  then obtain w' where w': "mkdir_chain (rev (dir_chain d)) w1 = (None, w')"
    "set (dirs w1) \<subseteq> set (dirs w')" "set (dirs w') \<subseteq> set (dirs w1) \<union> set (rev (dir_chain d))"
    "rev (dir_chain d) \<noteq> [] \<longrightarrow> hd (rev (dir_chain d)) \<in> set (dirs w')" "calm w'"
    using mkdir_chain_calm by blast
  have m: "os_MkdirAll d w = (None, w')"
    using assms(1,2) w'(1) by (simp add: os_MkdirAll_def tick_def calm_def w1_def)
  have h: "d \<in> set (dirs w')"
    using w'(4) by (simp add: dir_chain_def)
  note f = MkdirAll_frame[OF m]
  show "os_MkdirAll d w = (None, snd (os_MkdirAll d w))"
    "files (snd (os_MkdirAll d w)) = files w"
    "set (dirs w) \<subseteq> set (dirs (snd (os_MkdirAll d w)))
         \<and> set (dirs (snd (os_MkdirAll d w))) \<subseteq> set (dirs w) \<union> set (dir_chain d)
         \<and> d \<in> set (dirs (snd (os_MkdirAll d w)))"
    "calm (snd (os_MkdirAll d w))"
    "set (created w) \<subseteq> set (created (snd (os_MkdirAll d w)))"
    "glob_meta (snd (os_MkdirAll d w)) = glob_meta w"
    using w'(2,3,5) h f by (simp_all add: m w1_def)
qed

lemma createTempFile_calm:
  fixes cfg data pre suf w
  defines "name \<equiv> Join (TempDir cfg) (pre @ rand w (seed w) @ suf)"
  defines "w' \<equiv> snd (createTempFile cfg data (pre @ CHR ''*'' # suf) w)"
  assumes "calm w" "TempDir cfg \<noteq> []" "\<forall>q \<in> tmp_chain cfg. q \<notin> fst ` set (files w)"
    "CHR ''/'' \<notin> set pre" "CHR ''/'' \<notin> set suf" "CHR ''*'' \<notin> set suf"
    "name \<notin> paths w"
  shows "createTempFile cfg data (pre @ CHR ''*'' # suf) w = (Inr name, w')"
    and "files w' = files w @ [(name, data)]"
    and "set (dirs w) \<subseteq> set (dirs w') \<and> set (dirs w') \<subseteq> set (dirs w) \<union> tmp_chain cfg"
    and "name \<in> set (created w')"
    and "calm w'" and "rand w' = rand w" and "seed w' = Suc (seed w)"
    and "uuid w' = uuid w" and "useed w' = useed w"
    and "rm_fault w' = rm_fault w" and "glob_meta w' = glob_meta w"
proof -
  define w1 where "w1 = snd (os_MkdirAll (TempDir cfg) w)"
  have ch: "\<forall>q \<in> set (dir_chain (TempDir cfg)). q \<notin> fst ` set (files w)"
    using assms(5) by (simp add: tmp_chain_def)
  note mc = MkdirAll_calm[OF assms(3,4) ch, folded w1_def]
  have m: "os_MkdirAll (TempDir cfg) w = (None, w1)"
    by (rule mc(1))
  note fr = MkdirAll_frame[OF m]
  have c1: "calm w1"
    by (rule mc(4))
  have n1: "name \<notin> paths w1"
    using assms(9) unfolding name_def
    using mc(3) by (auto simp: paths_def mc(2) dest: Join_notin_dir_chain[THEN notE, rotated])
  define w2 where "w2 = w1\<lparr>clock := Suc (clock w1), seed := Suc (seed w1),
      files := files w1 @ [(name, [])], created := created w1 @ [name]\<rparr>"
  have rs: "rand w1 (seed w1) = rand w (seed w)"
    using fr by simp
  have c: "os_CreateTemp (TempDir cfg) (pre @ CHR ''*'' # suf) w1 = (Inr name, w2)"
    using c1 assms(6-8) n1 unfolding name_def w2_def
    by (simp add: os_CreateTemp_def prefixAndSuffix_star tick_def calm_def Let_def paths_def rs)
  define w3 where "w3 = (w2\<lparr>clock := Suc (clock w2)\<rparr>)\<lparr>files := files w1 @ [(name, data)]\<rparr>"
  have i: "io_Copy name data w2 = (None, w3)"
    using c1 n1
    by (simp add: io_Copy_def tick_def calm_def fs_write_def w3_def w2_def paths_def overwrite_absent)
  have r: "createTempFile cfg data (pre @ CHR ''*'' # suf) w = (Inr name, w3)"
    by (simp add: createTempFile_def m c i)
  then have w': "w' = w3"
    by (simp add: w'_def)
  show "createTempFile cfg data (pre @ CHR ''*'' # suf) w = (Inr name, w')"
    using r w' by simp
  show "files w' = files w @ [(name, data)]"
    by (simp add: w' w3_def mc(2))
  show "set (dirs w) \<subseteq> set (dirs w') \<and> set (dirs w') \<subseteq> set (dirs w) \<union> tmp_chain cfg"
    using mc(3) by (simp add: w' w3_def w2_def tmp_chain_def)
  show "name \<in> set (created w')"
    by (simp add: w' w3_def w2_def)
  show "calm w'"
    using c1 by (simp add: w' w3_def w2_def calm_def)
  show "rand w' = rand w" "seed w' = Suc (seed w)" "uuid w' = uuid w" "useed w' = useed w"
    "rm_fault w' = rm_fault w" "glob_meta w' = glob_meta w"
    using fr by (simp_all add: w' w3_def w2_def)
qed

lemma map_of_fresh_append:
  "p \<notin> fst ` set fs \<Longrightarrow> map_of (fs @ es) p = map_of es p"
  by (simp add: map_of_eq_None_iff[THEN iffD2] map_add_def split: option.splits)

lemma MergePDFs_two_calm:
  assumes m: "lib_Merge lib [pdfA, pdfB] = Inr out" and calm: "calm w"
    and tu: "tempdir_usable cfg w" and fr: "merge_names_fresh cfg w"
  shows "\<exists>w'. MergePDFs lib cfg \<lparr>PDFs = [pdfA, pdfB], OutputName = outputName\<rparr> w = (Inr out, w')"
proof -
  define w1 where "w1 = log_Info ''Merging PDFs'' [(''count'', LInt 2)]
     (span_SetAttributes ''PDFService.MergePDFs'' [(''pdf_count'', LInt 2)] w)"
  define t0 where "t0 = Join (TempDir cfg) (''merge-input-0-'' @ rand w (seed w) @ ''.pdf'')"
  define t1 where "t1 = Join (TempDir cfg) (''merge-input-1-'' @ rand w (Suc (seed w)) @ ''.pdf'')"
  define outputFile where "outputFile = Join (TempDir cfg) (''merge-output-'' @ uuid w (useed w) @ ''.pdf'')"
  have w1: "calm w1" "paths w1 = paths w" "files w1 = files w" "rand w1 = rand w" "seed w1 = seed w"
    "uuid w1 = uuid w" "useed w1 = useed w"
    using calm
    by (simp_all add: w1_def log_Info_def span_SetAttributes_def calm_def paths_def)
  have tmp: "TempDir cfg \<noteq> []" "\<forall>q \<in> tmp_chain cfg. q \<notin> fst ` set (files w)"
    using tu by (simp_all add: tempdir_usable_def)
  have fresh: "t0 \<notin> paths w1" "t1 \<notin> paths w1" "outputFile \<notin> paths w1"
    using fr by (simp_all add: w1(2) t0_def t1_def outputFile_def merge_scratch_names_def
          merge_names_fresh_def)
  have ne: "t1 \<noteq> t0" "outputFile \<noteq> t0" "outputFile \<noteq> t1"
    by (simp_all add: t0_def t1_def outputFile_def)
  define w2 where "w2 = snd (createTempFile cfg pdfA (''merge-input-0-'' @ CHR ''*'' # ''.pdf'') w1)"
  have p0: "calm w1" "TempDir cfg \<noteq> []" "\<forall>q \<in> tmp_chain cfg. q \<notin> fst ` set (files w1)"
    "CHR ''/'' \<notin> set ''merge-input-0-''" "CHR ''/'' \<notin> set ''.pdf''" "CHR ''*'' \<notin> set ''.pdf''"
    "t0 \<notin> paths w1"
    using w1 tmp fresh(1) by simp_all
  note s0 = createTempFile_calm[of w1 cfg "''merge-input-0-''" "''.pdf''" pdfA,
      folded w2_def, unfolded w1(4,5), folded t0_def, OF p0]
  have p1: "calm w2" "TempDir cfg \<noteq> []" "\<forall>q \<in> tmp_chain cfg. q \<notin> fst ` set (files w2)"
    "CHR ''/'' \<notin> set ''merge-input-1-''" "CHR ''/'' \<notin> set ''.pdf''" "CHR ''*'' \<notin> set ''.pdf''"
    "t1 \<notin> paths w2"
    using s0(2,3,5) fresh(2) ne(1) w1(3) tmp by (auto simp: paths_def t0_def t1_def)
  define w3 where "w3 = snd (createTempFile cfg pdfB (''merge-input-1-'' @ CHR ''*'' # ''.pdf'') w2)"
  note s1 = createTempFile_calm[of w2 cfg "''merge-input-1-''" "''.pdf''" pdfB,
      folded w3_def, unfolded s0(6,7) w1(4,5), folded t1_def, OF p1]
  have mi: "merge_inputs cfg 0 [pdfA, pdfB] w1 = (None, [t0, t1], w3)"
    using s0(1) s1(1) by (simp add: Itoa_def nat_dec.simps)
  define w4 where "w4 = w3\<lparr>useed := Suc (useed w3)\<rparr>"
  have un: "uuid_New w3 = (uuid w (useed w), w4)"
    using s0(8,9) s1(8,9) w1 by (simp add: uuid_New_def w4_def)
  have f4: "files w4 = files w1 @ [(t0, pdfA), (t1, pdfB)]" "calm w4"
    using s0(2) s1(2,5) by (simp_all add: w4_def calm_def)
  have keys: "t0 \<notin> fst ` set (files w1)" "t1 \<notin> fst ` set (files w1)" "outputFile \<notin> fst ` set (files w1)"
    using fresh by (simp_all add: paths_def)
  have ri: "read_inputs [t0, t1] (w4\<lparr>clock := Suc (clock w4)\<rparr>) = Some [pdfA, pdfB]"
    using keys ne by (simp add: f4 map_of_fresh_append del: map_of_append)
  define w5 where "w5 = fs_write outputFile out (w4\<lparr>clock := Suc (clock w4)\<rparr>)"
  have mc: "api_MergeCreateFile lib [t0, t1] outputFile w4 = (None, w5)"
    using f4(2) ri m by (simp add: api_MergeCreateFile_def tick_def calm_def w5_def)
  have f5: "files w5 = files w1 @ [(t0, pdfA), (t1, pdfB), (outputFile, out)]" "calm w5"
    using keys ne f4 by (auto simp: w5_def fs_write_def calm_def)
  have rf: "os_ReadFile outputFile w5 = (Inr out, w5\<lparr>clock := Suc (clock w5)\<rparr>)"
    using keys ne f5 by (simp add: os_ReadFile_def tick_def calm_def map_of_fresh_append del: map_of_append)
  show ?thesis
    using mi[unfolded w1_def] un mc[unfolded outputFile_def] rf[unfolded outputFile_def]
    by (simp add: MergePDFs_def deferred_def Let_def)
qed

lemma run_grows:
  assumes "removals_succeed w" "uuid_unused cfg w"
  shows "grows {} (tmp_chain cfg) w (run lib cfg op w)"
proof (cases op)
  case (OpMerge req)
  then show ?thesis
    using assms by (simp add: uuid_unused_def next_outputs_def MergePDFs_grows)
next
  case (OpSplit req)
  then show ?thesis
    using assms by (simp add: uuid_unused_def next_outputs_def SplitPDF_grows)
next
  case (OpExtractText req)
  then show ?thesis
    using assms(1) by (simp add: ExtractText_grows)
next
  case (OpCompress req)
  then show ?thesis
    using assms by (simp add: uuid_unused_def next_outputs_def CompressPDF_grows)
next
  case (OpWatermark req)
  then show ?thesis
    using assms by (simp add: uuid_unused_def next_outputs_def AddWatermark_grows)
next
  case (OpConvert req)
  then show ?thesis
    using assms(1) by (simp add: ConvertToImage_grows)
qed

lemma tmp_chain_not_below: "q \<in> tmp_chain cfg \<Longrightarrow> \<not> prefix (TempDir cfg @ ''/'') q"
proof
  assume "q \<in> tmp_chain cfg" "prefix (TempDir cfg @ ''/'') q"
  then have "length q \<le> length (TempDir cfg)" "length (TempDir cfg @ ''/'') \<le> length q"
    using prefix_length_le[of "TempDir cfg @ ''/''" q]
    by (simp_all add: tmp_chain_def dir_chain_length)
  then show False
    by simp
qed

section \<open>The claims\<close>

subsection \<open>C5: scratch files are removed on every exit path\<close>

text \<open>
  C5. Whatever an operation created is gone when it returns, on the normal return and on
  every error return (a failing call of the environment, a failing library call, with or
  without a partial output left by the library): the files are exactly those before, and
  the directories below the temp directory are exactly those before. The removals
  themselves, whose results the code discards, must succeed, and the UUID of the output
  name must not name something that exists already. The temp directory and its parents,
  which \<^verbatim>\<open>os.MkdirAll\<close> creates when they are missing, are never removed and are not part of
  the statement.
\<close>

theorem scratch_removed_on_every_path:
  assumes "removals_succeed w" "uuid_unused cfg w"
  shows "files (run lib cfg op w) = files w
       \<and> {d \<in> set (dirs (run lib cfg op w)). prefix (TempDir cfg @ ''/'') d}
           = {d \<in> set (dirs w). prefix (TempDir cfg @ ''/'') d}"
proof -
  have g: "grows {} (tmp_chain cfg) w (run lib cfg op w)"
    using assms by (rule run_grows)
  then have "files (run lib cfg op w) = files w"
    by (rule grows_restored)
  moreover have "set (dirs w) \<subseteq> set (dirs (run lib cfg op w))"
    "set (dirs (run lib cfg op w)) \<subseteq> set (dirs w) \<union> tmp_chain cfg"
    using g by (simp_all add: grows_def)
  then have "{d \<in> set (dirs (run lib cfg op w)). prefix (TempDir cfg @ ''/'') d}
           = {d \<in> set (dirs w). prefix (TempDir cfg @ ''/'') d}"
    using tmp_chain_not_below[of _ cfg] by blast
  ultimately show ?thesis
    by simp
qed

text \<open>
  An instance in which the run ends at an error return: the temp directory holds a file
  of somebody else, and every call from the fourth on fails, so that \<open>SplitPDF\<close> writes its
  scratch input and then fails to create the output directory.
\<close>

theorem scratch_removed_on_every_path_witness:
  "removals_succeed (lived_in\<lparr>fault := (\<lambda>n. 3 \<le> n)\<rparr>)
   \<and> uuid_unused config0 (lived_in\<lparr>fault := (\<lambda>n. 3 \<le> n)\<rparr>)
   \<and> files (run mini config0 (OpSplit \<lparr>SplitRequest.PDFData = ''%PDFab'', SplitRequest.PageRange = ''all''\<rparr>)
               (lived_in\<lparr>fault := (\<lambda>n. 3 \<le> n)\<rparr>))
       = [(''/tmp/pdf-tool/keep.pdf'', ''%PDFz'')]
   \<and> {d \<in> set (dirs (run mini config0 (OpSplit \<lparr>SplitRequest.PDFData = ''%PDFab'', SplitRequest.PageRange = ''all''\<rparr>)
                          (lived_in\<lparr>fault := (\<lambda>n. 3 \<le> n)\<rparr>))).
        prefix ''/tmp/pdf-tool/'' d} = {}"
proof -
  define w where "w = lived_in\<lparr>fault := (\<lambda>n. 3 \<le> n)\<rparr>"
  have r: "removals_succeed w"
    by (simp add: w_def removals_succeed_def lived_in_def quiet_def)
  have h: "uuid_unused config0 w"
    by (simp add: w_def uuid_unused_def next_outputs_def lived_in_def quiet_def config0_def paths_def
          under_def Join_def nat_dec.simps)
  have f: "files w = [(''/tmp/pdf-tool/keep.pdf'', ''%PDFz'')]"
    "dirs w = [''/tmp'', ''/tmp/pdf-tool'']"
    "TempDir config0 @ ''/'' = ''/tmp/pdf-tool/''"
    by (simp_all add: w_def lived_in_def quiet_def config0_def)
  have e: "{d \<in> set [''/tmp'', ''/tmp/pdf-tool'']. prefix ''/tmp/pdf-tool/'' d} = {}"
    by auto
  show ?thesis
    using r h scratch_removed_on_every_path[OF r h, of mini
        "OpSplit \<lparr>SplitRequest.PDFData = ''%PDFab'', SplitRequest.PageRange = ''all''\<rparr>"]
    unfolding f e w_def[symmetric] by simp
qed

subsection \<open>C1: merging keeps the input order\<close>

text \<open>
  C1. Let A and B be valid documents with pages \<open>pagesA\<close> and \<open>pagesB\<close>, and let the
  library merge the list \<open>[A, B]\<close> into a document with the pages of A followed by those
  of B. In a world where no call fails, where the temp directory exists or can be
  created, and where the three scratch names of the run are not taken, \<open>MergePDFs\<close> on
  \<open>[A, B]\<close> succeeds and returns what the library made of \<open>[A, B]\<close> in this order: a document
  with the pages of A followed by the pages of B, so as many pages as A and B together.
\<close>

theorem MergePDFs_pages_in_input_order:
  assumes "merge_concatenates pages lib [pdfA, pdfB]"
    and "pages pdfA = Some pagesA" "pages pdfB = Some pagesB"
    and "calm w" "tempdir_usable cfg w" "merge_names_fresh cfg w"
  shows "\<exists>out w'. MergePDFs lib cfg \<lparr>PDFs = [pdfA, pdfB], OutputName = outputName\<rparr> w = (Inr out, w')
           \<and> lib_Merge lib [pdfA, pdfB] = Inr out
           \<and> pages out = Some (pagesA @ pagesB)
           \<and> length (the (pages out)) = length pagesA + length pagesB"
proof -
  obtain out where out: "lib_Merge lib [pdfA, pdfB] = Inr out"
    "pages out = Some (concat (map (\<lambda>b. the (pages b)) [pdfA, pdfB]))"
    using assms(1) unfolding merge_concatenates_def by blast
  obtain w' where "MergePDFs lib cfg \<lparr>PDFs = [pdfA, pdfB], OutputName = outputName\<rparr> w = (Inr out, w')"
    using MergePDFs_two_calm[OF out(1) assms(4,5,6)] by blast
  then show ?thesis
    using out assms(2,3) by simp
qed

theorem MergePDFs_pages_in_input_order_witness:
  "merge_concatenates mini_pages mini [''%PDFabc'', ''%PDFde'']
   \<and> mini_pages ''%PDFabc'' = Some ''abc'' \<and> mini_pages ''%PDFde'' = Some ''de''
   \<and> calm lived_in \<and> tempdir_usable config0 lived_in
   \<and> merge_names_fresh config0 lived_in
   \<and> (\<exists>out w'. MergePDFs mini config0 \<lparr>PDFs = [''%PDFabc'', ''%PDFde''], OutputName = []\<rparr> lived_in = (Inr out, w')
           \<and> lib_Merge mini [''%PDFabc'', ''%PDFde''] = Inr out
           \<and> mini_pages out = Some ''abcde'' \<and> length (the (mini_pages out)) = 5)"
proof -
  have m: "merge_concatenates mini_pages mini [''%PDFabc'', ''%PDFde'']"
    by (simp add: merge_concatenates_def mini_def mini_pages_def mini_doc_def)
  have a: "mini_pages ''%PDFabc'' = Some ''abc''" and b: "mini_pages ''%PDFde'' = Some ''de''"
    by (simp_all add: mini_pages_def)
  have c: "calm lived_in"
    by (simp add: calm_def lived_in_def quiet_def)
  have t: "tempdir_usable config0 lived_in"
    by (simp add: tempdir_usable_def tmp_chain_def dir_chain_def lived_in_def quiet_def config0_def)
  have n: "merge_names_fresh config0 lived_in"
    by (simp add: merge_names_fresh_def merge_scratch_names_def lived_in_def quiet_def config0_def
          paths_def Join_def nat_dec.simps)
  show ?thesis
    using MergePDFs_pages_in_input_order[OF m a b c t n, of "[]"] m a b c t n
    by (simp add: eval_nat_numeral)
qed

subsection \<open>C2: what the validation checks\<close>

lemma short_is_no_signature: "length pdfData < 4 \<Longrightarrow> take 4 pdfData \<noteq> ''%PDF''"
proof
  assume "length pdfData < 4" "take 4 pdfData = ''%PDF''"
  then have "length (take 4 pdfData) = 4"
    by simp
  with \<open>length pdfData < 4\<close> show False
    by simp
qed

text \<open>
  The checks \<open>ValidateRequest\<close> makes: it fails if and only if the data is empty, or longer
  than \<open>MaxFileSize\<close>, or does not start with \<^verbatim>\<open>%PDF\<close>; the three causes are checked in this
  order and give three different errors; \<open>MaxPages\<close> has no influence on the result.
\<close>

lemma ValidateRequest_checks:
  "(ValidateRequest cfg pdfData \<noteq> None \<longleftrightarrow>
      pdfData = [] \<or> int (length pdfData) > MaxFileSize cfg \<or> take 4 pdfData \<noteq> ''%PDF'')
   \<and> (pdfData = [] \<longrightarrow> ValidateRequest cfg pdfData = Some (Err ''PDF data is empty''))
   \<and> (pdfData \<noteq> [] \<and> int (length pdfData) > MaxFileSize cfg \<longrightarrow>
        ValidateRequest cfg pdfData =
          Some (Err (''PDF file too large: '' @ Itoa (int (length pdfData)) @ '' bytes (max ''
                     @ Itoa (MaxFileSize cfg) @ '')'')))
   \<and> (pdfData \<noteq> [] \<and> int (length pdfData) \<le> MaxFileSize cfg \<and> take 4 pdfData \<noteq> ''%PDF'' \<longrightarrow>
        ValidateRequest cfg pdfData = Some (Err ''invalid PDF format''))
   \<and> Err ''PDF data is empty'' \<noteq> Err ''invalid PDF format''
   \<and> Err (''PDF file too large: '' @ tail) \<noteq> Err ''PDF data is empty''
   \<and> Err (''PDF file too large: '' @ tail) \<noteq> Err ''invalid PDF format''
   \<and> ValidateRequest (cfg\<lparr>MaxPages := maxPages\<rparr>) pdfData = ValidateRequest cfg pdfData"
  using short_is_no_signature[of pdfData]
  by (auto simp: ValidateRequest_def)

lemma ValidateRequest_checks_examples:
  "ValidateRequest config0 [] = Some (Err ''PDF data is empty'')
   \<and> ValidateRequest (config0\<lparr>MaxFileSize := 4\<rparr>) ''%PDF-1.4''
       = Some (Err ''PDF file too large: 8 bytes (max 4)'')
   \<and> ValidateRequest config0 ''GIF89a'' = Some (Err ''invalid PDF format'')
   \<and> ValidateRequest config0 ''%PDF-1.4'' = None"
  using ValidateRequest_checks[of config0 "[]"]
    ValidateRequest_checks[of "config0\<lparr>MaxFileSize := 4\<rparr>" "''%PDF-1.4''"]
    ValidateRequest_checks[of config0 "''GIF89a''"]
    ValidateRequest_checks[of config0 "''%PDF-1.4''"]
  by (simp add: config0_def Itoa_def nat_dec.simps)

text \<open>
  C2 asks for a failure when the page count exceeds \<open>MaxPages\<close>. The code does not do
  this: whatever the library, a document that the library parses, with more pages than
  \<open>MaxPages\<close>, passes the validation as soon as it is not empty, within the size limit
  and starts with the signature; and no other value of \<open>MaxPages\<close> makes it fail.
\<close>

theorem ValidateRequest_passes_too_many_pages:
  assumes "lib_ReadContext lib pdfData = Inr ctx2" "MaxPages cfg < ctx_PageCount ctx2"
    and "pdfData \<noteq> []" "int (length pdfData) \<le> MaxFileSize cfg" "take 4 pdfData = ''%PDF''"
  shows "ValidateRequest cfg pdfData = None
       \<and> ValidateRequest (cfg\<lparr>MaxPages := maxPages\<rparr>) pdfData = None"
  using assms(3-5) short_is_no_signature[of pdfData] by (auto simp: ValidateRequest_def)

theorem ValidateRequest_passes_too_many_pages_witness:
  "lib_ReadContext (mini\<lparr>lib_ReadContext := \<lambda>b. Inr \<lparr>ctx_PageCount = 1001, ctx_Info = None, ctx_Encrypt = None\<rparr>\<rparr>)
       ''%PDF-1.4'' = Inr \<lparr>ctx_PageCount = 1001, ctx_Info = None, ctx_Encrypt = None\<rparr>
   \<and> MaxPages config0 < ctx_PageCount \<lparr>ctx_PageCount = 1001, ctx_Info = None, ctx_Encrypt = None\<rparr>
   \<and> ValidateRequest config0 ''%PDF-1.4'' = None
   \<and> ValidateRequest (config0\<lparr>MaxPages := 1\<rparr>) ''%PDF-1.4'' = None"
proof -
  have p: "lib_ReadContext (mini\<lparr>lib_ReadContext := \<lambda>b. Inr \<lparr>ctx_PageCount = 1001, ctx_Info = None, ctx_Encrypt = None\<rparr>\<rparr>)
       ''%PDF-1.4'' = Inr \<lparr>ctx_PageCount = 1001, ctx_Info = None, ctx_Encrypt = None\<rparr>"
    by simp
  have q: "MaxPages config0 < ctx_PageCount \<lparr>ctx_PageCount = 1001, ctx_Info = None, ctx_Encrypt = None\<rparr>"
    by (simp add: config0_def)
  have r: "''%PDF-1.4'' \<noteq> []" "int (length ''%PDF-1.4'') \<le> MaxFileSize config0"
    "take 4 ''%PDF-1.4'' = ''%PDF''"
    by (simp_all add: config0_def)
  show ?thesis
    using ValidateRequest_passes_too_many_pages[OF p q r, of 1] p q by simp
qed

subsection \<open>C6: fewer than two documents\<close>

text \<open>
  C6. With fewer than two documents \<open>MergePDFs\<close> returns its dedicated error before
  anything else than telemetry happens: no call of the environment or the library, no
  file. The handler answers 400 with its own message before it reads a file or calls
  the service, both when the field \<^verbatim>\<open>pdfs\<close> is absent and when it holds fewer than two
  files.
\<close>

theorem MergePDFs_fewer_than_two:
  assumes "length (PDFs req) < 2"
    and "form c = Some f"
    and "length (case map_of f ''pdfs'' of None \<Rightarrow> [] | Some fs \<Rightarrow> fs) < 2"
  shows "MergePDFs lib cfg req w =
           (Inl (Err ''at least 2 PDFs required for merging''),
            w\<lparr>logs := logs w @
                 [SpanAttrs ''PDFService.MergePDFs'' [(''pdf_count'', LInt (int (length (PDFs req))))],
                  LogInfo ''Merging PDFs'' [(''count'', LInt (int (length (PDFs req))))]]\<rparr>)
       \<and> MergePDFs_handler lib cfg c w = (Response 400 (ErrorBody ''At least 2 PDFs required''), w)"
  using assms
  by (simp add: MergePDFs_def MergePDFs_handler_def log_Info_def span_SetAttributes_def Let_def)

theorem MergePDFs_fewer_than_two_witness:
  "MergePDFs mini config0 \<lparr>PDFs = [''%PDF-1.4''], OutputName = []\<rparr> quiet =
           (Inl (Err ''at least 2 PDFs required for merging''),
            quiet\<lparr>logs := [SpanAttrs ''PDFService.MergePDFs'' [(''pdf_count'', LInt 1)],
                            LogInfo ''Merging PDFs'' [(''count'', LInt 1)]]\<rparr>)
   \<and> MergePDFs_handler mini config0 \<lparr>form = Some [(''pdfs'', [Inr ''%PDF-1.4''])], query = []\<rparr> quiet
       = (Response 400 (ErrorBody ''At least 2 PDFs required''), quiet)"
proof -
  have l: "length (PDFs \<lparr>PDFs = [''%PDF-1.4''], OutputName = []\<rparr>) < 2"
    by simp
  have f: "form \<lparr>form = Some [(''pdfs'', [Inr ''%PDF-1.4''])], query = []\<rparr> = Some [(''pdfs'', [Inr ''%PDF-1.4''])]"
    by simp
  have u: "length (case map_of [(''pdfs'', [Inr ''%PDF-1.4''])] ''pdfs'' of None \<Rightarrow> [] | Some (fs :: upload list) \<Rightarrow> fs) < 2"
    by simp
  show ?thesis
    using MergePDFs_fewer_than_two[OF l f u, of mini config0 quiet]
    by (simp add: quiet_def)
qed

subsection \<open>C7: metadata\<close>

text \<open>
  C7 fails on the code. For a document whose information dictionary gives the title
  \<^verbatim>\<open>Annual Report\<close> and the author \<^verbatim>\<open>J. Doe\<close>, \<open>ExtractMetadata\<close> returns the fixed strings
  \<^verbatim>\<open>Document Title\<close> and \<^verbatim>\<open>Document Author\<close>, and leaves the other fields empty.
\<close>

theorem ExtractMetadata_returns_placeholders:
  "fst (ExtractMetadata
          (mini\<lparr>lib_ReadContext := \<lambda>b. Inr \<lparr>ctx_PageCount = 1,
              ctx_Info = Some [(''Title'', ''Annual Report''), (''Author'', ''J. Doe''),
                               (''Producer'', ''pdfTeX'')],
              ctx_Encrypt = None\<rparr>\<rparr>)
          ''%PDFa'' quiet)
   = Inr \<lparr>Title = ''Document Title'', Author = ''Document Author'', Subject = [], Creator = [],
          Producer = [], CreationDate = [], ModDate = [], PageCount = 1, FileSize = 5,
          Encrypted = False\<rparr>"
  by (simp add: ExtractMetadata_def Let_def)

subsection \<open>C8: conversion to images\<close>

lemma ConvertToImage_calm:
  assumes calm: "calm w" and sf: "scratch_free cfg w"
  shows "\<exists>w'. ConvertToImage cfg req w
           = (Inr \<lparr>Images = [], ConvertToImageResponse.PageCount = 0,
                    Format = ConvertToImageRequest.Format req\<rparr>, w')"
proof -
  define w1 where "w1 = log_Info ''Converting PDF to images''
                 [(''format'', LStr (ConvertToImageRequest.Format req)), (''dpi'', LInt (DPI req))]
     (span_SetAttributes ''PDFService.ConvertToImage''
                 [(''format'', LStr (ConvertToImageRequest.Format req)), (''dpi'', LInt (DPI req))] w)"
  define t where "t = Join (TempDir cfg) (''input-'' @ rand w1 (seed w1) @ ''.pdf'')"
  have "scratch_free cfg w1"
    using sf by (simp add: w1_def log_Info_def span_SetAttributes_def scratch_free_def tempdir_usable_def paths_def)
  then have p: "calm w1" "TempDir cfg \<noteq> []" "\<forall>q \<in> tmp_chain cfg. q \<notin> fst ` set (files w1)"
    "CHR ''/'' \<notin> set ''input-''" "CHR ''/'' \<notin> set ''.pdf''" "CHR ''*'' \<notin> set ''.pdf''"
    "t \<notin> paths w1"
    using calm
    by (simp_all add: t_def scratch_free_Join)
       (simp_all add: w1_def log_Info_def span_SetAttributes_def calm_def scratch_free_def
          tempdir_usable_def)
  define w2 where "w2 = snd (createTempFile cfg (ConvertToImageRequest.PDFData req) (''input-'' @ CHR ''*'' # ''.pdf'') w1)"
  note s = createTempFile_calm[of w1 cfg "''input-''" "''.pdf''" "ConvertToImageRequest.PDFData req",
      folded w2_def t_def, OF p]
  show ?thesis
    using s(1)[unfolded w1_def] by (simp add: ConvertToImage_def deferred_def Let_def)
qed

text \<open>
  C8 fails on the code. For a one-page document and the format \<^verbatim>\<open>png\<close> the endpoint answers
  200 with no image and a page count of 0; for the format \<^verbatim>\<open>bmp\<close>, which is not among the
  formats the request type lists (png, jpeg, webp), it answers 200 in the same way
  instead of failing.
\<close>

theorem ConvertToImage_returns_no_image:
  "lib_ReadContext mini ''%PDFa'' = Inr \<lparr>ctx_PageCount = 1, ctx_Info = None, ctx_Encrypt = None\<rparr>
   \<and> fst (ConvertToImage_handler config0
             \<lparr>form = Some [(''pdf'', [Inr ''%PDFa''])], query = [(''format'', ''png'')]\<rparr> quiet)
       = Response 200 (ConvertBody [] 0 ''png'')
   \<and> fst (ConvertToImage_handler config0
             \<lparr>form = Some [(''pdf'', [Inr ''%PDFa''])], query = [(''format'', ''bmp'')]\<rparr> quiet)
       = Response 200 (ConvertBody [] 0 ''bmp'')"
proof -
  have c: "calm quiet" and s: "scratch_free config0 quiet"
    by (simp_all add: calm_def scratch_free_def tempdir_usable_def quiet_def config0_def paths_def)
  have v: "ValidateRequest config0 ''%PDFa'' = None"
    by (simp add: ValidateRequest_def config0_def)
  have d: "parseIntParam c ''dpi'' 150 = 150" if "map_of (query c) ''dpi'' = None" for c
    using that
    by (simp add: parseIntParam_def DefaultQuery_def Atoi_def Itoa_def nat_dec.simps is_digit_def
          digits_val_def)
  have h: "fst (ConvertToImage_handler config0
                  \<lparr>form = Some [(''pdf'', [Inr ''%PDFa''])], query = [(''format'', fmt)]\<rparr> quiet)
           = Response 200 (ConvertBody [] 0 fmt)" for fmt
  proof -
    obtain w' where "ConvertToImage config0
        \<lparr>ConvertToImageRequest.PDFData = ''%PDFa'', ConvertToImageRequest.Format = fmt, DPI = 150,
         ConvertToImageRequest.PageRange = [], Quality = 0\<rparr> quiet
        = (Inr \<lparr>Images = [], ConvertToImageResponse.PageCount = 0, Format = fmt\<rparr>, w')"
      using ConvertToImage_calm[OF c s, of "\<lparr>ConvertToImageRequest.PDFData = ''%PDFa'',
        ConvertToImageRequest.Format = fmt, DPI = 150,
        ConvertToImageRequest.PageRange = [], Quality = 0\<rparr>"] by auto
    then show ?thesis
      using v d[of "\<lparr>form = Some [(''pdf'', [Inr ''%PDFa''])], query = [(''format'', fmt)]\<rparr>"]
      by (simp add: ConvertToImage_handler_def FormFile_def readUploadedFile_def DefaultQuery_def)
  qed
  show ?thesis
    using h[of "''png''"] h[of "''bmp''"] by (simp add: mini_def mini_pages_def)
qed

subsection \<open>C4: validation before the engine\<close>

lemma dir_chain_Join_eq:
  "CHR ''/'' \<notin> set n \<Longrightarrow> d \<noteq> [] \<Longrightarrow> dir_chain (Join d n) = dir_chain d @ [Join d n]"
  by (simp add: dir_chain_def Join_def slash_prefixes_append slash_prefixes_none)

lemma SplitPDF_rejected_calm:
  assumes calm: "calm w" and sf: "scratch_free cfg w" and sl: "CHR ''/'' \<notin> set (uuid w (useed w))"
    and rej: "lib_Split lib (SplitRequest.PDFData req) = Inl e"
  shows "\<exists>w'. SplitPDF lib cfg req w = (Inl (Wrap ''failed to split PDF'' e), w')
           \<and> Join (TempDir cfg) (''split-input-'' @ rand w (seed w) @ ''.pdf'') \<in> set (created w')"
proof -
  define w1 where "w1 = log_Info ''Splitting PDF'' [(''page_range'', LStr (SplitRequest.PageRange req))] w"
  define t where "t = Join (TempDir cfg) (''split-input-'' @ rand w (seed w) @ ''.pdf'')"
  define out where "out = Join (TempDir cfg) (''split-output-'' @ uuid w (useed w))"
  have w1: "rand w1 = rand w" "seed w1 = seed w" "uuid w1 = uuid w" "useed w1 = useed w"
    "files w1 = files w" "dirs w1 = dirs w"
    by (simp_all add: w1_def log_Info_def)
  have tmp: "TempDir cfg \<noteq> []" "\<forall>q \<in> tmp_chain cfg. q \<notin> fst ` set (files w)"
    using sf by (simp_all add: scratch_free_def tempdir_usable_def)
  have fresh: "t \<notin> paths w" "out \<notin> paths w"
    using sf by (simp_all add: t_def out_def scratch_free_Join)
  have ne: "out \<noteq> t" "out \<noteq> []"
    by (simp_all add: t_def out_def Join_def)
  have p: "calm w1" "TempDir cfg \<noteq> []" "\<forall>q \<in> tmp_chain cfg. q \<notin> fst ` set (files w1)"
    "CHR ''/'' \<notin> set ''split-input-''" "CHR ''/'' \<notin> set ''.pdf''" "CHR ''*'' \<notin> set ''.pdf''"
    "t \<notin> paths w1"
    using calm tmp fresh(1) w1 by (simp_all add: calm_def w1_def log_Info_def paths_def)
  define w2 where "w2 = snd (createTempFile cfg (SplitRequest.PDFData req) (''split-input-'' @ CHR ''*'' # ''.pdf'') w1)"
  note s = createTempFile_calm[of w1 cfg "''split-input-''" "''.pdf''" "SplitRequest.PDFData req",
      folded w2_def, unfolded w1(1,2), folded t_def, OF p]
  define w3 where "w3 = w2\<lparr>useed := Suc (useed w2)\<rparr>"
  have un: "uuid_New w2 = (uuid w (useed w), w3)"
    using s(8,9) w1 by (simp add: uuid_New_def w3_def)
  have f3: "files w3 = files w @ [(t, SplitRequest.PDFData req)]" "calm w3" "t \<in> set (created w3)"
    using s(2,4,5) w1 by (simp_all add: w3_def calm_def)
  define w4 where "w4 = snd (os_MkdirAll out w3)"
  have ch: "dir_chain out = dir_chain (TempDir cfg) @ [out]"
    unfolding out_def using sl tmp(1) by (intro dir_chain_Join_eq) simp_all
  have "\<forall>q \<in> set (dir_chain out). q \<notin> fst ` set (files w3)"
    using fresh(2) ne(1) tmp(2) unfolding ch f3 t_def
    by (auto simp: paths_def tmp_chain_def Join_notin_dir_chain)
  note m = MkdirAll_calm[OF f3(2) ne(2) this, folded w4_def]
  have mk: "os_MkdirAll out w3 = (None, w4)"
    and f4: "files w4 = files w3" "calm w4" "t \<in> set (created w4)"
    using m f3(3) by auto
  have look: "map_of (files w4) t = Some (SplitRequest.PDFData req)"
    using fresh(1) by (simp add: f4 f3 paths_def map_of_fresh_append del: map_of_append)
  define w5 where "w5 = w4\<lparr>clock := Suc (Suc (clock w4))\<rparr>"
  have sp: "api_SplitFile lib t out w4 = (Some e, w5)"
    using f4(2) look rej by (simp add: api_SplitFile_def leftover_def tick_def calm_def w5_def)
  have "t \<in> set (created (os_Remove t (os_RemoveAll out w5)))"
    using f4(3) by (auto simp: os_Remove_def os_RemoveAll_def rm_tick_def w5_def)
  moreover have "SplitPDF lib cfg req w
      = (Inl (Wrap ''failed to split PDF'' e), os_Remove t (os_RemoveAll out w5))"
    using s(1)[unfolded w1_def] un mk[unfolded out_def] sp[unfolded out_def]
    by (simp add: SplitPDF_def deferred_def Let_def out_def)
  ultimately show ?thesis
    unfolding t_def by blast
qed

text \<open>
  C4 fails on the code. The bytes \<^verbatim>\<open>GIF89a\<close> sent to the split endpoint are not validated:
  the handler calls the service, which writes them to a scratch file before the library
  rejects them, and the answer is 500. The convert endpoint, which does call
  \<open>ValidateRequest\<close>, answers 400 on the same bytes and touches nothing.
\<close>

theorem SplitPDF_handler_skips_validation:
  "fst (SplitPDF_handler mini config0 \<lparr>form = Some [(''pdf'', [Inr ''GIF89a''])], query = []\<rparr> quiet)
     = Response 500 (ErrorBody ''Split failed'')
   \<and> ''/tmp/pdf-tool/split-input-4170.pdf''
       \<in> set (created (snd (SplitPDF_handler mini config0
                               \<lparr>form = Some [(''pdf'', [Inr ''GIF89a''])], query = []\<rparr> quiet)))
   \<and> ConvertToImage_handler config0 \<lparr>form = Some [(''pdf'', [Inr ''GIF89a''])], query = []\<rparr> quiet
       = (Response 400 (ErrorBody ''invalid PDF format''), quiet)"
proof -
  have c: "calm quiet" and s: "scratch_free config0 quiet"
    by (simp_all add: calm_def scratch_free_def tempdir_usable_def quiet_def config0_def paths_def)
  have r: "lib_Split mini (SplitRequest.PDFData
             \<lparr>SplitRequest.PDFData = ''GIF89a'', SplitRequest.PageRange = ''all''\<rparr>) = Inl (Err ''not a PDF'')"
    by (simp add: mini_def mini_pages_def)
  have u: "CHR ''/'' \<notin> set (uuid quiet (useed quiet))"
    by (simp add: quiet_def nat_dec.simps)
  obtain w' where run: "SplitPDF mini config0
        \<lparr>SplitRequest.PDFData = ''GIF89a'', SplitRequest.PageRange = ''all''\<rparr> quiet
        = (Inl (Wrap ''failed to split PDF'' (Err ''not a PDF'')), w')"
    and cr: "Join (TempDir config0) (''split-input-'' @ rand quiet (seed quiet) @ ''.pdf'') \<in> set (created w')"
    using SplitPDF_rejected_calm[OF c s u r] by blast
  have n: "Join (TempDir config0) (''split-input-'' @ rand quiet (seed quiet) @ ''.pdf'')
           = ''/tmp/pdf-tool/split-input-4170.pdf''"
    by (simp add: Join_def config0_def quiet_def nat_dec.simps)
  have v: "ValidateRequest config0 ''GIF89a'' = Some (Err ''invalid PDF format'')"
    by (simp add: ValidateRequest_def config0_def)
  show ?thesis
    using run cr[unfolded n] v
    by (simp add: SplitPDF_handler_def ConvertToImage_handler_def FormFile_def readUploadedFile_def
          DefaultQuery_def log_Error_def)
qed

subsection \<open>Runs that differ in their telemetry only\<close>

named_theorems agree_intros

lemma erase_eqD:
  assumes "erase w = erase v"
  shows "v = w\<lparr>logs := logs v\<rparr>"
proof -
  have "v = (erase v)\<lparr>logs := logs v\<rparr>"
    by (simp add: erase_def)
  also have "\<dots> = (erase w)\<lparr>logs := logs v\<rparr>"
    using assms by simp
  also have "\<dots> = w\<lparr>logs := logs v\<rparr>"
    by (simp add: erase_def)
  finally show ?thesis .
qed

lemma agree_pair [agree_intros]: "erase w = erase v \<Longrightarrow> agree (r, w) (r, v)"
  by (simp add: agree_def)

lemma agree_case_prod [agree_intros]:
  assumes "agree p q" "\<And>r w' v'. erase w' = erase v' \<Longrightarrow> agree (f r w') (g r v')"
  shows "agree (case p of (r, w') \<Rightarrow> f r w') (case q of (r, v') \<Rightarrow> g r v')"
proof -
  obtain r w' where p: "p = (r, w')"
    by (cases p)
  obtain r' v' where q: "q = (r', v')"
    by (cases q)
  have "r' = r" "erase w' = erase v'"
    using assms(1) p q by (simp_all add: agree_def)
  then show ?thesis
    using assms(2)[of w' v' r] p q by simp
qed

lemma agree_case_sum [agree_intros]:
  assumes "\<And>e. agree (f1 e) (g1 e)" "\<And>x. agree (f2 x) (g2 x)"
  shows "agree (case s of Inl e \<Rightarrow> f1 e | Inr x \<Rightarrow> f2 x) (case s of Inl e \<Rightarrow> g1 e | Inr x \<Rightarrow> g2 x)"
  using assms by (cases s) simp_all

lemma agree_case_option [agree_intros]:
  assumes "agree a b" "\<And>x. agree (f x) (g x)"
  shows "agree (case s of None \<Rightarrow> a | Some x \<Rightarrow> f x) (case s of None \<Rightarrow> b | Some x \<Rightarrow> g x)"
  using assms by (cases s) simp_all

lemma agree_deferred [agree_intros]:
  assumes "\<And>w v. erase w = erase v \<Longrightarrow> erase (c w) = erase (c v)" "agree p q"
  shows "agree (deferred c p) (deferred c q)"
proof -
  have "erase (snd p) = erase (snd q)" "fst p = fst q"
    using assms(2) by (simp_all add: agree_def)
  then show ?thesis
    using assms(1)[of "snd p" "snd q"] by (simp add: agree_def deferred_def)
qed

lemma erase_log_Info [agree_intros]:
  "erase w = erase v \<Longrightarrow> erase (log_Info m kv w) = erase (log_Info m' kv' v)"
  by (simp add: erase_def log_Info_def)

lemma erase_span_SetAttributes [agree_intros]:
  "erase w = erase v \<Longrightarrow> erase (span_SetAttributes m kv w) = erase (span_SetAttributes m' kv' v)"
  by (simp add: erase_def span_SetAttributes_def)

lemma erase_log_Error [agree_intros]:
  "erase w = erase v \<Longrightarrow> erase (log_Error m kv w) = erase (log_Error m' kv' v)"
  by (simp add: erase_def log_Error_def)

lemma erase_Remove [agree_intros]:
  assumes "erase w = erase v"
  shows "erase (os_Remove p w) = erase (os_Remove p v)"
  by (subst erase_eqD[OF assms]) (auto simp: erase_def os_Remove_def rm_tick_def paths_def)

lemma erase_RemoveAll [agree_intros]:
  assumes "erase w = erase v"
  shows "erase (os_RemoveAll p w) = erase (os_RemoveAll p v)"
  by (subst erase_eqD[OF assms]) (simp add: erase_def os_RemoveAll_def rm_tick_def)

lemma Glob_pdf_erase:
  assumes "erase w = erase v"
  shows "Glob_pdf d w = Glob_pdf d v"
  by (subst erase_eqD[OF assms]) (simp add: Glob_pdf_def)

lemma agree_case_Glob [agree_intros]:
  assumes "erase w = erase v" "\<And>e. agree (f1 e) (g1 e)" "\<And>x. agree (f2 x) (g2 x)"
  shows "agree (case Glob_pdf d w of Inl e \<Rightarrow> f1 e | Inr x \<Rightarrow> f2 x)
               (case Glob_pdf d v of Inl e \<Rightarrow> g1 e | Inr x \<Rightarrow> g2 x)"
  unfolding Glob_pdf_erase[OF assms(1)] using assms(2,3) by (rule agree_case_sum)

lemma agree_uuid_New [agree_intros]:
  assumes "erase w = erase v"
  shows "agree (uuid_New w) (uuid_New v)"
  by (subst erase_eqD[OF assms]) (simp add: agree_def erase_def uuid_New_def)

lemma erase_fields:
  assumes "erase w = erase v"
  shows "files w = files v" "dirs w = dirs v" "fault w = fault v" "clock w = clock v"
    "created w = created v"
  by (subst erase_eqD[OF assms], simp)+

lemma erase_clock:
  assumes "erase w = erase v"
  shows "erase (w\<lparr>clock := c\<rparr>) = erase (v\<lparr>clock := c\<rparr>)"
  by (subst erase_eqD[OF assms]) (simp add: erase_def)

lemma erase_mkdir:
  assumes "erase w = erase v"
  shows "erase (w\<lparr>clock := c, dirs := ds, created := cs\<rparr>) = erase (v\<lparr>clock := c, dirs := ds, created := cs\<rparr>)"
  by (subst erase_eqD[OF assms]) (simp add: erase_def)

lemma agree_mkdir_chain:
  "erase w = erase v \<Longrightarrow> agree (mkdir_chain qs w) (mkdir_chain qs v)"
proof (induction qs)
  case Nil
  then show ?case
    by (simp add: agree_def)
next
  case (Cons q up)
  note f = erase_fields[OF Cons.prems]
  obtain r1 w1 where a: "mkdir_chain up w = (r1, w1)"
    by (cases "mkdir_chain up w")
  obtain r2 v1 where b: "mkdir_chain up v = (r2, v1)"
    by (cases "mkdir_chain up v")
  have e: "r2 = r1" "erase w1 = erase v1"
    using Cons.IH[OF Cons.prems] a b by (simp_all add: agree_def)
  note g = erase_fields[OF e(2)]
  have "erase (w1\<lparr>clock := Suc (clock w1)\<rparr>) = erase (v1\<lparr>clock := Suc (clock w1)\<rparr>)"
    "erase (w1\<lparr>clock := Suc (clock w1), dirs := dirs w1 @ [q], created := created w1 @ [q]\<rparr>)
     = erase (v1\<lparr>clock := Suc (clock w1), dirs := dirs w1 @ [q], created := created w1 @ [q]\<rparr>)"
    using e(2) by (rule erase_clock, rule erase_mkdir)
  then show ?case
    using Cons.prems f a b e g by (cases r1) (simp_all add: agree_def tick_def)
qed

lemma agree_MkdirAll [agree_intros]:
  assumes "erase w = erase v"
  shows "agree (os_MkdirAll d w) (os_MkdirAll d v)"
proof -
  note f = erase_fields[OF assms]
  have "agree (mkdir_chain (rev (dir_chain d)) (w\<lparr>clock := Suc (clock w)\<rparr>))
              (mkdir_chain (rev (dir_chain d)) (v\<lparr>clock := Suc (clock w)\<rparr>))"
    using assms by (intro agree_mkdir_chain erase_clock)
  then show ?thesis
    using f erase_clock[OF assms, of "Suc (clock w)"]
    by (auto simp: os_MkdirAll_def tick_def agree_def)
qed

lemma agree_ReadFile [agree_intros]:
  assumes "erase w = erase v"
  shows "agree (os_ReadFile p w) (os_ReadFile p v)"
  by (subst erase_eqD[OF assms])
     (simp add: agree_def erase_def os_ReadFile_def tick_def split: option.splits)

lemma agree_CreateTemp [agree_intros]:
  assumes "erase w = erase v"
  shows "agree (os_CreateTemp dir pat w) (os_CreateTemp dir pat v)"
  by (subst erase_eqD[OF assms])
     (simp add: agree_def erase_def os_CreateTemp_def tick_def paths_def Let_def split: prod.splits)

lemma fs_write_logs: "fs_write p d (w\<lparr>logs := l\<rparr>) = (fs_write p d w)\<lparr>logs := l\<rparr>"
  by (simp add: fs_write_def)

lemma agree_Copy [agree_intros]:
  assumes "erase w = erase v"
  shows "agree (io_Copy name data w) (io_Copy name data v)"
  by (subst erase_eqD[OF assms])
     (simp add: agree_def erase_def io_Copy_def tick_def fs_write_def)

lemma agree_createTempFile [agree_intros]:
  assumes "erase w = erase v"
  shows "agree (createTempFile cfg data pat w) (createTempFile cfg data pat v)"
  unfolding createTempFile_def
  by (rule agree_intros assms | assumption)+

lemma agree_OptimizeFile [agree_intros]:
  assumes "erase w = erase v"
  shows "agree (api_OptimizeFile lib i out w) (api_OptimizeFile lib i out v)"
  by (subst erase_eqD[OF assms])
     (simp add: agree_def erase_def api_OptimizeFile_def leftover_def tick_def fs_write_def
        split: option.splits sum.splits)

lemma write_pages_logs:
  "write_pages lib i d n pgs (w\<lparr>logs := l\<rparr>) = (write_pages lib i d n pgs w)\<lparr>logs := l\<rparr>"
proof (induction pgs arbitrary: n w)
  case Nil
  show ?case by simp
next
  case (Cons pg pgs)
  show ?case
    unfolding write_pages.simps fs_write_logs by (rule Cons.IH)
qed

lemma logs_clock_swap: "w\<lparr>logs := l, clock := c\<rparr> = w\<lparr>clock := c, logs := l\<rparr>"
  by (cases w) simp

lemma agree_SplitFile [agree_intros]:
  assumes "erase w = erase v"
  shows "agree (api_SplitFile lib i d w) (api_SplitFile lib i d v)"
  by (subst erase_eqD[OF assms])
     (simp add: agree_def erase_def api_SplitFile_def leftover_def tick_def fs_write_def
        logs_clock_swap write_pages_logs split: option.splits sum.splits)

lemma agree_read_split_files [agree_intros]:
  "erase w = erase v \<Longrightarrow> fs = fs' \<Longrightarrow> agree (read_split_files fs w) (read_split_files fs' v)"
proof (induction fs arbitrary: w v fs')
  case Nil
  then show ?case
    by (simp add: agree_def)
next
  case (Cons f fs)
  have "agree (read_split_files (f # fs) w) (read_split_files (f # fs) v)"
    unfolding read_split_files.simps
    by (rule agree_intros Cons.IH Cons.prems refl | assumption)+
  then show ?case
    using Cons.prems(2) by simp
qed

lemma agree_SplitPDF [agree_intros]:
  assumes "erase w = erase v"
  shows "agree (SplitPDF lib cfg \<lparr>SplitRequest.PDFData = pdfData, SplitRequest.PageRange = range1\<rparr> w)
               (SplitPDF lib cfg \<lparr>SplitRequest.PDFData = pdfData, SplitRequest.PageRange = range2\<rparr> v)"
  unfolding SplitPDF_def Let_def SplitRequest.simps
  by (rule agree_intros assms refl | assumption)+

lemma agree_CompressPDF [agree_intros]:
  assumes "erase w = erase v"
  shows "agree (CompressPDF lib cfg \<lparr>CompressRequest.PDFData = pdfData, CompressRequest.CompressionLevel = level1\<rparr> w)
               (CompressPDF lib cfg \<lparr>CompressRequest.PDFData = pdfData, CompressRequest.CompressionLevel = level2\<rparr> v)"
  unfolding CompressPDF_def Let_def CompressRequest.simps
  by (rule agree_intros assms | assumption)+

lemma agree_SplitPDF_handler:
  "agree (SplitPDF_handler lib cfg (c\<lparr>query := query1\<rparr>) w)
         (SplitPDF_handler lib cfg (c\<lparr>query := query2\<rparr>) w)"
proof -
  have f: "FormFile (c\<lparr>query := q\<rparr>) name = FormFile c name" for q name
    by (simp add: FormFile_def)
  show ?thesis
    unfolding SplitPDF_handler_def Let_def f
    by (rule agree_intros refl | assumption)+
qed

lemma agree_CompressPDF_handler:
  "agree (CompressPDF_handler lib cfg (c\<lparr>query := query1\<rparr>) w)
         (CompressPDF_handler lib cfg (c\<lparr>query := query2\<rparr>) w)"
proof -
  have f: "FormFile (c\<lparr>query := q\<rparr>) name = FormFile c name" for q name
    by (simp add: FormFile_def)
  show ?thesis
    unfolding CompressPDF_handler_def Let_def f
    by (rule agree_intros refl | assumption)+
qed

subsection \<open>C9 and C10: parameters that reach the log only\<close>

text \<open>
  C9. For every document and any two page-range strings, \<open>SplitPDF\<close> returns the same
  result (the same blobs in the same order, or the same error) and leaves the same world
  but for the log, which records the page range. The same holds for the endpoint and
  any two query strings.
\<close>

theorem SplitPDF_ignores_PageRange:
  "fst (SplitPDF lib cfg \<lparr>SplitRequest.PDFData = pdfData, SplitRequest.PageRange = range1\<rparr> w)
     = fst (SplitPDF lib cfg \<lparr>SplitRequest.PDFData = pdfData, SplitRequest.PageRange = range2\<rparr> w)
   \<and> erase (snd (SplitPDF lib cfg \<lparr>SplitRequest.PDFData = pdfData, SplitRequest.PageRange = range1\<rparr> w))
     = erase (snd (SplitPDF lib cfg \<lparr>SplitRequest.PDFData = pdfData, SplitRequest.PageRange = range2\<rparr> w))
   \<and> fst (SplitPDF_handler lib cfg (c\<lparr>query := query1\<rparr>) w)
     = fst (SplitPDF_handler lib cfg (c\<lparr>query := query2\<rparr>) w)
   \<and> erase (snd (SplitPDF_handler lib cfg (c\<lparr>query := query1\<rparr>) w))
     = erase (snd (SplitPDF_handler lib cfg (c\<lparr>query := query2\<rparr>) w))"
proof -
  have "agree (SplitPDF lib cfg \<lparr>SplitRequest.PDFData = pdfData, SplitRequest.PageRange = range1\<rparr> w)
              (SplitPDF lib cfg \<lparr>SplitRequest.PDFData = pdfData, SplitRequest.PageRange = range2\<rparr> w)"
    by (rule agree_SplitPDF) (rule refl)
  moreover have "agree (SplitPDF_handler lib cfg (c\<lparr>query := query1\<rparr>) w)
                       (SplitPDF_handler lib cfg (c\<lparr>query := query2\<rparr>) w)"
    by (rule agree_SplitPDF_handler)
  ultimately show ?thesis
    by (simp add: agree_def)
qed

theorem SplitPDF_ignores_PageRange_witness:
  "fst (SplitPDF mini config0 \<lparr>SplitRequest.PDFData = ''%PDFab'', SplitRequest.PageRange = ''all''\<rparr> quiet)
     = fst (SplitPDF mini config0 \<lparr>SplitRequest.PDFData = ''%PDFab'', SplitRequest.PageRange = ''1-3''\<rparr> quiet)
   \<and> erase (snd (SplitPDF mini config0 \<lparr>SplitRequest.PDFData = ''%PDFab'', SplitRequest.PageRange = ''all''\<rparr> quiet))
     = erase (snd (SplitPDF mini config0 \<lparr>SplitRequest.PDFData = ''%PDFab'', SplitRequest.PageRange = ''1-3''\<rparr> quiet))
   \<and> fst (SplitPDF_handler mini config0
             (\<lparr>form = Some [(''pdf'', [Inr ''%PDFab''])], query = []\<rparr>\<lparr>query := [(''pages'', ''all'')]\<rparr>) quiet)
     = fst (SplitPDF_handler mini config0
             (\<lparr>form = Some [(''pdf'', [Inr ''%PDFab''])], query = []\<rparr>\<lparr>query := [(''pages'', ''1-3'')]\<rparr>) quiet)
   \<and> erase (snd (SplitPDF_handler mini config0
             (\<lparr>form = Some [(''pdf'', [Inr ''%PDFab''])], query = []\<rparr>\<lparr>query := [(''pages'', ''all'')]\<rparr>) quiet))
     = erase (snd (SplitPDF_handler mini config0
             (\<lparr>form = Some [(''pdf'', [Inr ''%PDFab''])], query = []\<rparr>\<lparr>query := [(''pages'', ''1-3'')]\<rparr>) quiet))"
  by (rule SplitPDF_ignores_PageRange)

text \<open>
  C10. For every document and any two compression levels, \<open>CompressPDF\<close> returns the same
  bytes (or the same error) and leaves the same world but for the span attribute and the
  log entry, which record the level; the level is not passed to the optimisation. The
  same holds for the endpoint and any two query strings.
\<close>

theorem CompressPDF_ignores_CompressionLevel:
  "fst (CompressPDF lib cfg \<lparr>CompressRequest.PDFData = pdfData, CompressRequest.CompressionLevel = level1\<rparr> w)
     = fst (CompressPDF lib cfg \<lparr>CompressRequest.PDFData = pdfData, CompressRequest.CompressionLevel = level2\<rparr> w)
   \<and> erase (snd (CompressPDF lib cfg \<lparr>CompressRequest.PDFData = pdfData, CompressRequest.CompressionLevel = level1\<rparr> w))
     = erase (snd (CompressPDF lib cfg \<lparr>CompressRequest.PDFData = pdfData, CompressRequest.CompressionLevel = level2\<rparr> w))
   \<and> fst (CompressPDF_handler lib cfg (c\<lparr>query := query1\<rparr>) w)
     = fst (CompressPDF_handler lib cfg (c\<lparr>query := query2\<rparr>) w)
   \<and> erase (snd (CompressPDF_handler lib cfg (c\<lparr>query := query1\<rparr>) w))
     = erase (snd (CompressPDF_handler lib cfg (c\<lparr>query := query2\<rparr>) w))"
proof -
  have "agree (CompressPDF lib cfg \<lparr>CompressRequest.PDFData = pdfData, CompressRequest.CompressionLevel = level1\<rparr> w)
              (CompressPDF lib cfg \<lparr>CompressRequest.PDFData = pdfData, CompressRequest.CompressionLevel = level2\<rparr> w)"
    by (rule agree_CompressPDF) (rule refl)
  moreover have "agree (CompressPDF_handler lib cfg (c\<lparr>query := query1\<rparr>) w)
                       (CompressPDF_handler lib cfg (c\<lparr>query := query2\<rparr>) w)"
    by (rule agree_CompressPDF_handler)
  ultimately show ?thesis
    by (simp add: agree_def)
qed

theorem CompressPDF_ignores_CompressionLevel_witness:
  "fst (CompressPDF mini config0 \<lparr>CompressRequest.PDFData = ''%PDFab'', CompressRequest.CompressionLevel = 1\<rparr> quiet)
     = fst (CompressPDF mini config0 \<lparr>CompressRequest.PDFData = ''%PDFab'', CompressRequest.CompressionLevel = 3\<rparr> quiet)
   \<and> erase (snd (CompressPDF mini config0 \<lparr>CompressRequest.PDFData = ''%PDFab'', CompressRequest.CompressionLevel = 1\<rparr> quiet))
     = erase (snd (CompressPDF mini config0 \<lparr>CompressRequest.PDFData = ''%PDFab'', CompressRequest.CompressionLevel = 3\<rparr> quiet))
   \<and> fst (CompressPDF_handler mini config0
             (\<lparr>form = Some [(''pdf'', [Inr ''%PDFab''])], query = []\<rparr>\<lparr>query := [(''level'', ''1'')]\<rparr>) quiet)
     = fst (CompressPDF_handler mini config0
             (\<lparr>form = Some [(''pdf'', [Inr ''%PDFab''])], query = []\<rparr>\<lparr>query := [(''level'', ''3'')]\<rparr>) quiet)
   \<and> erase (snd (CompressPDF_handler mini config0
             (\<lparr>form = Some [(''pdf'', [Inr ''%PDFab''])], query = []\<rparr>\<lparr>query := [(''level'', ''1'')]\<rparr>) quiet))
     = erase (snd (CompressPDF_handler mini config0
             (\<lparr>form = Some [(''pdf'', [Inr ''%PDFab''])], query = []\<rparr>\<lparr>query := [(''level'', ''3'')]\<rparr>) quiet))"
  by (rule CompressPDF_ignores_CompressionLevel)

subsection \<open>C3: the order of the split output\<close>

lemma length_page_files [simp]: "length (page_files lib i n pgs) = length pgs"
  by (induction pgs arbitrary: n) simp_all

lemma write_pages_files:
  assumes "distinct (page_files lib i n pgs)"
    and "\<forall>x \<in> set (page_files lib i n pgs). Join d x \<notin> fst ` set (files w)"
  shows "files (write_pages lib i d n pgs w) = files w @ zip (map (Join d) (page_files lib i n pgs)) pgs
       \<and> dirs (write_pages lib i d n pgs w) = dirs w
       \<and> fault (write_pages lib i d n pgs w) = fault w"
  using assms
proof (induction pgs arbitrary: n w)
  case Nil
  then show ?case by simp
next
  case (Cons pg pgs)
  define p where "p = Join d (lib_spanFileName lib i n)"
  define w1 where "w1 = fs_write p pg w"
  have fresh: "p \<notin> fst ` set (files w)"
    using Cons.prems(2) by (simp add: p_def)
  then have w1: "files w1 = files w @ [(p, pg)]" "dirs w1 = dirs w" "fault w1 = fault w"
    by (simp_all add: w1_def fs_write_def)
  have d: "distinct (page_files lib i (Suc n) pgs)"
    using Cons.prems(1) by simp
  have f: "\<forall>x \<in> set (page_files lib i (Suc n) pgs). Join d x \<notin> fst ` set (files w1)"
    using Cons.prems by (auto simp: w1 p_def)
  show ?case
    using Cons.IH[OF d f] w1 by (simp add: w1_def p_def)
qed

lemma map_of_zip_Join:
  "map_of (zip (map (Join d) ns) ps) (Join d n) = map_of (zip ns ps) n"
  by (induction ns arbitrary: ps) (auto split: list.splits simp: zip_Cons1)

lemma read_split_files_calm:
  assumes "calm w" "\<forall>f \<in> set fs. map_of (files w) f \<noteq> None"
  shows "\<exists>w'. read_split_files fs w = (Inr (map (\<lambda>f. the (map_of (files w) f)) fs), w')"
  using assms
proof (induction fs arbitrary: w)
  case Nil
  then show ?case by simp
next
  case (Cons f fs)
  obtain d where d: "map_of (files w) f = Some d"
    using Cons.prems(2) by auto
  define w1 where "w1 = w\<lparr>clock := Suc (clock w)\<rparr>"
  have r: "os_ReadFile f w = (Inr d, w1)"
    using Cons.prems(1) d by (simp add: os_ReadFile_def tick_def calm_def w1_def)
  have w1: "calm w1" "files w1 = files w"
    using Cons.prems(1) by (simp_all add: w1_def calm_def)
  obtain w' where "read_split_files fs w1 = (Inr (map (\<lambda>f. the (map_of (files w1) f)) fs), w')"
    using Cons.IH[of w1] w1 Cons.prems(2) by auto
  then show ?case
    using r d w1 by simp
qed

lemma SplitPDF_calm:
  assumes calm: "calm w" and sf: "scratch_free cfg w"
    and sl: "CHR ''/'' \<notin> set (uuid w (useed w))"
    and nometa: "\<not> hasMeta (Join (TempDir cfg) (''split-output-'' @ uuid w (useed w)))"
    and split: "lib_Split lib (SplitRequest.PDFData req) = Inr pgs"
    and names: "names = page_files lib (Join (TempDir cfg) (''split-input-'' @ rand w (seed w) @ ''.pdf'')) 1 pgs"
    and dist: "distinct names"
    and valid: "\<forall>n \<in> set names. CHR ''/'' \<notin> set n \<and> HasSuffix n ''.pdf''"
  shows "\<exists>w'. SplitPDF lib cfg req w = (Inr (map (\<lambda>n. the (map_of (zip names pgs) n)) (sort names)), w')"
proof -
  define w1 where "w1 = log_Info ''Splitting PDF'' [(''page_range'', LStr (SplitRequest.PageRange req))] w"
  define t where "t = Join (TempDir cfg) (''split-input-'' @ rand w (seed w) @ ''.pdf'')"
  define out where "out = Join (TempDir cfg) (''split-output-'' @ uuid w (useed w))"
  have w1: "rand w1 = rand w" "seed w1 = seed w" "uuid w1 = uuid w" "useed w1 = useed w"
    "files w1 = files w" "dirs w1 = dirs w"
    by (simp_all add: w1_def log_Info_def)
  have tmp: "TempDir cfg \<noteq> []" "\<forall>q \<in> tmp_chain cfg. q \<notin> fst ` set (files w)"
    using sf by (simp_all add: scratch_free_def tempdir_usable_def)
  have fresh: "t \<notin> paths w" "out \<notin> paths w"
    using sf by (simp_all add: t_def out_def scratch_free_Join)
  have ne: "out \<noteq> t" "out \<noteq> []"
    by (simp_all add: t_def out_def Join_def)
  have below: "\<not> prefix (out @ ''/'') p" if "p \<in> paths w" for p
  proof
    assume "prefix (out @ ''/'') p"
    moreover have "prefix (TempDir cfg @ ''/'') (out @ ''/'')"
      by (simp add: out_def Join_def)
    ultimately have "prefix (TempDir cfg @ ''/'') p"
      by (rule prefix_order.trans[rotated])
    then show False
      using sf that by (simp add: scratch_free_def)
  qed
  have notin: "\<not> prefix (out @ ''/'') t" "\<not> prefix (out @ ''/'') (TempDir cfg)" "\<not> prefix (out @ ''/'') out"
    by (simp_all add: t_def out_def Join_def prefix_def)
  have notin_chain: "\<not> prefix (out @ ''/'') q" if "q \<in> tmp_chain cfg" for q
  proof
    assume "prefix (out @ ''/'') q"
    then have "length (out @ ''/'') \<le> length q"
      by (rule prefix_length_le)
    moreover have "length q \<le> length (TempDir cfg)"
      using that by (simp add: tmp_chain_def dir_chain_length)
    ultimately show False
      by (simp add: out_def Join_def)
  qed
  have ch: "dir_chain out = dir_chain (TempDir cfg) @ [out]"
    unfolding out_def using sl tmp(1) by (intro dir_chain_Join_eq) simp_all
  have p: "calm w1" "TempDir cfg \<noteq> []" "\<forall>q \<in> tmp_chain cfg. q \<notin> fst ` set (files w1)"
    "CHR ''/'' \<notin> set ''split-input-''" "CHR ''/'' \<notin> set ''.pdf''" "CHR ''*'' \<notin> set ''.pdf''"
    "t \<notin> paths w1"
    using calm tmp fresh(1) w1 by (simp_all add: calm_def w1_def log_Info_def paths_def)
  define w2 where "w2 = snd (createTempFile cfg (SplitRequest.PDFData req) (''split-input-'' @ CHR ''*'' # ''.pdf'') w1)"
  note s = createTempFile_calm[of w1 cfg "''split-input-''" "''.pdf''" "SplitRequest.PDFData req",
      folded w2_def, unfolded w1(1,2), folded t_def, OF p]
  define w3 where "w3 = w2\<lparr>useed := Suc (useed w2)\<rparr>"
  have un: "uuid_New w2 = (uuid w (useed w), w3)"
    using s(8,9) w1 by (simp add: uuid_New_def w3_def)
  have f3: "files w3 = files w @ [(t, SplitRequest.PDFData req)]" "calm w3"
    "set (dirs w3) \<subseteq> set (dirs w) \<union> tmp_chain cfg" "glob_meta w3 = glob_meta w"
    using s(2,3,5,11) w1 by (simp_all add: w3_def calm_def w1_def log_Info_def)
  define w4 where "w4 = snd (os_MkdirAll out w3)"
  have "\<forall>q \<in> set (dir_chain out). q \<notin> fst ` set (files w3)"
    using fresh(2) ne(1) tmp(2) unfolding ch f3(1) t_def
    by (auto simp: paths_def tmp_chain_def Join_notin_dir_chain)
  note m = MkdirAll_calm[OF f3(2) ne(2) this, folded w4_def]
  have look: "map_of (files w4) t = Some (SplitRequest.PDFData req)"
    using fresh(1) by (simp add: m(2) f3 paths_def map_of_fresh_append del: map_of_append)
  define w4' where "w4' = w4\<lparr>clock := Suc (clock w4)\<rparr>"
  define w5 where "w5 = write_pages lib t out 1 pgs w4'"
  have sp: "api_SplitFile lib t out w4 = (None, w5)"
    using m(4) look split by (simp add: api_SplitFile_def tick_def calm_def w5_def w4'_def)
  have f4': "files w4' = files w @ [(t, SplitRequest.PDFData req)]" "dirs w4' = dirs w4" "calm w4'"
    using m(2,4) f3(1) by (simp_all add: w4'_def calm_def)
  have nm: "names = page_files lib t 1 pgs"
    using names by (simp add: t_def)
  have newfresh: "\<forall>x \<in> set (page_files lib t 1 pgs). Join out x \<notin> fst ` set (files w4')"
  proof
    fix x
    have pre: "prefix (out @ ''/'') (Join out x)"
      by (simp add: Join_def)
    then have "Join out x \<notin> paths w"
      using below by blast
    moreover have "Join out x \<noteq> t"
      using pre notin(1) by auto
    ultimately show "Join out x \<notin> fst ` set (files w4')"
      by (simp add: f4' paths_def)
  qed
  note wp = write_pages_files[OF dist[unfolded nm] newfresh, folded w5_def nm]
  have f5: "files w5 = files w @ [(t, SplitRequest.PDFData req)] @ zip (map (Join out) names) pgs"
    "set (dirs w5) \<subseteq> insert out (set (dirs w) \<union> tmp_chain cfg)" "calm w5"
    using wp f4' m(3) f3(3) by (auto simp: calm_def ch tmp_chain_def)
  have len: "length names = length pgs"
    by (simp add: nm)
  have fl: "filter (\<lambda>p. prefix (out @ ''/'') p) (map fst (files w5) @ dirs w5) = map (Join out) names"
  proof -
    have "filter (\<lambda>p. prefix (out @ ''/'') p) (map fst (files w)) = []"
      using below by (auto simp: filter_empty_conv paths_def)
    moreover have "filter (\<lambda>p. prefix (out @ ''/'') p) (dirs w5) = []"
      using below notin notin_chain f5(2) by (auto simp: filter_empty_conv paths_def)
    moreover have "filter (\<lambda>p. prefix (out @ ''/'') p) (map (Join out) names) = map (Join out) names"
      by (simp add: filter_id_conv Join_def)
    ultimately show ?thesis
      using notin(1) len by (simp add: f5(1))
  qed
  have dr: "map (drop (length out + 1)) (map (Join out) names) = names"
    by (simp add: Join_def map_idI)
  have glob: "Glob_pdf out w5 = Inr (map (Join out) (sort names))"
  proof -
    have "filter (\<lambda>n. CHR ''/'' \<notin> set n \<and> HasSuffix n ''.pdf'') names = names"
      using valid by (simp add: filter_id_conv)
    moreover have "\<not> hasMeta out"
      using nometa by (simp add: out_def)
    ultimately show ?thesis
      unfolding Glob_pdf_def Let_def fl dr by (simp add: dist distinct_remdups_id)
  qed
  have lk: "map_of (files w5) (Join out n) = map_of (zip names pgs) n" for n
  proof -
    have pre: "prefix (out @ ''/'') (Join out n)"
      by (simp add: Join_def)
    then have "Join out n \<notin> paths w"
      using below by blast
    moreover have "Join out n \<noteq> t"
      using pre notin(1) by auto
    ultimately show ?thesis
      by (simp add: f5(1) paths_def map_of_fresh_append map_of_zip_Join del: map_of_append)
  qed
  have some: "\<forall>f \<in> set (map (Join out) (sort names)). map_of (files w5) f \<noteq> None"
  proof
    fix f
    assume "f \<in> set (map (Join out) (sort names))"
    then obtain n where n: "n \<in> set names" "f = Join out n"
      by auto
    have "map_of (zip names pgs) n \<noteq> None"
      using map_of_zip_is_None[OF len, of n] n(1) by simp
    then show "map_of (files w5) f \<noteq> None"
      by (simp add: n(2) lk)
  qed
  obtain w6 where rd: "read_split_files (map (Join out) (sort names)) w5
      = (Inr (map (\<lambda>n. the (map_of (zip names pgs) n)) (sort names)), w6)"
    using read_split_files_calm[OF f5(3) some] by (auto simp: lk comp_def)
  show ?thesis
    using s(1)[unfolded w1_def] un m(1)[unfolded out_def] sp[unfolded out_def]
      glob[unfolded out_def] rd[unfolded out_def]
    by (simp add: SplitPDF_def deferred_def Let_def out_def)
qed


lemma lookup_zip_distinct:
  "length xs = length ys \<Longrightarrow> distinct xs \<Longrightarrow> map (\<lambda>x. the (map_of (zip xs ys) x)) xs = ys"
proof (induction xs ys rule: list_induct2)
  case Nil
  then show ?case by simp
next
  case (Cons x xs y ys)
  have a: "the (map_of (zip (x # xs) (y # ys)) x') = the (map_of (zip xs ys) x')" if "x' \<in> set xs" for x'
    using that Cons.prems by auto
  have "map (\<lambda>x'. the (map_of (zip (x # xs) (y # ys)) x')) xs
        = map (\<lambda>x'. the (map_of (zip xs ys) x')) xs"
    by (rule map_cong[OF refl]) (rule a)
  also have "\<dots> = ys"
    using Cons by simp
  finally have t: "map (\<lambda>x'. the (map_of (zip (x # xs) (y # ys)) x')) xs = ys" .
  show ?case
    unfolding list.map(2) t by simp
qed

text \<open>When the names of the page files are in ascending string order, the output is in page order.\<close>

lemma SplitPDF_calm_sorted_names:
  assumes "calm w" "scratch_free cfg w"
    and "CHR ''/'' \<notin> set (uuid w (useed w))"
    and "\<not> hasMeta (Join (TempDir cfg) (''split-output-'' @ uuid w (useed w)))"
    and "lib_Split lib (SplitRequest.PDFData req) = Inr pgs"
    and "names = page_files lib (Join (TempDir cfg) (''split-input-'' @ rand w (seed w) @ ''.pdf'')) 1 pgs"
    and "distinct names" "sorted names"
    and "\<forall>n \<in> set names. CHR ''/'' \<notin> set n \<and> HasSuffix n ''.pdf''"
  shows "\<exists>w'. SplitPDF lib cfg req w = (Inr pgs, w')"
proof -
  have "length names = length pgs"
    using assms(6) by simp
  then have "map (\<lambda>n. the (map_of (zip names pgs) n)) (sort names) = pgs"
    using assms(7,8) by (simp add: sorted_sort_id lookup_zip_distinct)
  then show ?thesis
    using SplitPDF_calm[OF assms(1,2,3,4,5,6,7,9)] by simp
qed

text \<open>
  C3 fails on the code for documents of ten pages or more. \<^verbatim>\<open>filepath.Glob\<close> returns the
  page files in the order of their names as strings, and pdfcpu numbers them without
  padding, so the file of page 10 comes before that of page 2. For a ten-page document
  whose pages are \<^verbatim>\<open>a\<close> to \<^verbatim>\<open>j\<close>, the library splits in page order, and \<open>SplitPDF\<close>
  returns ten documents with page 10 in second place.
\<close>

theorem SplitPDF_ten_pages_out_of_order:
  "lib_Split mini ''%PDFabcdefghij''
     = Inr [''%PDFa'', ''%PDFb'', ''%PDFc'', ''%PDFd'', ''%PDFe'', ''%PDFf'', ''%PDFg'', ''%PDFh'',
            ''%PDFi'', ''%PDFj'']
   \<and> fst (SplitPDF mini config0
            \<lparr>SplitRequest.PDFData = ''%PDFabcdefghij'', SplitRequest.PageRange = ''all''\<rparr> quiet)
     = Inr [''%PDFa'', ''%PDFj'', ''%PDFb'', ''%PDFc'', ''%PDFd'', ''%PDFe'', ''%PDFf'', ''%PDFg'',
            ''%PDFh'', ''%PDFi'']"
proof -
  define pgs where "pgs = [''%PDFa'', ''%PDFb'', ''%PDFc'', ''%PDFd'', ''%PDFe'', ''%PDFf'', ''%PDFg'',
     ''%PDFh'', ''%PDFi'', ''%PDFj'']"
  define names where "names = [''split-input-4170_1.pdf'', ''split-input-4170_2.pdf'',
     ''split-input-4170_3.pdf'', ''split-input-4170_4.pdf'', ''split-input-4170_5.pdf'',
     ''split-input-4170_6.pdf'', ''split-input-4170_7.pdf'', ''split-input-4170_8.pdf'',
     ''split-input-4170_9.pdf'', ''split-input-4170_10.pdf'']"
  have c: "calm quiet" and s: "scratch_free config0 quiet"
    by (simp_all add: calm_def scratch_free_def tempdir_usable_def quiet_def config0_def paths_def)
  have u: "CHR ''/'' \<notin> set (uuid quiet (useed quiet))"
    and g: "\<not> hasMeta (Join (TempDir config0) (''split-output-'' @ uuid quiet (useed quiet)))"
    by (simp_all add: hasMeta_def Join_def quiet_def config0_def nat_dec.simps)
  have sp: "lib_Split mini (SplitRequest.PDFData
        \<lparr>SplitRequest.PDFData = ''%PDFabcdefghij'', SplitRequest.PageRange = ''all''\<rparr>) = Inr pgs"
    by (simp add: mini_def mini_pages_def mini_doc_def pgs_def)
  have t: "Join (TempDir config0) (''split-input-'' @ rand quiet (seed quiet) @ ''.pdf'')
           = ''/tmp/pdf-tool/split-input-4170.pdf''"
    by (simp add: Join_def config0_def quiet_def nat_dec.simps)
  have nm: "pdfcpu_spanFileName ''/tmp/pdf-tool/split-input-4170.pdf'' n
            = ''split-input-4170_'' @ Itoa (int n) @ ''.pdf''" for n
    by (simp add: pdfcpu_spanFileName_def Base_def TrimSuffix_def HasSuffix_def)
  have n: "names = page_files mini (Join (TempDir config0)
             (''split-input-'' @ rand quiet (seed quiet) @ ''.pdf'')) 1 pgs"
    unfolding t by (simp add: names_def pgs_def mini_def nm Itoa_def nat_dec.simps)
  have d: "distinct names"
    by (simp add: names_def)
  have v: "\<forall>n \<in> set names. CHR ''/'' \<notin> set n \<and> HasSuffix n ''.pdf''"
    by (simp add: names_def HasSuffix_def)
  have so: "sort names = [''split-input-4170_1.pdf'', ''split-input-4170_10.pdf'',
     ''split-input-4170_2.pdf'', ''split-input-4170_3.pdf'', ''split-input-4170_4.pdf'',
     ''split-input-4170_5.pdf'', ''split-input-4170_6.pdf'', ''split-input-4170_7.pdf'',
     ''split-input-4170_8.pdf'', ''split-input-4170_9.pdf'']"
    by (simp add: names_def)
  have r: "map (\<lambda>n. the (map_of (zip names pgs) n)) (sort names)
           = [''%PDFa'', ''%PDFj'', ''%PDFb'', ''%PDFc'', ''%PDFd'', ''%PDFe'', ''%PDFf'', ''%PDFg'',
              ''%PDFh'', ''%PDFi'']"
    unfolding so by (simp add: names_def pgs_def)
  obtain w' where "SplitPDF mini config0
        \<lparr>SplitRequest.PDFData = ''%PDFabcdefghij'', SplitRequest.PageRange = ''all''\<rparr> quiet
      = (Inr (map (\<lambda>n. the (map_of (zip names pgs) n)) (sort names)), w')"
    using SplitPDF_calm[OF c s u g sp n d v] by blast
  then have "fst (SplitPDF mini config0
        \<lparr>SplitRequest.PDFData = ''%PDFabcdefghij'', SplitRequest.PageRange = ''all''\<rparr> quiet)
      = Inr [''%PDFa'', ''%PDFj'', ''%PDFb'', ''%PDFc'', ''%PDFd'', ''%PDFe'', ''%PDFf'', ''%PDFg'',
             ''%PDFh'', ''%PDFi'']"
    by (simp add: r)
  then show ?thesis
    using sp by (simp add: pgs_def)
qed

end
